(* ===== verification/Net_Prelude.thy ===== *)
theory Net_Prelude
  imports Main "HOL-Library.Word" "HOL-Library.Monad_Syntax"
begin

text \<open>
  Shared vocabulary of the development: the machine integers of the code as words of their
  width, byte buffers as lists, the collections of rewrite rules the component theories fill,
  and the lemmas on slices of lists and on word arithmetic that several components need.

  A computation that may run into undefined behaviour (an access outside the object a pointer
  points into, a call through a null pointer) has an \<open>option\<close> type: \<open>None\<close> is "the
  behaviour is undefined", never an error the code reports.  Errors the code reports are
  \<open>EFI_STATUS\<close> values.
\<close>

unbundle bit_operations_syntax

type_synonym u8 = "8 word"
type_synonym u16 = "16 word"
type_synonym u32 = "32 word"
type_synonym u64 = "64 word"
type_synonym bytes = "u8 list"

named_theorems const_vals "the numeric values of constants.hpp"
named_theorems layout "sizes and byte layouts of packed structures"
named_theorems mem_simps "closed forms of the memory primitives"
named_theorems frame_simps "fields an operation on the global state leaves alone"

subsection \<open>Lists and slices\<close>

lemma take_add_slice: "take n xs @ take m (drop n xs) = take (n + m) xs"
  by (simp add: take_add)

lemma take_add_slice_assoc: "take n xs @ take m (drop n xs) @ ys = take (n + m) xs @ ys"
  by (simp add: take_add)

lemma list_update_take_drop_Suc:
  "i < length xs \<Longrightarrow> take (Suc i) (xs[i := v]) = take i xs @ [v]"
  by (simp add: take_Suc_conv_app_nth)

lemma drop_Suc_list_update: "drop (Suc i) (xs[i := v]) = drop (Suc i) xs"
  by (simp add: drop_update_cancel)

lemma length_ge_splitE:
  assumes "n \<le> length xs"
  obtains ys zs where "xs = ys @ zs" "length ys = n"
  using assms by (metis append_take_drop_id length_take min.absorb2)

lemma take_drop_append_exact:
  "length a = n \<Longrightarrow> take m (drop n (a @ b)) = take m b"
  by simp

subsection \<open>The option monad\<close>

lemma bind_Some_iff: "(m \<bind> f) = Some y \<longleftrightarrow> (\<exists>x. m = Some x \<and> f x = Some y)"
  by (cases m) auto

lemma bind_if_Some: "(if b then Some x else None) \<bind> f = (if b then f x else None)"
  by simp

lemma bind_Some_E:
  assumes "(m \<bind> f) = Some y"
  obtains x where "m = Some x" "f x = Some y"
  using assms by (cases m) auto

subsection \<open>Words\<close>

lemma unat_add_one_less:
  fixes x y :: "'a::len word"
  assumes "x < y"
  shows "unat (x + 1) = unat x + 1"
proof -
  have "unat x < unat y" using assms by (simp add: word_less_nat_alt)
  then have "unat x + 1 < 2 ^ LENGTH('a)"
    using unsigned_less [of y] by (metis Suc_eq_plus1 Suc_leI le_less_trans)
  then show ?thesis by (simp add: unat_word_ariths)
qed

lemma unat_ucast_up:
  fixes x :: "'a::len word"
  assumes "LENGTH('a) \<le> LENGTH('b::len)"
  shows "unat (ucast x :: 'b word) = unat x"
proof -
  have "unat x < 2 ^ LENGTH('a)" by (rule unsigned_less)
  also have "(2::nat) ^ LENGTH('a) \<le> 2 ^ LENGTH('b)" using assms by simp
  finally show ?thesis by (simp add: unsigned_ucast_eq take_bit_nat_eq_self)
qed

lemma unat_ucast_16_32 [simp]: "unat (ucast (x :: u16) :: u32) = unat x"
  by (rule unat_ucast_up) simp

lemma unat_ucast_16_64 [simp]: "unat (ucast (x :: u16) :: u64) = unat x"
  by (rule unat_ucast_up) simp

lemma unat_ucast_8_16 [simp]: "unat (ucast (x :: u8) :: u16) = unat x"
  by (rule unat_ucast_up) simp

lemma unat_ucast_8_32 [simp]: "unat (ucast (x :: u8) :: u32) = unat x"
  by (rule unat_ucast_up) simp

lemma unat_ucast_8_64 [simp]: "unat (ucast (x :: u8) :: u64) = unat x"
  by (rule unat_ucast_up) simp

lemma unat_lt_256: "unat (x :: u8) < 256"
  using unsigned_less [of x] by simp

lemma unat_lt_65536: "unat (x :: u16) < 65536"
  using unsigned_less [of x] by simp

lemma unat_lt_2_32: "unat (x :: u32) < 4294967296"
  using unsigned_less [of x] by simp

lemma unat_lt_2_64: "unat (x :: u64) < 18446744073709551616"
  using unsigned_less [of x] by simp

lemma unat_of_nat_16: "n < 65536 \<Longrightarrow> unat (of_nat n :: u16) = n"
  by (simp add: unat_of_nat take_bit_nat_eq_self)

lemma unat_of_nat_64: "n < 18446744073709551616 \<Longrightarrow> unat (of_nat n :: u64) = n"
  by (simp add: unat_of_nat take_bit_nat_eq_self)

lemma ucast_of_nat_down:
  "LENGTH('b) \<le> LENGTH('a) \<Longrightarrow> (ucast (of_nat k :: 'a::len word) :: 'b::len word) = of_nat k"
  by (simp add: unsigned_of_nat word_of_nat_eq_iff take_bit_take_bit min_def)

lemma ucast_of_nat_64_16: "(ucast (of_nat k :: u64) :: u16) = of_nat k"
  by (rule ucast_of_nat_down) simp

lemma of_nat_add_numeral_64: "(numeral k :: u64) + of_nat n = of_nat (numeral k + n)"
  by simp

lemma length_load_store_copy:
  "length a = n \<Longrightarrow> take n (a @ b) = a" "length a = n \<Longrightarrow> drop n (a @ b) = b"
  by simp_all

text \<open>A byte in a 16-bit word has no bits from 12 on.\<close>

lemma drop_byte_12 [simp]: "drop_bit 12 (ucast (f :: 8 word) :: 16 word) = 0"
  by (rule bit_word_eqI) (auto simp: bit_simps dest: bit_imp_le_length)

end
