(* ===== verification/Net_Memory.thy ===== *)
theory Net_Memory
  imports Net_Prelude
begin

text \<open>
  \<^verbatim>\<open>memory.hpp\<close>: the freestanding \<open>memset\<close>/\<open>memcpy\<close>/\<open>memcmp\<close> loops.  A pointer is a buffer
  together with a position in it; dereferencing a position outside the buffer is \<open>None\<close>.
  The loops are translated as written, byte by byte, and their closed forms (the lemmas of
  \<open>mem_simps\<close>) are what the other theories compute with.
\<close>

definition rd :: "bytes \<Rightarrow> nat \<Rightarrow> u8 option" where
  "rd m i = (if i < length m then Some (m ! i) else None)"

definition load :: "bytes \<Rightarrow> nat \<Rightarrow> nat \<Rightarrow> bytes option" where
  "load m off n = (if off + n \<le> length m then Some (take n (drop off m)) else None)"

definition store :: "bytes \<Rightarrow> nat \<Rightarrow> bytes \<Rightarrow> bytes option" where
  "store m off bs =
     (if off + length bs \<le> length m
      then Some (take off m @ bs @ drop (off + length bs) m) else None)"

fun local_zero_mem :: "bytes \<Rightarrow> nat \<Rightarrow> nat \<Rightarrow> bytes option" where
  "local_zero_mem buf p 0 = Some buf"
| "local_zero_mem buf p (Suc n) =
     (if p < length buf then local_zero_mem (buf[p := 0]) (Suc p) n else None)"

fun local_mem_cpy :: "bytes \<Rightarrow> nat \<Rightarrow> bytes \<Rightarrow> nat \<Rightarrow> nat \<Rightarrow> bytes option" where
  "local_mem_cpy dest d src s 0 = Some dest"
| "local_mem_cpy dest d src s (Suc n) =
     (if d < length dest \<and> s < length src
      then local_mem_cpy (dest[d := src ! s]) (Suc d) src (Suc s) n else None)"

fun local_mem_cmp :: "bytes \<Rightarrow> nat \<Rightarrow> bytes \<Rightarrow> nat \<Rightarrow> nat \<Rightarrow> int option" where
  "local_mem_cmp m1 p1 m2 p2 0 = Some 0"
| "local_mem_cmp m1 p1 m2 p2 (Suc len) =
     (if p1 < length m1 \<and> p2 < length m2
      then if m1 ! p1 \<noteq> m2 ! p2 then Some (uint (m1 ! p1) - uint (m2 ! p2))
           else local_mem_cmp m1 (Suc p1) m2 (Suc p2) len
      else None)"

subsection \<open>Closed forms\<close>

lemma local_zero_mem_closed [mem_simps]:
  "local_zero_mem buf p n =
     (if n = 0 then Some buf
      else if p + n \<le> length buf then Some (take p buf @ replicate n 0 @ drop (p + n) buf)
      else None)"
proof (induction buf p n rule: local_zero_mem.induct)
  case (2 buf p n)
  then show ?case
    by (auto simp: list_update_take_drop_Suc drop_Suc_list_update take_Suc_conv_app_nth
        Cons_nth_drop_Suc replicate_app_Cons_same upd_conv_take_nth_drop add.commute)
qed simp

lemma local_mem_cpy_closed [mem_simps]:
  "local_mem_cpy dest d src s n =
     (if n = 0 then Some dest
      else if d + n \<le> length dest \<and> s + n \<le> length src
      then Some (take d dest @ take n (drop s src) @ drop (d + n) dest)
      else None)"
proof (induction dest d src s n rule: local_mem_cpy.induct)
  case (2 dest d src s n)
  show ?case
  proof (cases "d < length dest \<and> s < length src")
    case True
    then have "take (Suc n) (drop s src) = src ! s # take n (drop (Suc s) src)"
      by (metis Cons_nth_drop_Suc take_Suc_Cons)
    with True "2.IH" show ?thesis
      by (auto simp: list_update_take_drop_Suc upd_conv_take_nth_drop add.commute)
  qed auto
qed simp

lemma rd_Some_iff: "rd m i = Some b \<longleftrightarrow> i < length m \<and> b = m ! i"
  by (auto simp: rd_def)

lemma rd_in [simp]: "i < length m \<Longrightarrow> rd m i = Some (m ! i)"
  by (simp add: rd_def)

lemma rd_out [simp]: "length m \<le> i \<Longrightarrow> rd m i = None"
  by (simp add: rd_def)

lemma load_Some_iff:
  "load m off n = Some bs \<longleftrightarrow> off + n \<le> length m \<and> bs = take n (drop off m)"
  by (auto simp: load_def)

lemma length_load: "load m off n = Some bs \<Longrightarrow> length bs = n"
  by (auto simp: load_def split: if_splits)

lemma store_Some_iff:
  "store m off bs = Some m' \<longleftrightarrow>
     off + length bs \<le> length m \<and> m' = take off m @ bs @ drop (off + length bs) m"
  by (auto simp: store_def)

lemma length_store: "store m off bs = Some m' \<Longrightarrow> length m' = length m"
  by (auto simp: store_def split: if_splits)

lemma store_fits: "store m off bs = Some m' \<Longrightarrow> off + length bs \<le> length m"
  by (simp add: store_Some_iff)

lemma load_store_same: "store m off bs = Some m' \<Longrightarrow> load m' off (length bs) = Some bs"
  by (auto simp: store_Some_iff load_Some_iff)

lemma load_store_before:
  "store m off bs = Some m' \<Longrightarrow> o' + n \<le> off \<Longrightarrow> load m' o' n = load m o' n"
  by (cases bs) (auto simp: store_Some_iff load_def drop_take min_def)

lemma load_store_after:
  assumes "store m off bs = Some m'" "off + length bs \<le> o'"
  shows "load m' o' n = load m o' n"
proof -
  from assms(1) have m': "m' = take off m @ bs @ drop (off + length bs) m"
    and le: "off + length bs \<le> length m" by (auto simp: store_Some_iff)
  then have "drop o' m' = drop o' m" using assms(2) by simp
  then show ?thesis using m' le by (simp add: load_def)
qed

text \<open>\<open>local_mem_cpy\<close> is a load followed by a store: the copy the other theories reason with.\<close>

lemma local_mem_cpy_load_store:
  assumes "load src s n = Some bs"
  shows "local_mem_cpy dest d src s n = (if n = 0 then Some dest else store dest d bs)"
  using assms by (auto simp: mem_simps load_def store_def split: if_splits)

lemma length_local_mem_cpy:
  "local_mem_cpy dest d src s n = Some m \<Longrightarrow> length m = length dest"
  by (auto simp: mem_simps split: if_splits)

lemma copy_if_pos:
  "(if 0 < (w :: 'a::len word) then local_mem_cpy dest d src s (unat w) else Some dest) =
     local_mem_cpy dest d src s (unat w)"
  by (simp add: word_gt_0 mem_simps unat_eq_zero)

lemma local_mem_cpy_fails:
  "0 < n \<Longrightarrow> length dest < d + n \<or> length src < s + n \<Longrightarrow> local_mem_cpy dest d src s n = None"
  by (auto simp: mem_simps)

subsection \<open>Comparison\<close>

lemma local_mem_cmp_step:
  "p1 + Suc n \<le> length m1 \<Longrightarrow> p2 + Suc n \<le> length m2 \<Longrightarrow>
   local_mem_cmp m1 p1 m2 p2 (Suc n) =
     (if m1 ! p1 = m2 ! p2 then local_mem_cmp m1 (Suc p1) m2 (Suc p2) n
      else Some (uint (m1 ! p1) - uint (m2 ! p2)))"
  by simp

lemma load_Suc:
  assumes "load m p (Suc n) = Some bs"
  obtains cs where "bs = m ! p # cs" "load m (Suc p) n = Some cs" "p < length m"
proof -
  from assms have p: "p < length m" and le: "Suc p + n \<le> length m"
    and bs: "bs = take (Suc n) (drop p m)" by (auto simp: load_Some_iff)
  from p bs have "bs = m ! p # take n (drop (Suc p) m)"
    by (simp add: Cons_nth_drop_Suc [symmetric])
  moreover have "load m (Suc p) n = Some (take n (drop (Suc p) m))"
    using le by (simp add: load_def)
  ultimately show thesis using p that by blast
qed

lemma local_mem_cmp_lex:
  assumes "load m1 p1 n = Some a" "load m2 p2 n = Some b"
  shows "\<exists>r. local_mem_cmp m1 p1 m2 p2 n = Some r \<and> (r = 0 \<longleftrightarrow> a = b) \<and>
             (r < 0 \<longleftrightarrow> ord_class.lexordp a b)"
  using assms
proof (induction n arbitrary: p1 p2 a b)
  case 0
  then show ?case by (auto simp: load_Some_iff)
next
  case (Suc n)
  obtain a' where a: "a = m1 ! p1 # a'" "load m1 (Suc p1) n = Some a'" "p1 < length m1"
    using Suc.prems(1) by (rule load_Suc)
  obtain b' where b: "b = m2 ! p2 # b'" "load m2 (Suc p2) n = Some b'" "p2 < length m2"
    using Suc.prems(2) by (rule load_Suc)
  show ?case
    using Suc.IH [OF a(2) b(2)] a b
    by (cases "m1 ! p1 = m2 ! p2") (auto simp: word_less_def word_uint_eq_iff)
qed

end
