(* ===== verification/Net_Utils.thy ===== *)
theory Net_Utils
  imports Net_Memory
begin

text \<open>
  \<^verbatim>\<open>utils.hpp\<close>: byte order, C strings, region comparison, \<open>make_ipv4\<close>.  The interface of a byte-order
  conversion (each direction undoes the other) is the locale \<open>byte_order\<close>, interpreted on the
  16-bit and the 32-bit pair of the code.
\<close>

definition htons :: "u16 \<Rightarrow> u16" where
  "htons x = (drop_bit 8 (x AND 0xFF00)) OR (push_bit 8 (x AND 0x00FF))"

definition htonl :: "u32 \<Rightarrow> u32" where
  "htonl x = (drop_bit 24 (x AND 0xFF000000)) OR (drop_bit 8 (x AND 0x00FF0000)) OR
             (push_bit 8 (x AND 0x0000FF00)) OR (push_bit 24 (x AND 0x000000FF))"

definition ntohs :: "u16 \<Rightarrow> u16" where
  "ntohs x = htons x"

definition ntohl :: "u32 \<Rightarrow> u32" where
  "ntohl x = htonl x"

text \<open>
  \<open>ascii_str_len\<close> walks from position \<open>len\<close> to the first zero byte; a string without terminator
  runs out of its buffer.
\<close>

function ascii_str_len :: "bytes \<Rightarrow> nat \<Rightarrow> nat option" where
  "ascii_str_len s len =
     (case rd s len of
        None \<Rightarrow> None
      | Some c \<Rightarrow> if c \<noteq> 0 then ascii_str_len s (len + 1) else Some len)"
  by pat_completeness auto
termination
  by (relation "measure (\<lambda>(s, len). length s - len)") (auto simp: rd_def split: if_splits)

declare ascii_str_len.simps [simp del]

fun mem_cmp :: "bytes \<Rightarrow> nat \<Rightarrow> bytes \<Rightarrow> nat \<Rightarrow> nat \<Rightarrow> bool option" where
  "mem_cmp m1 p1 m2 p2 0 = Some True"
| "mem_cmp m1 p1 m2 p2 (Suc len) =
     (if p1 < length m1 \<and> p2 < length m2
      then if m1 ! p1 \<noteq> m2 ! p2 then Some False else mem_cmp m1 (Suc p1) m2 (Suc p2) len
      else None)"

definition make_ipv4 :: "u8 \<Rightarrow> u8 \<Rightarrow> u8 \<Rightarrow> u8 \<Rightarrow> u32" where
  "make_ipv4 a b c d =
     ucast a OR push_bit 8 (ucast b) OR push_bit 16 (ucast c) OR push_bit 24 (ucast d)"

subsection \<open>Byte order\<close>

lemma byte_masks:
  "(0xFF00 :: u16) = push_bit 8 (mask 8)" "(0x00FF :: u16) = mask 8"
  "(0xFF000000 :: u32) = push_bit 24 (mask 8)" "(0x00FF0000 :: u32) = push_bit 16 (mask 8)"
  "(0x0000FF00 :: u32) = push_bit 8 (mask 8)" "(0x000000FF :: u32) = mask 8"
  by (simp_all add: mask_eq_exp_minus_1)

lemma htons_alt: "htons x = drop_bit 8 x OR push_bit 8 x"
  unfolding htons_def byte_masks
  by (rule bit_word_eqI) (auto simp: bit_simps not_less dest: bit_imp_le_length)

lemma bit_htonl:
  "bit (htonl x) n \<longleftrightarrow>
     (if n < 8 then bit x (24 + n) else if n < 16 then bit x (8 + n)
      else if n < 24 then bit x (n - 8) else n < 32 \<and> bit x (n - 24))"
  unfolding htonl_def byte_masks
  by (auto simp: bit_simps not_less dest: bit_imp_le_length)

lemma htons_htons: "htons (htons x) = x"
proof (rule bit_word_eqI)
  fix n assume "n < LENGTH(16)"
  then show "bit (htons (htons x)) n \<longleftrightarrow> bit x n"
    by (cases "n < 8") (auto simp: htons_alt bit_simps not_less dest: bit_imp_le_length)
qed

lemma htonl_htonl: "htonl (htonl x) = x"
  by (rule bit_word_eqI) (auto simp: bit_htonl)

locale byte_order =
  fixes to_net :: "'a \<Rightarrow> 'a" and to_host :: "'a \<Rightarrow> 'a"
  assumes host_net [simp]: "to_host (to_net x) = x"
    and net_host [simp]: "to_net (to_host x) = x"
begin

lemma to_net_eq_iff: "to_net x = to_net y \<longleftrightarrow> x = y"
  by (metis host_net)

lemma to_net_eq_host: "to_net x = y \<longleftrightarrow> x = to_host y"
  by auto

lemma eq_to_net_host: "y = to_net x \<longleftrightarrow> to_host y = x"
  by auto

lemma bij_to_net: "bij to_net"
  by (rule o_bij [where g = to_host]) auto

end

interpretation net16: byte_order htons ntohs
  by unfold_locales (simp_all add: ntohs_def htons_htons)

interpretation net32: byte_order htonl ntohl
  by unfold_locales (simp_all add: ntohl_def htonl_htonl)

lemma htons_bytes:
  "ucast (htons x) = (ucast (drop_bit 8 x) :: u8)"
  "ucast (drop_bit 8 (htons x)) = (ucast x :: u8)"
  unfolding htons_alt
  by (rule bit_word_eqI, auto simp: bit_simps)+

lemma htonl_bytes:
  "ucast (htonl x) = (ucast (drop_bit 24 x) :: u8)"
  "ucast (drop_bit 8 (htonl x)) = (ucast (drop_bit 16 x) :: u8)"
  "ucast (drop_bit 16 (htonl x)) = (ucast (drop_bit 8 x) :: u8)"
  "ucast (drop_bit 24 (htonl x)) = (ucast x :: u8)"
  by (rule bit_word_eqI, auto simp: bit_simps bit_htonl)+

lemma htons_0_iff [simp]: "htons x = 0 \<longleftrightarrow> x = 0"
proof -
  have "htons 0 = 0" by (simp add: htons_def)
  then show ?thesis by (metis htons_htons)
qed

lemma make_ipv4_octets:
  "ucast (make_ipv4 a b c d) = a"
  "ucast (drop_bit 8 (make_ipv4 a b c d)) = b"
  "ucast (drop_bit 16 (make_ipv4 a b c d)) = c"
  "ucast (drop_bit 24 (make_ipv4 a b c d)) = d"
  unfolding make_ipv4_def
  by (rule bit_word_eqI, auto simp: bit_simps dest: bit_imp_le_length)+

subsection \<open>Strings and regions\<close>

text \<open>A C string in a buffer: the bytes before the first zero byte.\<close>

definition cstring :: "bytes \<Rightarrow> bytes" where
  "cstring s = takeWhile (\<lambda>c. c \<noteq> 0) s"

lemma ascii_str_len_from:
  assumes "0 \<in> set (drop k s)"
  shows "ascii_str_len s k = Some (k + length (cstring (drop k s)))"
  using assms
proof (induction s k rule: ascii_str_len.induct)
  case (1 s k)
  from "1.prems" have k: "k < length s"
    by (metis drop_all empty_iff linorder_not_less list.set(1))
  then have d: "drop k s = s ! k # drop (Suc k) s"
    by (simp add: Cons_nth_drop_Suc)
  show ?case
  proof (cases "s ! k = 0")
    case True
    with k d show ?thesis by (subst ascii_str_len.simps) (simp add: cstring_def)
  next
    case False
    with "1.prems" d have z: "0 \<in> set (drop (k + 1) s)" by auto
    have "ascii_str_len s (k + 1) = Some (k + 1 + length (cstring (drop (k + 1) s)))"
      using "1.IH" [of "s ! k"] False k z by simp
    with False k d show ?thesis by (subst ascii_str_len.simps) (simp add: cstring_def)
  qed
qed

lemma ascii_str_len_total: "0 \<in> set s \<Longrightarrow> ascii_str_len s 0 = Some (length (cstring s))"
  using ascii_str_len_from [of 0 s] by simp

lemma ascii_str_len_unterminated: "0 \<notin> set (drop k s) \<Longrightarrow> ascii_str_len s k = None"
proof (induction s k rule: ascii_str_len.induct)
  case (1 s k)
  show ?case
  proof (cases "k < length s")
    case True
    then have d: "drop k s = s ! k # drop (k + 1) s" by (simp add: Cons_nth_drop_Suc)
    with "1.prems" have "s ! k \<noteq> 0" "0 \<notin> set (drop (k + 1) s)" by auto
    with True "1.IH" [of "s ! k"] show ?thesis by (subst ascii_str_len.simps) simp
  next
    case False
    then show ?thesis by (subst ascii_str_len.simps) simp
  qed
qed

lemma mem_cmp_load:
  assumes "load m1 p1 n = Some a" "load m2 p2 n = Some b"
  shows "mem_cmp m1 p1 m2 p2 n = Some (a = b)"
  using assms
proof (induction n arbitrary: p1 p2 a b)
  case 0
  then show ?case by (auto simp: load_Some_iff)
next
  case (Suc n)
  obtain a' where a: "a = m1 ! p1 # a'" "load m1 (Suc p1) n = Some a'" "p1 < length m1"
    using Suc.prems(1) by (rule load_Suc)
  obtain b' where b: "b = m2 ! p2 # b'" "load m2 (Suc p2) n = Some b'" "p2 < length m2"
    using Suc.prems(2) by (rule load_Suc)
  show ?case using Suc.IH [OF a(2) b(2)] a b by auto
qed

end
