(* ===== verification/Net_Types.thy ===== *)
theory Net_Types
  imports Net_Utils
begin

text \<open>
  \<^verbatim>\<open>types.hpp\<close>: the packed protocol headers as records, with their memory layout under
  \<open>#pragma pack(1)\<close> on the little-endian target.  \<open>enc_\<dots>\<close> is the byte image of a header,
  \<open>dec_\<dots>\<close> reads the header a pointer cast sees.  The laws of such a layout (fixed width,
  reading back what was written, every byte accounted for) are the locale \<open>packed\<close>; every
  header is an interpretation, so all of them share its load/store lemmas.
\<close>

subsection \<open>Scalars in memory\<close>

definition enc8 :: "u8 \<Rightarrow> bytes" where
  "enc8 w = [w]"

definition enc16 :: "u16 \<Rightarrow> bytes" where
  "enc16 w = [ucast w, ucast (drop_bit 8 w)]"

definition enc32 :: "u32 \<Rightarrow> bytes" where
  "enc32 w = [ucast w, ucast (drop_bit 8 w), ucast (drop_bit 16 w), ucast (drop_bit 24 w)]"

definition dec16 :: "bytes \<Rightarrow> u16" where
  "dec16 b = ucast (b ! 0) OR push_bit 8 (ucast (b ! 1))"

definition dec32 :: "bytes \<Rightarrow> u32" where
  "dec32 b = ucast (b ! 0) OR push_bit 8 (ucast (b ! 1)) OR push_bit 16 (ucast (b ! 2)) OR
             push_bit 24 (ucast (b ! 3))"

subsection \<open>The headers\<close>

record eth_hdr =
  eth_dst :: bytes
  eth_src :: bytes
  eth_type :: u16

record arp_hdr =
  arp_htype :: u16
  arp_ptype :: u16
  arp_hlen :: u8
  arp_plen :: u8
  arp_oper :: u16
  arp_sha :: bytes
  arp_spa :: u32
  arp_tha :: bytes
  arp_tpa :: u32

record ip_hdr =
  ihl_version :: u8
  ip_tos :: u8
  ip_tot_len :: u16
  ip_id :: u16
  ip_frag_off :: u16
  ip_ttl :: u8
  ip_protocol :: u8
  ip_check :: u16
  ip_saddr :: u32
  ip_daddr :: u32

record icmp_hdr =
  icmp_type :: u8
  icmp_code :: u8
  icmp_checksum :: u16
  icmp_id :: u16
  icmp_seq :: u16

record udp_hdr =
  udp_source :: u16
  udp_dest :: u16
  udp_len :: u16
  udp_check :: u16

record dhcp_hdr =
  dhcp_op :: u8
  dhcp_htype :: u8
  dhcp_hlen :: u8
  dhcp_hops :: u8
  dhcp_xid :: u32
  dhcp_secs :: u16
  dhcp_flags :: u16
  dhcp_ciaddr :: u32
  dhcp_yiaddr :: u32
  dhcp_siaddr :: u32
  dhcp_giaddr :: u32
  dhcp_chaddr :: bytes
  dhcp_sname :: bytes
  dhcp_file :: bytes
  dhcp_magic :: u32
  dhcp_options :: bytes

record tcp_hdr =
  tcp_source :: u16
  tcp_dest :: u16
  tcp_hseq :: u32
  tcp_ack_seq :: u32
  res1_doff_flags :: u16
  tcp_window :: u16
  tcp_check :: u16
  tcp_urg_ptr :: u16

record pseudo_hdr =
  ph_saddr :: u32
  ph_daddr :: u32
  ph_zero :: u8
  ph_protocol :: u8
  ph_tcp_length :: u16

record dns_hdr =
  dns_id :: u16
  dns_flags :: u16
  dns_qdcount :: u16
  dns_ancount :: u16
  dns_nscount :: u16
  dns_arcount :: u16

subsection \<open>Layouts\<close>

definition enc_eth :: "eth_hdr \<Rightarrow> bytes" where [layout]:
  "enc_eth h = eth_dst h @ eth_src h @ enc16 (eth_type h)"

definition dec_eth :: "bytes \<Rightarrow> eth_hdr" where [layout]:
  "dec_eth b = \<lparr>eth_dst = take 6 b, eth_src = take 6 (drop 6 b), eth_type = dec16 (drop 12 b)\<rparr>"

definition valid_eth :: "eth_hdr \<Rightarrow> bool" where [layout]:
  "valid_eth h \<longleftrightarrow> length (eth_dst h) = 6 \<and> length (eth_src h) = 6"

definition enc_arp :: "arp_hdr \<Rightarrow> bytes" where [layout]:
  "enc_arp h = enc16 (arp_htype h) @ enc16 (arp_ptype h) @ enc8 (arp_hlen h) @ enc8 (arp_plen h) @
     enc16 (arp_oper h) @ arp_sha h @ enc32 (arp_spa h) @ arp_tha h @ enc32 (arp_tpa h)"

definition dec_arp :: "bytes \<Rightarrow> arp_hdr" where [layout]:
  "dec_arp b = \<lparr>arp_htype = dec16 b, arp_ptype = dec16 (drop 2 b), arp_hlen = b ! 4,
     arp_plen = b ! 5, arp_oper = dec16 (drop 6 b), arp_sha = take 6 (drop 8 b),
     arp_spa = dec32 (drop 14 b), arp_tha = take 6 (drop 18 b), arp_tpa = dec32 (drop 24 b)\<rparr>"

definition valid_arp :: "arp_hdr \<Rightarrow> bool" where [layout]:
  "valid_arp h \<longleftrightarrow> length (arp_sha h) = 6 \<and> length (arp_tha h) = 6"

definition enc_ip :: "ip_hdr \<Rightarrow> bytes" where [layout]:
  "enc_ip h = enc8 (ihl_version h) @ enc8 (ip_tos h) @ enc16 (ip_tot_len h) @ enc16 (ip_id h) @
     enc16 (ip_frag_off h) @ enc8 (ip_ttl h) @ enc8 (ip_protocol h) @ enc16 (ip_check h) @
     enc32 (ip_saddr h) @ enc32 (ip_daddr h)"

definition dec_ip :: "bytes \<Rightarrow> ip_hdr" where [layout]:
  "dec_ip b = \<lparr>ihl_version = b ! 0, ip_tos = b ! 1, ip_tot_len = dec16 (drop 2 b),
     ip_id = dec16 (drop 4 b), ip_frag_off = dec16 (drop 6 b), ip_ttl = b ! 8, ip_protocol = b ! 9,
     ip_check = dec16 (drop 10 b), ip_saddr = dec32 (drop 12 b), ip_daddr = dec32 (drop 16 b)\<rparr>"

definition enc_icmp :: "icmp_hdr \<Rightarrow> bytes" where [layout]:
  "enc_icmp h = enc8 (icmp_type h) @ enc8 (icmp_code h) @ enc16 (icmp_checksum h) @
     enc16 (icmp_id h) @ enc16 (icmp_seq h)"

definition dec_icmp :: "bytes \<Rightarrow> icmp_hdr" where [layout]:
  "dec_icmp b = \<lparr>icmp_type = b ! 0, icmp_code = b ! 1, icmp_checksum = dec16 (drop 2 b),
     icmp_id = dec16 (drop 4 b), icmp_seq = dec16 (drop 6 b)\<rparr>"

definition enc_udp :: "udp_hdr \<Rightarrow> bytes" where [layout]:
  "enc_udp h = enc16 (udp_source h) @ enc16 (udp_dest h) @ enc16 (udp_len h) @ enc16 (udp_check h)"

definition dec_udp :: "bytes \<Rightarrow> udp_hdr" where [layout]:
  "dec_udp b = \<lparr>udp_source = dec16 b, udp_dest = dec16 (drop 2 b), udp_len = dec16 (drop 4 b),
     udp_check = dec16 (drop 6 b)\<rparr>"

definition enc_dhcp :: "dhcp_hdr \<Rightarrow> bytes" where [layout]:
  "enc_dhcp h = enc8 (dhcp_op h) @ enc8 (dhcp_htype h) @ enc8 (dhcp_hlen h) @ enc8 (dhcp_hops h) @
     enc32 (dhcp_xid h) @ enc16 (dhcp_secs h) @ enc16 (dhcp_flags h) @ enc32 (dhcp_ciaddr h) @
     enc32 (dhcp_yiaddr h) @ enc32 (dhcp_siaddr h) @ enc32 (dhcp_giaddr h) @ dhcp_chaddr h @
     dhcp_sname h @ dhcp_file h @ enc32 (dhcp_magic h) @ dhcp_options h"

definition dec_dhcp :: "bytes \<Rightarrow> dhcp_hdr" where [layout]:
  "dec_dhcp b = \<lparr>dhcp_op = b ! 0, dhcp_htype = b ! 1, dhcp_hlen = b ! 2, dhcp_hops = b ! 3,
     dhcp_xid = dec32 (drop 4 b), dhcp_secs = dec16 (drop 8 b), dhcp_flags = dec16 (drop 10 b),
     dhcp_ciaddr = dec32 (drop 12 b), dhcp_yiaddr = dec32 (drop 16 b),
     dhcp_siaddr = dec32 (drop 20 b), dhcp_giaddr = dec32 (drop 24 b),
     dhcp_chaddr = take 16 (drop 28 b), dhcp_sname = take 64 (drop 44 b),
     dhcp_file = take 128 (drop 108 b), dhcp_magic = dec32 (drop 236 b),
     dhcp_options = take 300 (drop 240 b)\<rparr>"

definition valid_dhcp :: "dhcp_hdr \<Rightarrow> bool" where [layout]:
  "valid_dhcp h \<longleftrightarrow> length (dhcp_chaddr h) = 16 \<and> length (dhcp_sname h) = 64 \<and>
     length (dhcp_file h) = 128 \<and> length (dhcp_options h) = 300"

definition enc_tcp :: "tcp_hdr \<Rightarrow> bytes" where [layout]:
  "enc_tcp h = enc16 (tcp_source h) @ enc16 (tcp_dest h) @ enc32 (tcp_hseq h) @
     enc32 (tcp_ack_seq h) @ enc16 (res1_doff_flags h) @ enc16 (tcp_window h) @
     enc16 (tcp_check h) @ enc16 (tcp_urg_ptr h)"

definition dec_tcp :: "bytes \<Rightarrow> tcp_hdr" where [layout]:
  "dec_tcp b = \<lparr>tcp_source = dec16 b, tcp_dest = dec16 (drop 2 b), tcp_hseq = dec32 (drop 4 b),
     tcp_ack_seq = dec32 (drop 8 b), res1_doff_flags = dec16 (drop 12 b),
     tcp_window = dec16 (drop 14 b), tcp_check = dec16 (drop 16 b),
     tcp_urg_ptr = dec16 (drop 18 b)\<rparr>"

definition enc_pseudo :: "pseudo_hdr \<Rightarrow> bytes" where [layout]:
  "enc_pseudo h = enc32 (ph_saddr h) @ enc32 (ph_daddr h) @ enc8 (ph_zero h) @
     enc8 (ph_protocol h) @ enc16 (ph_tcp_length h)"

definition dec_pseudo :: "bytes \<Rightarrow> pseudo_hdr" where [layout]:
  "dec_pseudo b = \<lparr>ph_saddr = dec32 b, ph_daddr = dec32 (drop 4 b), ph_zero = b ! 8,
     ph_protocol = b ! 9, ph_tcp_length = dec16 (drop 10 b)\<rparr>"

definition enc_dns :: "dns_hdr \<Rightarrow> bytes" where [layout]:
  "enc_dns h = enc16 (dns_id h) @ enc16 (dns_flags h) @ enc16 (dns_qdcount h) @
     enc16 (dns_ancount h) @ enc16 (dns_nscount h) @ enc16 (dns_arcount h)"

definition dec_dns :: "bytes \<Rightarrow> dns_hdr" where [layout]:
  "dec_dns b = \<lparr>dns_id = dec16 b, dns_flags = dec16 (drop 2 b), dns_qdcount = dec16 (drop 4 b),
     dns_ancount = dec16 (drop 6 b), dns_nscount = dec16 (drop 8 b),
     dns_arcount = dec16 (drop 10 b)\<rparr>"

subsection \<open>The layout interface\<close>

locale packed =
  fixes width :: nat and valid :: "'a \<Rightarrow> bool" and enc :: "'a \<Rightarrow> bytes" and dec :: "bytes \<Rightarrow> 'a"
  assumes length_enc: "valid x \<Longrightarrow> length (enc x) = width"
    and dec_enc: "valid x \<Longrightarrow> dec (enc x @ r) = x"
    and enc_dec: "width \<le> length b \<Longrightarrow> enc (dec b) = take width b"
    and valid_dec: "width \<le> length b \<Longrightarrow> valid (dec b)"
begin

lemma dec_enc_Nil: "valid x \<Longrightarrow> dec (enc x) = x"
  using dec_enc [of x "[]"] by simp

lemma enc_inj: "valid x \<Longrightarrow> valid y \<Longrightarrow> enc x = enc y \<longleftrightarrow> x = y"
  by (metis dec_enc_Nil)

lemma dec_prefix: "width \<le> length b \<Longrightarrow> dec (take width b) = dec b"
  by (metis dec_enc_Nil enc_dec valid_dec)

lemma load_dec: "load m off width = Some b \<Longrightarrow> dec b = dec (drop off m)"
  using dec_prefix [of "drop off m"] by (auto simp: load_Some_iff)

lemma load_enc:
  assumes "valid x" "drop off m = enc x @ r" "off \<le> length m"
  shows "load m off width = Some (enc x)"
proof -
  have "length m - off = width + length r"
    using arg_cong [OF assms(2), of length] assms(1) by (simp add: length_enc)
  then show ?thesis using assms by (auto simp: load_def length_enc)
qed

lemma store_then_load:
  assumes "valid x" "store m off (enc x) = Some m'"
  shows "map_option dec (load m' off width) = Some x"
  using load_store_same [OF assms(2)] assms(1) by (simp add: length_enc dec_enc_Nil)

end

subsection \<open>Every header is laid out as declared\<close>

lemma nth_splice: "k < length b \<Longrightarrow> enc8 (b ! k) = take 1 (drop k b)"
  by (simp add: enc8_def take_Suc_conv_app_nth hd_drop_conv_nth take_Suc)

lemma nth_splice0: "numeral w \<le> length b \<Longrightarrow> enc8 (b ! 0) = take 1 b"
  by (cases b) (simp_all add: enc8_def)

lemma dec16_bytes:
  fixes a b :: u8
  shows "ucast (ucast a OR push_bit 8 (ucast b) :: u16) = a"
    "ucast (drop_bit 8 (ucast a OR push_bit 8 (ucast b) :: u16)) = b"
  by (rule bit_word_eqI, auto simp: bit_simps dest: bit_imp_le_length)+

lemma dec16_Cons: "dec16 (a # b # r) = ucast a OR push_bit 8 (ucast b)"
  by (simp add: dec16_def)

lemma dec32_Cons: "dec32 (a # b # c # d # r) =
    ucast a OR push_bit 8 (ucast b) OR push_bit 16 (ucast c) OR push_bit 24 (ucast d)"
  by (simp add: dec32_def)

lemma enc16_dec16_Cons [simp]: "enc16 (dec16 (a # b # r)) = [a, b]"
  by (simp only: enc16_def dec16_Cons dec16_bytes)

lemma enc16_dec16: "2 \<le> length b \<Longrightarrow> enc16 (dec16 b) = take 2 b"
  by (cases b; cases "tl b") auto

lemma dec32_bytes:
  fixes a b c d :: u8
  shows "ucast (ucast a OR push_bit 8 (ucast b) OR push_bit 16 (ucast c) OR push_bit 24 (ucast d) :: u32) = a"
    "ucast (drop_bit 8 (ucast a OR push_bit 8 (ucast b) OR push_bit 16 (ucast c) OR push_bit 24 (ucast d) :: u32)) = b"
    "ucast (drop_bit 16 (ucast a OR push_bit 8 (ucast b) OR push_bit 16 (ucast c) OR push_bit 24 (ucast d) :: u32)) = c"
    "ucast (drop_bit 24 (ucast a OR push_bit 8 (ucast b) OR push_bit 16 (ucast c) OR push_bit 24 (ucast d) :: u32)) = d"
  by (rule bit_word_eqI, auto simp: bit_simps dest: bit_imp_le_length)+

lemma enc32_dec32_Cons [simp]: "enc32 (dec32 (a # b # c # d # r)) = [a, b, c, d]"
  by (simp only: enc32_def dec32_Cons dec32_bytes)

lemma list4_splitE:
  assumes "4 \<le> length xs"
  obtains a b c d r where "xs = a # b # c # d # r"
  using assms by (metis (no_types, opaque_lifting) Suc_le_length_iff eval_nat_numeral(2)
      numeral_3_eq_3 numeral_eq_Suc semiring_norm(26) semiring_norm(27))

lemma enc32_dec32: "4 \<le> length b \<Longrightarrow> enc32 (dec32 b) = take 4 b"
  by (erule list4_splitE) simp

lemma dec16_enc16 [simp]: "dec16 (enc16 w @ r) = w"
proof (rule bit_word_eqI)
  fix n assume "n < LENGTH(16)"
  then show "bit (dec16 (enc16 w @ r)) n \<longleftrightarrow> bit w n"
    by (cases "n < 8") (auto simp: enc16_def dec16_Cons bit_simps dest: bit_imp_le_length)
qed

lemma dec32_enc32 [simp]: "dec32 (enc32 w @ r) = w"
proof (rule bit_word_eqI)
  fix n assume "n < LENGTH(32)"
  then show "bit (dec32 (enc32 w @ r)) n \<longleftrightarrow> bit w n"
    by (cases "n < 8"; cases "n < 16"; cases "n < 24")
      (auto simp: enc32_def dec32_Cons bit_simps dest: bit_imp_le_length)
qed

lemma dec16_enc16_Nil [simp]: "dec16 (enc16 w) = w"
  using dec16_enc16 [of w "[]"] by simp

lemma dec32_enc32_Nil [simp]: "dec32 (enc32 w) = w"
  using dec32_enc32 [of w "[]"] by simp

lemma length_enc [simp]: "length (enc8 v) = 1" "length (enc16 w) = 2" "length (enc32 x) = 4"
  by (simp_all add: enc8_def enc16_def enc32_def)

lemma nth_enc8 [simp]: "(enc8 v @ r) ! 0 = v"
  by (simp add: enc8_def)

text \<open>
  The laws are proved by walking the fields: \<open>walk\<close> turns the position of a field into a split of
  the byte image, \<open>glue\<close> joins adjacent slices again.
\<close>

lemma drop_field: "length f \<le> n \<Longrightarrow> drop n (f @ r) = drop (n - length f) r"
  by simp

lemma nth_field: "length f \<le> n \<Longrightarrow> (f @ r) ! n = r ! (n - length f)"
  by (simp add: nth_append)

lemmas walk = drop_field nth_field
lemmas glue = enc16_dec16 enc32_dec32 nth_splice0 nth_splice take_add_slice take_add_slice_assoc
  numeral_2_eq_2 [symmetric]

interpretation eth: packed 14 valid_eth enc_eth dec_eth
  by unfold_locales (simp_all add: layout walk glue)

interpretation arp: packed 28 valid_arp enc_arp dec_arp
  by unfold_locales (simp_all add: layout walk glue)

interpretation ip: packed 20 "\<lambda>_. True" enc_ip dec_ip
  by unfold_locales (simp_all add: layout walk glue)

interpretation icmp: packed 8 "\<lambda>_. True" enc_icmp dec_icmp
  by unfold_locales (simp_all add: layout walk glue)

interpretation udp: packed 8 "\<lambda>_. True" enc_udp dec_udp
  by unfold_locales (simp_all add: layout walk glue)

interpretation dhcp: packed 540 valid_dhcp enc_dhcp dec_dhcp
  by unfold_locales (simp_all add: layout walk glue)

interpretation tcp: packed 20 "\<lambda>_. True" enc_tcp dec_tcp
  by unfold_locales (simp_all add: layout walk glue)

interpretation pseudo: packed 12 "\<lambda>_. True" enc_pseudo dec_pseudo
  by unfold_locales (simp_all add: layout walk glue)

interpretation dns: packed 12 "\<lambda>_. True" enc_dns dec_dns
  by unfold_locales (simp_all add: layout walk glue)

end
