(* ===== verification/Net_Constants.thy ===== *)
theory Net_Constants
  imports Net_Prelude
begin

text \<open>
  \<^verbatim>\<open>constants.hpp\<close>: every named literal the modelled code uses, at the width it is declared with.
  The definitions are rewrite rules (collection \<open>const_vals\<close>), so a proof sees the numeral.
  \<open>EFI_STATUS\<close> is an unsigned 64-bit value whose top bit marks an error; the status codes the
  code names are those of the UEFI headers.
\<close>

definition ETHERTYPE_IPV4 :: u16 where [const_vals]: "ETHERTYPE_IPV4 = 0x0800"
definition ETHERTYPE_ARP :: u16 where [const_vals]: "ETHERTYPE_ARP = 0x0806"
definition ETH_ALEN :: nat where [const_vals]: "ETH_ALEN = 6"

definition IP_VERSION_IHL_DEFAULT :: u8 where [const_vals]: "IP_VERSION_IHL_DEFAULT = 0x45"
definition IP_PROTO_ICMP :: u8 where [const_vals]: "IP_PROTO_ICMP = 0x01"
definition IP_PROTO_TCP :: u8 where [const_vals]: "IP_PROTO_TCP = 0x06"
definition IP_PROTO_UDP :: u8 where [const_vals]: "IP_PROTO_UDP = 0x11"
definition IP_DEFAULT_TTL :: u8 where [const_vals]: "IP_DEFAULT_TTL = 0x40"
definition IP_HDR_MIN_LEN :: u64 where [const_vals]: "IP_HDR_MIN_LEN = 0x14"

definition ARP_HTYPE_ETHERNET :: u16 where [const_vals]: "ARP_HTYPE_ETHERNET = 0x0001"
definition ARP_PTYPE_IPV4 :: u16 where [const_vals]: "ARP_PTYPE_IPV4 = 0x0800"
definition ARP_HLEN_ETHERNET :: u8 where [const_vals]: "ARP_HLEN_ETHERNET = 0x06"
definition ARP_PLEN_IPV4 :: u8 where [const_vals]: "ARP_PLEN_IPV4 = 0x04"
definition ARP_OPER_REQUEST :: u16 where [const_vals]: "ARP_OPER_REQUEST = 0x0001"
definition ARP_OPER_REPLY :: u16 where [const_vals]: "ARP_OPER_REPLY = 0x0002"

definition ICMP_TYPE_ECHO_REPLY :: u8 where [const_vals]: "ICMP_TYPE_ECHO_REPLY = 0x00"
definition ICMP_TYPE_ECHO_REQUEST :: u8 where [const_vals]: "ICMP_TYPE_ECHO_REQUEST = 0x08"
definition ICMP_CODE_ZERO :: u8 where [const_vals]: "ICMP_CODE_ZERO = 0x00"

definition TCP_FLAG_FIN :: u8 where [const_vals]: "TCP_FLAG_FIN = 0x01"
definition TCP_FLAG_SYN :: u8 where [const_vals]: "TCP_FLAG_SYN = 0x02"
definition TCP_FLAG_RST :: u8 where [const_vals]: "TCP_FLAG_RST = 0x04"
definition TCP_FLAG_PSH :: u8 where [const_vals]: "TCP_FLAG_PSH = 0x08"
definition TCP_FLAG_ACK :: u8 where [const_vals]: "TCP_FLAG_ACK = 0x10"
definition TCP_FLAG_URG :: u8 where [const_vals]: "TCP_FLAG_URG = 0x20"
definition TCP_FLAG_SYN_ACK :: u8 where [const_vals]: "TCP_FLAG_SYN_ACK = TCP_FLAG_SYN OR TCP_FLAG_ACK"
definition TCP_FLAG_FIN_ACK :: u8 where [const_vals]: "TCP_FLAG_FIN_ACK = TCP_FLAG_FIN OR TCP_FLAG_ACK"
definition TCP_FLAG_PSH_ACK :: u8 where [const_vals]: "TCP_FLAG_PSH_ACK = TCP_FLAG_PSH OR TCP_FLAG_ACK"
definition TCP_DATA_OFFSET_5 :: u8 where [const_vals]: "TCP_DATA_OFFSET_5 = 0x05"
definition TCP_DEFAULT_WINDOW :: u16 where [const_vals]: "TCP_DEFAULT_WINDOW = 0x2000"

definition TCP_STATE_CLOSED :: u32 where [const_vals]: "TCP_STATE_CLOSED = 0x00"
definition TCP_STATE_SYN_SENT :: u32 where [const_vals]: "TCP_STATE_SYN_SENT = 0x01"
definition TCP_STATE_ESTABLISHED :: u32 where [const_vals]: "TCP_STATE_ESTABLISHED = 0x02"
definition TCP_STATE_FIN_WAIT :: u32 where [const_vals]: "TCP_STATE_FIN_WAIT = 0x03"
definition TCP_STATE_CLOSED_DONE :: u32 where [const_vals]: "TCP_STATE_CLOSED_DONE = 0x04"

definition UDP_PORT_DNS :: u16 where [const_vals]: "UDP_PORT_DNS = 0x0035"
definition UDP_PORT_DHCP_CLIENT :: u16 where [const_vals]: "UDP_PORT_DHCP_CLIENT = 0x0044"
definition UDP_PORT_DHCP_SERVER :: u16 where [const_vals]: "UDP_PORT_DHCP_SERVER = 0x0043"

definition DHCP_OP_REQUEST :: u8 where [const_vals]: "DHCP_OP_REQUEST = 0x01"
definition DHCP_OP_REPLY :: u8 where [const_vals]: "DHCP_OP_REPLY = 0x02"
definition DHCP_HTYPE_ETHERNET :: u8 where [const_vals]: "DHCP_HTYPE_ETHERNET = 0x01"
definition DHCP_HLEN_ETHERNET :: u8 where [const_vals]: "DHCP_HLEN_ETHERNET = 0x06"
definition DHCP_MAGIC_COOKIE :: u32 where [const_vals]: "DHCP_MAGIC_COOKIE = 0x63825363"
definition DHCP_MSG_DISCOVER :: u8 where [const_vals]: "DHCP_MSG_DISCOVER = 0x01"
definition DHCP_MSG_OFFER :: u8 where [const_vals]: "DHCP_MSG_OFFER = 0x02"
definition DHCP_MSG_REQUEST :: u8 where [const_vals]: "DHCP_MSG_REQUEST = 0x03"
definition DHCP_MSG_DECLINE :: u8 where [const_vals]: "DHCP_MSG_DECLINE = 0x04"
definition DHCP_MSG_ACK :: u8 where [const_vals]: "DHCP_MSG_ACK = 0x05"
definition DHCP_MSG_NAK :: u8 where [const_vals]: "DHCP_MSG_NAK = 0x06"
definition DHCP_MSG_RELEASE :: u8 where [const_vals]: "DHCP_MSG_RELEASE = 0x07"
definition DHCP_OPT_PAD :: u8 where [const_vals]: "DHCP_OPT_PAD = 0x00"
definition DHCP_OPT_SUBNET_MASK :: u8 where [const_vals]: "DHCP_OPT_SUBNET_MASK = 0x01"
definition DHCP_OPT_ROUTER :: u8 where [const_vals]: "DHCP_OPT_ROUTER = 0x03"
definition DHCP_OPT_DNS :: u8 where [const_vals]: "DHCP_OPT_DNS = 0x06"
definition DHCP_OPT_REQUESTED_IP :: u8 where [const_vals]: "DHCP_OPT_REQUESTED_IP = 0x32"
definition DHCP_OPT_LEASE_TIME :: u8 where [const_vals]: "DHCP_OPT_LEASE_TIME = 0x33"
definition DHCP_OPT_MSG_TYPE :: u8 where [const_vals]: "DHCP_OPT_MSG_TYPE = 0x35"
definition DHCP_OPT_SERVER_ID :: u8 where [const_vals]: "DHCP_OPT_SERVER_ID = 0x36"
definition DHCP_OPT_PARAM_LIST :: u8 where [const_vals]: "DHCP_OPT_PARAM_LIST = 0x37"
definition DHCP_OPT_END :: u8 where [const_vals]: "DHCP_OPT_END = 0xFF"
definition DHCP_STATE_DISCOVER :: u32 where [const_vals]: "DHCP_STATE_DISCOVER = 0x00"
definition DHCP_STATE_OFFER_RCVD :: u32 where [const_vals]: "DHCP_STATE_OFFER_RCVD = 0x01"
definition DHCP_STATE_BOUND :: u32 where [const_vals]: "DHCP_STATE_BOUND = 0x02"

definition DNS_FLAG_RESPONSE :: u16 where [const_vals]: "DNS_FLAG_RESPONSE = 0x8000"
definition DNS_FLAG_RECURSION :: u16 where [const_vals]: "DNS_FLAG_RECURSION = 0x0100"
definition DNS_TYPE_A :: u16 where [const_vals]: "DNS_TYPE_A = 0x0001"
definition DNS_CLASS_IN :: u16 where [const_vals]: "DNS_CLASS_IN = 0x0001"
definition DNS_PTR_MASK :: u8 where [const_vals]: "DNS_PTR_MASK = 0xC0"
definition DNS_RDLEN_IPV4 :: u16 where [const_vals]: "DNS_RDLEN_IPV4 = 0x0004"

definition SNP_FILTER_UNICAST :: u32 where [const_vals]: "SNP_FILTER_UNICAST = 0x01"
definition SNP_FILTER_BROADCAST :: u32 where [const_vals]: "SNP_FILTER_BROADCAST = 0x04"
definition SNP_FILTER_ALL_MULTI :: u32 where [const_vals]: "SNP_FILTER_ALL_MULTI = 0x08"

definition IPV4_BROADCAST :: u32 where [const_vals]: "IPV4_BROADCAST = 0xFFFFFFFF"
definition ETH_BROADCAST :: bytes where "ETH_BROADCAST = [0xFF, 0xFF, 0xFF, 0xFF, 0xFF, 0xFF]"
definition GOOGLE_DNS_NBO :: u32 where [const_vals]: "GOOGLE_DNS_NBO = 0x08080808"

definition STALL_1MS :: u32 where [const_vals]: "STALL_1MS = 0x03E8"
definition STALL_500US :: u32 where [const_vals]: "STALL_500US = 0x01F4"
definition STALL_100US :: u32 where [const_vals]: "STALL_100US = 0x0064"
definition STALL_10MS :: u32 where [const_vals]: "STALL_10MS = 0x2710"
definition TIMEOUT_RETRANSMIT :: u32 where [const_vals]: "TIMEOUT_RETRANSMIT = 0x1388"
definition TIMEOUT_DHCP_LOOPS :: u32 where [const_vals]: "TIMEOUT_DHCP_LOOPS = 0x7A120"
definition TIMEOUT_ARP_LOOPS :: u32 where [const_vals]: "TIMEOUT_ARP_LOOPS = 0x30D40"
definition TIMEOUT_TCP_LOOPS :: u32 where [const_vals]: "TIMEOUT_TCP_LOOPS = 0x7A120"
definition TIMEOUT_TX_RETRIES :: u32 where [const_vals]: "TIMEOUT_TX_RETRIES = 0x1388"
definition TIMEOUT_CLOSE_LOOPS :: u32 where [const_vals]: "TIMEOUT_CLOSE_LOOPS = 0x2710"

definition PKT_BUF_SIZE :: nat where [const_vals]: "PKT_BUF_SIZE = 0x1000"
definition MAX_PKT_SIZE :: nat where [const_vals]: "MAX_PKT_SIZE = 0x05DC"
definition DHCP_PKT_SIZE :: nat where [const_vals]: "DHCP_PKT_SIZE = 0x0258"
definition DNS_PKT_SIZE :: nat where [const_vals]: "DNS_PKT_SIZE = 0x0258"
definition ARP_PKT_SIZE :: nat where [const_vals]: "ARP_PKT_SIZE = 0x003C"
definition HTTP_REQ_SIZE :: nat where [const_vals]: "HTTP_REQ_SIZE = 0x0200"
definition EPHEMERAL_PORT_BASE :: u16 where [const_vals]: "EPHEMERAL_PORT_BASE = 0xC000"
definition EPHEMERAL_PORT_RANGE :: u16 where [const_vals]: "EPHEMERAL_PORT_RANGE = 0x4000"
definition DHCP_OPT_MAX_SCAN :: nat where [const_vals]: "DHCP_OPT_MAX_SCAN = 0xFA"
definition ARP_CACHE_SIZE :: nat where [const_vals]: "ARP_CACHE_SIZE = 8"

type_synonym efi_status = u64

definition EFI_SUCCESS :: efi_status where [const_vals]: "EFI_SUCCESS = 0"
definition EFI_NOT_READY :: efi_status where [const_vals]: "EFI_NOT_READY = 0x8000000000000006"
definition EFI_OUT_OF_RESOURCES :: efi_status where [const_vals]: "EFI_OUT_OF_RESOURCES = 0x8000000000000009"
definition EFI_NOT_FOUND :: efi_status where [const_vals]: "EFI_NOT_FOUND = 0x800000000000000E"
definition EFI_TIMEOUT :: efi_status where [const_vals]: "EFI_TIMEOUT = 0x8000000000000012"

definition EFI_ERROR :: "efi_status \<Rightarrow> bool" where
  "EFI_ERROR st \<longleftrightarrow> bit st 63"

lemma ETH_BROADCAST_replicate [const_vals]: "ETH_BROADCAST = replicate 6 0xFF"
  by (simp add: ETH_BROADCAST_def numeral_eq_Suc)

lemma EFI_ERROR_codes [simp]:
  "\<not> EFI_ERROR EFI_SUCCESS" "EFI_ERROR EFI_NOT_READY" "EFI_ERROR EFI_OUT_OF_RESOURCES"
  "EFI_ERROR EFI_NOT_FOUND" "EFI_ERROR EFI_TIMEOUT"
  by (simp_all add: EFI_ERROR_def const_vals)

end
