(* ===== verification/Net_Arp_Cache.thy ===== *)
theory Net_Arp_Cache
  imports Net_Memory Net_Constants
begin

text \<open>
  \<^verbatim>\<open>arp_cache.hpp\<close>: the fixed table of eight IP/MAC entries with round-robin replacement.  Its
  contract is the locale \<open>fifo_cache\<close>: behind the table there is a queue of at most \<open>cap\<close>
  bindings, oldest first; an update of a present address changes its binding in place, an update
  of an absent one appends it and, when the queue is full, drops the oldest.  The lemmas clients
  need (what a lookup sees after an update, how long a binding survives) are proved in the
  locale, and the interpretation proves that the code's table implements the queue.
\<close>

record arp_entry =
  entry_ip :: u32
  entry_mac :: bytes
  entry_valid :: bool

record arp_cache =
  table :: "arp_entry list"
  next_slot :: nat

fun scan :: "u32 \<Rightarrow> arp_entry list \<Rightarrow> nat option" where
  "scan ip [] = None"
| "scan ip (e # es) =
     (if entry_valid e \<and> entry_ip e = ip then Some 0 else map_option Suc (scan ip es))"

definition lookup :: "arp_cache \<Rightarrow> u32 \<Rightarrow> bytes option" where
  "lookup c ip =
     (case scan ip (table c) of
        Some i \<Rightarrow> Some (take ETH_ALEN (entry_mac (table c ! i)))
      | None \<Rightarrow> None)"

definition update :: "arp_cache \<Rightarrow> u32 \<Rightarrow> bytes \<Rightarrow> arp_cache" where
  "update c ip mac =
     (case scan ip (table c) of
        Some i \<Rightarrow> c\<lparr>table := (table c)[i := (table c ! i)\<lparr>entry_mac := take ETH_ALEN mac\<rparr>]\<rparr>
      | None \<Rightarrow>
          c\<lparr>table := (table c)[next_slot c :=
               \<lparr>entry_ip = ip, entry_mac = take ETH_ALEN mac, entry_valid = True\<rparr>],
            next_slot := (next_slot c + 1) mod ARP_CACHE_SIZE\<rparr>)"

definition flush :: "arp_cache \<Rightarrow> arp_cache" where
  "flush c = c\<lparr>table := map (entry_valid_update (\<lambda>_. False)) (table c), next_slot := 0\<rparr>"

text \<open>The static initialiser: eight zeroed entries.\<close>

definition empty_cache :: arp_cache where
  "empty_cache =
     \<lparr>table = replicate ARP_CACHE_SIZE \<lparr>entry_ip = 0, entry_mac = replicate 6 0, entry_valid = False\<rparr>,
      next_slot = 0\<rparr>"

subsection \<open>The contract\<close>

definition queue_update :: "nat \<Rightarrow> 'k \<Rightarrow> 'v \<Rightarrow> ('k \<times> 'v) list \<Rightarrow> ('k \<times> 'v) list" where
  "queue_update cap k v q =
     (if k \<in> fst ` set q then map (\<lambda>(i, w). (i, if i = k then v else w)) q
      else (if length q = cap then tl q else q) @ [(k, v)])"

text \<open>The number of bindings younger than \<open>k\<close>'s.\<close>

fun younger :: "'k \<Rightarrow> ('k \<times> 'v) list \<Rightarrow> nat" where
  "younger k [] = 0"
| "younger k ((i, v) # q) = (if i = k then length q else younger k q)"

lemma keys_update_map: "map fst (map (\<lambda>(i, w). (i, if i = k then v else w)) q) = map fst q"
  by (induction q) auto

lemma map_of_update_map:
  "map_of (map (\<lambda>(i, w). (i, if i = k then v else w)) q) x =
     (if x = k then map_option (\<lambda>_. v) (map_of q k) else map_of q x)"
  by (induction q) auto

lemma key_iff_map_of: "k \<in> fst ` set q \<longleftrightarrow> (\<exists>v. map_of q k = Some v)"
  by (metis map_of_eq_None_iff not_None_eq)

lemma distinct_queue_update:
  assumes "distinct (map fst q)"
  shows "distinct (map fst (queue_update cap k v q))"
proof (cases "k \<in> fst ` set q")
  case True
  then show ?thesis using assms by (simp add: queue_update_def keys_update_map del: map_map)
next
  case False
  have "k \<notin> fst ` set (tl q)" using False by (cases q) auto
  moreover have "distinct (map fst (tl q))" using assms by (cases q) auto
  ultimately show ?thesis using assms False by (simp add: queue_update_def)
qed

lemma map_of_snoc_new:
  "k \<notin> fst ` set q \<Longrightarrow> map_of (q @ [(k, v)]) x = (if x = k then Some v else map_of q x)"
  by (induction q) auto

lemma keys_image: "fst ` (\<lambda>(i, w). (i, f i w)) ` S = fst ` S"
  by force

lemma key_tl: "k \<notin> fst ` set q \<Longrightarrow> k \<notin> fst ` set (tl q)"
  by (cases q) auto

lemma queue_update_same: "map_of (queue_update cap k v q) k = Some v"
proof (cases "k \<in> fst ` set q")
  case True
  then show ?thesis by (auto simp: queue_update_def map_of_update_map key_iff_map_of)
next
  case False
  then show ?thesis using key_tl [OF False]
    by (simp add: queue_update_def map_of_snoc_new del: map_of_append)
qed

lemma length_queue_update: "length q \<le> cap \<Longrightarrow> 0 < cap \<Longrightarrow> length (queue_update cap k v q) \<le> cap"
  by (auto simp: queue_update_def)

lemma younger_append: "k \<in> fst ` set q \<Longrightarrow> younger k (q @ r) = younger k q + length r"
  by (induction q) (auto simp: key_iff_map_of)

lemma younger_map: "younger k (map (\<lambda>(i, w). (i, f i w)) q) = younger k q"
  by (induction q) auto

lemma younger_tl:
  assumes "distinct (map fst q)" "k \<in> fst ` set q" "younger k q + 1 < length q"
  shows "k \<in> fst ` set (tl q) \<and> younger k (tl q) = younger k q \<and> map_of (tl q) k = map_of q k"
  using assms by (cases q) auto

lemma queue_update_other:
  assumes q: "distinct (map fst q)" and k: "k \<in> fst ` set q" and y: "younger k q + 1 < cap"
    and ne: "k' \<noteq> k"
  shows "map_of (queue_update cap k' v q) k = map_of q k \<and>
    k \<in> fst ` set (queue_update cap k' v q) \<and> younger k (queue_update cap k' v q) \<le> younger k q + 1"
proof (cases "k' \<in> fst ` set q")
  case True
  then show ?thesis
    using k ne by (simp add: queue_update_def map_of_update_map younger_map keys_image)
next
  case False
  let ?q = "if length q = cap then tl q else q"
  have kq: "k \<in> fst ` set ?q \<and> younger k ?q = younger k q \<and> map_of ?q k = map_of q k"
    using younger_tl [OF q k] k y by simp
  then have "younger k (?q @ [(k', v)]) = younger k q + 1"
    by (simp add: younger_append)
  moreover have "map_of (?q @ [(k', v)]) k = map_of q k"
    using kq ne by (auto simp: map_add_def split: option.splits)
  ultimately show ?thesis
    using False kq by (simp add: queue_update_def)
qed

locale fifo_cache =
  fixes cap :: nat and inv :: "'c \<Rightarrow> bool" and queue :: "'c \<Rightarrow> ('k \<times> 'v) list"
    and value_ok :: "'v \<Rightarrow> bool"
    and get :: "'c \<Rightarrow> 'k \<Rightarrow> 'v option" and put :: "'c \<Rightarrow> 'k \<Rightarrow> 'v \<Rightarrow> 'c" and clear :: "'c \<Rightarrow> 'c"
  assumes cap_pos: "0 < cap"
    and queue_distinct: "inv c \<Longrightarrow> distinct (map fst (queue c))"
    and queue_cap: "inv c \<Longrightarrow> length (queue c) \<le> cap"
    and get_queue: "inv c \<Longrightarrow> get c k = map_of (queue c) k"
    and put_inv: "inv c \<Longrightarrow> value_ok v \<Longrightarrow> inv (put c k v)"
    and put_queue: "inv c \<Longrightarrow> value_ok v \<Longrightarrow> queue (put c k v) = queue_update cap k v (queue c)"
    and clear_inv: "inv c \<Longrightarrow> inv (clear c)"
    and clear_queue: "inv c \<Longrightarrow> queue (clear c) = []"
begin

definition puts :: "'c \<Rightarrow> ('k \<times> 'v) list \<Rightarrow> 'c" where
  "puts c kvs = fold (\<lambda>(k, v) c. put c k v) kvs c"

lemma get_put_same: "inv c \<Longrightarrow> value_ok v \<Longrightarrow> get (put c k v) k = Some v"
  by (simp add: get_queue put_inv put_queue queue_update_same)

lemma get_put_present:
  "inv c \<Longrightarrow> value_ok v \<Longrightarrow> get c k = Some w \<Longrightarrow> k' \<noteq> k \<Longrightarrow> younger k (queue c) + 1 < cap \<Longrightarrow>
   get (put c k' v) k = Some w"
  by (simp add: get_queue put_inv put_queue queue_update_other queue_distinct key_iff_map_of)

lemma get_clear: "inv c \<Longrightarrow> get (clear c) k = None"
  by (simp add: get_queue clear_inv clear_queue)

lemma younger_put_same:
  assumes "inv c" "value_ok v" "get c k = None"
  shows "younger k (queue (put c k v)) = 0"
proof -
  have k: "k \<notin> fst ` set (queue c)"
    using assms(1,3) by (simp add: get_queue map_of_eq_None_iff)
  have "younger k (q @ [(k, v)]) = 0" if "k \<notin> fst ` set q" for q
    using that by (induction q) auto
  then show ?thesis
    using k key_tl [OF k] assms(1,2) by (simp add: put_queue queue_update_def)
qed

text \<open>A fresh binding survives \<open>cap - 1\<close> updates of other addresses.\<close>

lemma survives_from:
  assumes "inv c" "get c k = Some w" "\<forall>(k', v) \<in> set kvs. k' \<noteq> k \<and> value_ok v"
    "younger k (queue c) + length kvs < cap"
  shows "get (puts c kvs) k = Some w"
  using assms
proof (induction kvs arbitrary: c)
  case Nil
  then show ?case by (simp add: puts_def)
next
  case (Cons kv kvs)
  obtain k' v where kv: "kv = (k', v)" by fastforce
  have ok: "value_ok v" "k' \<noteq> k" using Cons.prems(3) kv by auto
  have y: "younger k (queue c) + 1 < cap" using Cons.prems(4) by simp
  have "k \<in> fst ` set (queue c)"
    using Cons.prems(1,2) by (simp add: get_queue key_iff_map_of)
  then have "younger k (queue (put c k' v)) \<le> younger k (queue c) + 1"
    using queue_update_other [OF queue_distinct _ y ok(2)] Cons.prems(1) ok(1)
    by (simp add: put_queue)
  then have "get (puts (put c k' v) kvs) k = Some w"
    using Cons.prems ok y by (intro Cons.IH) (auto simp: put_inv get_put_present)
  then show ?case by (simp add: puts_def kv)
qed

lemma survives:
  assumes "inv c" "get c k = None" "value_ok w" "\<forall>(k', v) \<in> set kvs. k' \<noteq> k \<and> value_ok v"
    "length kvs < cap"
  shows "get (puts (put c k w) kvs) k = Some w"
  using assms by (intro survives_from) (auto simp: put_inv get_put_same younger_put_same)

end

subsection \<open>The table implements the queue\<close>

definition entries :: "arp_entry list \<Rightarrow> (u32 \<times> bytes) list" where
  "entries es = map (\<lambda>e. (entry_ip e, entry_mac e)) (filter entry_valid es)"

text \<open>Oldest binding first: from the slot the next insertion takes, around the table.\<close>

definition cache_queue :: "arp_cache \<Rightarrow> (u32 \<times> bytes) list" where
  "cache_queue c = entries (drop (next_slot c) (table c)) @ entries (take (next_slot c) (table c))"

text \<open>
  The invariant: eight slots, six-byte addresses, no address valid twice, and the valid slots are
  all of them or exactly those below \<open>next_slot\<close>.
\<close>

definition cache_inv :: "arp_cache \<Rightarrow> bool" where
  "cache_inv c \<longleftrightarrow> length (table c) = 8 \<and> next_slot c < 8 \<and>
     (\<forall>e \<in> set (table c). length (entry_mac e) = 6) \<and>
     distinct (map entry_ip (filter entry_valid (table c))) \<and>
     list_all entry_valid (take (next_slot c) (table c)) \<and>
     (list_all entry_valid (drop (next_slot c) (table c)) \<or>
      list_all (\<lambda>e. \<not> entry_valid e) (drop (next_slot c) (table c)))"

definition mac_ok :: "bytes \<Rightarrow> bool" where
  "mac_ok m \<longleftrightarrow> length m = 6"

lemma scan_None: "scan ip es = None \<longleftrightarrow> ip \<notin> fst ` set (entries es)"
  by (induction es) (auto simp: entries_def)

lemma scan_Some:
  "scan ip es = Some i \<Longrightarrow> i < length es \<and> entry_valid (es ! i) \<and> entry_ip (es ! i) = ip \<and>
     map_of (entries es) ip = Some (entry_mac (es ! i))"
  by (induction es arbitrary: i) (auto simp: entries_def split: if_splits)

lemma entries_append: "entries (a @ b) = entries a @ entries b"
  by (simp add: entries_def)

lemma keys_entries: "map fst (entries es) = map entry_ip (filter entry_valid es)"
  by (simp add: entries_def o_def)

lemma map_of_swap:
  assumes "distinct (map fst (a @ b))"
  shows "map_of (b @ a) = map_of (a @ b)"
proof -
  have "dom (map_of a) \<inter> dom (map_of b) = {}"
    using assms by (auto simp: dom_map_of_conv_image_fst)
  then show ?thesis unfolding map_of_append by (rule map_add_comm)
qed

lemma cache_queue_map_of:
  assumes "cache_inv c"
  shows "map_of (cache_queue c) = map_of (entries (table c))"
proof -
  have e: "entries (table c) = entries (take (next_slot c) (table c)) @ entries (drop (next_slot c) (table c))"
    by (simp flip: entries_append)
  have "distinct (map fst (entries (table c)))"
    using assms by (simp add: cache_inv_def keys_entries)
  then show ?thesis unfolding cache_queue_def e by (rule map_of_swap)
qed

definition set_mac :: "u32 \<Rightarrow> bytes \<Rightarrow> arp_entry \<Rightarrow> arp_entry" where
  "set_mac ip m e = (if entry_valid e \<and> entry_ip e = ip then e\<lparr>entry_mac := m\<rparr> else e)"

lemma set_mac_simps [simp]:
  "entry_valid (set_mac ip m e) = entry_valid e" "entry_ip (set_mac ip m e) = entry_ip e"
  "entry_mac (set_mac ip m e) = (if entry_valid e \<and> entry_ip e = ip then m else entry_mac e)"
  by (simp_all add: set_mac_def)

lemma set_mac_map:
  assumes "scan ip es = Some i" "distinct (map entry_ip (filter entry_valid es))"
  shows "es[i := (es ! i)\<lparr>entry_mac := m\<rparr>] = map (set_mac ip m) es"
  using assms
proof (induction es arbitrary: i)
  case (Cons e es)
  show ?case
  proof (cases "entry_valid e \<and> entry_ip e = ip")
    case True
    then have "i = 0" "\<forall>x \<in> set es. set_mac ip m x = x"
      using Cons.prems by (auto simp: set_mac_def image_iff)
    then show ?thesis using True by (simp add: map_idI set_mac_def)
  next
    case False
    then show ?thesis using Cons by (auto simp: set_mac_def split: if_splits)
  qed
qed simp

lemma entries_set_mac:
  "entries (map (set_mac ip m) es) = map (\<lambda>(k, w). (k, if k = ip then m else w)) (entries es)"
  by (induction es) (auto simp: entries_def)

lemma filter_set_mac:
  "map entry_ip (filter entry_valid (map (set_mac ip m) es)) = map entry_ip (filter entry_valid es)"
  by (induction es) auto

lemma distinct_cache_queue: "cache_inv c \<Longrightarrow> distinct (map fst (cache_queue c))"
proof -
  assume inv: "cache_inv c"
  have e: "entries (table c) = entries (take (next_slot c) (table c)) @ entries (drop (next_slot c) (table c))"
    by (simp flip: entries_append)
  have "distinct (map fst (entries (table c)))"
    using inv by (simp add: cache_inv_def keys_entries)
  then show ?thesis by (auto simp: e cache_queue_def)
qed

lemma update_present:
  assumes "cache_inv c" "mac_ok m" "scan ip (table c) = Some i"
  shows "cache_inv (update c ip m) \<and> cache_queue (update c ip m) = queue_update 8 ip m (cache_queue c)"
proof -
  have m: "take 6 m = m" "length m = 6" using assms(2) by (simp_all add: mac_ok_def)
  have d: "distinct (map entry_ip (filter entry_valid (table c)))"
    using assms(1) by (simp add: cache_inv_def)
  have u: "update c ip m = c\<lparr>table := map (set_mac ip m) (table c)\<rparr>"
    using assms(3) set_mac_map [OF assms(3) d] m by (simp add: update_def const_vals)
  have "ip \<in> fst ` set (entries (table c))"
    using assms(3) scan_None [of ip "table c"] by auto
  then have k: "ip \<in> fst ` set (cache_queue c)"
    by (simp add: key_iff_map_of cache_queue_map_of [OF assms(1)])
  have "cache_inv (update c ip m)"
    using assms(1) m
    by (simp add: cache_inv_def u take_map drop_map filter_set_mac list.pred_map o_def del: map_map)
  then show ?thesis
    using k by (simp add: u cache_queue_def queue_update_def drop_map take_map entries_set_mac)
qed

lemma update_absent:
  assumes inv: "cache_inv c" and m: "mac_ok m" and s: "scan ip (table c) = None"
  shows "cache_inv (update c ip m) \<and> cache_queue (update c ip m) = queue_update 8 ip m (cache_queue c)"
proof -
  define t n e where "t = table c" and "n = next_slot c"
    and "e = \<lparr>entry_ip = ip, entry_mac = m, entry_valid = True\<rparr>"
  note defs = t_def [symmetric] n_def [symmetric]
  have l: "length t = 8" and n: "n < 8" and m6: "take 6 m = m" "length m = 6"
    using inv m by (auto simp: cache_inv_def mac_ok_def t_def n_def)
  have split: "t = take n t @ t ! n # drop (Suc n) t"
    using l n by (simp add: id_take_nth_drop)
  have drop_n: "drop n t = t ! n # drop (Suc n) t" using l n by (simp add: Cons_nth_drop_Suc)
  have t': "t[n := e] = take n t @ e # drop (Suc n) t"
    using l n by (simp add: upd_conv_take_nth_drop)
  have u: "update c ip m = c\<lparr>table := t[n := e], next_slot := (n + 1) mod 8\<rparr>"
    using s m6 by (simp add: update_def const_vals defs e_def)
  have e1: "entries (e # es) = (ip, m) # entries es" "entries [e] = [(ip, m)]" for es
    by (simp_all add: entries_def e_def)
  have q': "cache_queue (update c ip m) = entries (drop (Suc n) t) @ entries (take n t) @ [(ip, m)]"
  proof (cases "n = 7")
    case True
    then show ?thesis using l t' e1 by (simp add: cache_queue_def u entries_append entries_def)
  next
    case False
    then have "Suc n < 8" using n by simp
    then show ?thesis using l e1
      by (simp add: cache_queue_def u drop_update_cancel list_update_take_drop_Suc entries_append)
  qed
  have q: "cache_queue c = entries (drop n t) @ entries (take n t)"
    by (simp add: cache_queue_def defs)
  have k: "ip \<notin> fst ` set (cache_queue c)"
    using s by (simp add: scan_None key_iff_map_of cache_queue_map_of [OF inv])
  have tv: "list_all entry_valid (take n t)" using inv by (simp add: cache_inv_def defs)
  then have lt: "length (entries (take n t)) = n"
    using l n by (simp add: entries_def list_all_iff)
  have av: "list_all entry_valid (drop n t) \<or> list_all (\<lambda>e. \<not> entry_valid e) (drop n t)"
    using inv by (simp add: cache_inv_def defs)
  have qq: "cache_queue (update c ip m) = queue_update 8 ip m (cache_queue c)"
    using av
  proof
    assume a: "list_all entry_valid (drop n t)"
    then have "length (cache_queue c) = 8" "tl (cache_queue c) = entries (drop (Suc n) t) @ entries (take n t)"
      using l n lt by (simp_all add: q drop_n entries_def list_all_iff)
    then show ?thesis using k q' by (simp add: queue_update_def)
  next
    assume a: "list_all (\<lambda>e. \<not> entry_valid e) (drop n t)"
    then have "entries (drop n t) = []" "entries (drop (Suc n) t) = []"
      by (simp_all add: drop_n entries_def list_all_iff)
    then show ?thesis using k q' q lt n by (simp add: queue_update_def)
  qed
  have d: "distinct (map fst (entries (take n t @ [e] @ drop (Suc n) t)))"
  proof -
    have "distinct (map fst (cache_queue (update c ip m)))"
      unfolding qq by (rule distinct_queue_update [OF distinct_cache_queue [OF inv]])
    then show ?thesis by (auto simp: q' entries_append e1)
  qed
  have "cache_inv (update c ip m)"
  proof -
    have "list_all entry_valid (take ((n + 1) mod 8) (t[n := e]))"
      using tv l n by (cases "n = 7") (simp_all add: list_update_take_drop_Suc e_def)
    moreover have "list_all entry_valid (drop ((n + 1) mod 8) (t[n := e])) \<or>
       list_all (\<lambda>e. \<not> entry_valid e) (drop ((n + 1) mod 8) (t[n := e]))"
      using tv av l n t' by (cases "n = 7") (auto simp: drop_update_cancel e_def drop_n)
    moreover have "\<forall>x \<in> set (t[n := e]). length (entry_mac x) = 6"
      using inv m6 set_update_subset_insert [of t n e] by (auto simp: cache_inv_def defs e_def)
    ultimately show ?thesis
      using l n d by (simp add: cache_inv_def u t' keys_entries)
  qed
  with qq show ?thesis by simp
qed

lemma update_correct:
  "cache_inv c \<Longrightarrow> mac_ok m \<Longrightarrow>
   cache_inv (update c ip m) \<and> cache_queue (update c ip m) = queue_update 8 ip m (cache_queue c)"
  by (cases "scan ip (table c)") (auto simp: update_absent update_present)

lemma flush_correct: "cache_inv c \<Longrightarrow> cache_inv (flush c) \<and> cache_queue (flush c) = []"
  by (auto simp: cache_inv_def flush_def cache_queue_def entries_def list_all_iff filter_empty_conv
      filter_map o_def)

lemma lookup_correct: "cache_inv c \<Longrightarrow> lookup c ip = map_of (cache_queue c) ip"
proof (cases "scan ip (table c)")
  case None
  assume inv: "cache_inv c"
  have "map_of (entries (table c)) ip = None"
    using None by (simp add: scan_None map_of_eq_None_iff)
  then show ?thesis using None by (simp add: lookup_def cache_queue_map_of [OF inv])
next
  case (Some i)
  assume inv: "cache_inv c"
  have "i < length (table c)" "map_of (entries (table c)) ip = Some (entry_mac (table c ! i))"
    using scan_Some [OF Some] by simp_all
  moreover have "length (entry_mac (table c ! i)) = 6"
    using inv \<open>i < length (table c)\<close> by (simp add: cache_inv_def)
  ultimately show ?thesis
    using Some by (simp add: lookup_def cache_queue_map_of [OF inv] const_vals)
qed

lemma length_cache_queue: "cache_inv c \<Longrightarrow> length (cache_queue c) \<le> 8"
proof -
  assume inv: "cache_inv c"
  have "length (entries es) \<le> length es" for es by (simp add: entries_def)
  then have "length (cache_queue c) \<le> length (drop (next_slot c) (table c)) + length (take (next_slot c) (table c))"
    by (simp only: cache_queue_def length_append add_mono)
  then show ?thesis using inv by (simp add: cache_inv_def)
qed

lemma empty_cache_inv: "cache_inv empty_cache" "cache_queue empty_cache = []"
  by (simp_all add: cache_inv_def empty_cache_def const_vals cache_queue_def entries_def list_all_iff)

interpretation arp_table: fifo_cache 8 cache_inv cache_queue mac_ok lookup update flush
  by unfold_locales
    (simp_all add: distinct_cache_queue length_cache_queue lookup_correct update_correct flush_correct)

end
