(* ===== verification/Net_Globals.thy ===== *)
theory Net_Globals
  imports Net_Types Net_Constants Net_Arp_Cache
begin

text \<open>
  \<^verbatim>\<open>globals.hpp\<close> as a record, extended by the static state of \<^verbatim>\<open>arp_cache.hpp\<close> and by the history of
  the calls into the firmware.  The firmware itself (boot services, runtime services, the
  network interface, the console) is not code of the program: it is a parameter \<open>E\<close> of every
  operation that calls it, a record of functions that answer a call from the whole history of
  calls, newest first, the call itself included.  Any sequence of answers is such a function, so
  nothing is assumed about the firmware but what its calling conventions fix: \<open>Receive\<close> writes at
  most \<open>BufferSize\<close> bytes, \<open>AllocatePages\<close> yields a page of 4096 bytes of unknown content,
  \<open>OpenProtocol\<close> yields an interface exactly when it succeeds.

  Service pointers are modelled by whether they are non-null; a call through a null pointer is
  undefined.  A packet buffer is the empty list while its pointer is null.
\<close>

record efi_time =
  Year :: u16
  Month :: u8
  Day :: u8
  Hour :: u8
  Minute :: u8
  Second :: u8

datatype fw_call =
    GetTime
  | AllocatePages
  | LocateHandleBuffer
  | OpenProtocol
  | DisconnectController
  | Stall u32
  | SnpStop
  | SnpStart
  | SnpInitialize
  | SnpReset
  | ReceiveFilters u32
  | GetStatus
  | Transmit bytes
  | Receive nat
  | OutputString "u16 list"

record firmware =
  fw_time :: "fw_call list \<Rightarrow> efi_time"
  fw_allocate :: "fw_call list \<Rightarrow> efi_status \<times> (nat \<Rightarrow> u8)"
  fw_locate :: "fw_call list \<Rightarrow> efi_status \<times> u64"
  fw_open :: "fw_call list \<Rightarrow> efi_status"
  fw_started :: "fw_call list \<Rightarrow> bool"
  fw_address :: "fw_call list \<Rightarrow> nat \<Rightarrow> u8"
  fw_tx_status :: "fw_call list \<Rightarrow> efi_status \<times> bool"
  fw_transmit :: "fw_call list \<Rightarrow> efi_status"
  fw_receive :: "fw_call list \<Rightarrow> efi_status \<times> bytes"
  fw_con_out :: bool

record globals =
  bs_ptr :: bool
  rt_ptr :: bool
  st_ptr :: bool
  snp_ptr :: bool
  image_handle :: u64
  my_mac :: bytes
  my_ip :: u32
  subnet_mask :: u32
  router_ip :: u32
  dhcp_server_ip :: u32
  dns_server_ip :: u32
  dhcp_lease_time :: u32
  router_mac :: bytes
  rx_pkt :: bytes
  tx_pkt :: bytes
  rng_seed :: u32
  arp_target_ip :: u32
  arp_target_mac :: bytes
  arp_resolved :: bool
  dns_current_id :: u16
  dns_local_port :: u16
  dns_resolved_ip :: u32
  dns_resolved :: bool
  tcp_local_port :: u16
  tcp_remote_port :: u16
  tcp_remote_ip :: u32
  tcp_seq :: u32
  tcp_ack :: u32
  tcp_state :: u32
  tcp_rx_buffer :: "bytes option"
  tcp_rx_max_len :: u64
  tcp_rx_current_len :: u64
  tcp_rx_done :: bool
  udp_local_port :: u16
  udp_rx_buffer :: "bytes option"
  udp_rx_max_len :: u64
  udp_rx_current_len :: u64
  udp_rx_done :: bool
  ping_id :: u16
  ping_seq :: u16
  ping_reply_received :: bool

record state = globals +
  cache :: arp_cache
  trace :: "fw_call list"

text \<open>The static initialisers.\<close>

definition initial_state :: state where
  "initial_state =
     \<lparr>bs_ptr = False, rt_ptr = False, st_ptr = False, snp_ptr = False, image_handle = 0,
      my_mac = replicate 32 0, my_ip = 0, subnet_mask = 0, router_ip = 0, dhcp_server_ip = 0,
      dns_server_ip = 0, dhcp_lease_time = 0, router_mac = replicate 6 0,
      rx_pkt = [], tx_pkt = [], rng_seed = 0x075BCD15,
      arp_target_ip = 0, arp_target_mac = replicate 6 0, arp_resolved = False,
      dns_current_id = 0, dns_local_port = 0, dns_resolved_ip = 0, dns_resolved = False,
      tcp_local_port = 0, tcp_remote_port = 0, tcp_remote_ip = 0, tcp_seq = 0, tcp_ack = 0,
      tcp_state = 0, tcp_rx_buffer = None, tcp_rx_max_len = 0, tcp_rx_current_len = 0,
      tcp_rx_done = False,
      udp_local_port = 0, udp_rx_buffer = None, udp_rx_max_len = 0, udp_rx_current_len = 0,
      udp_rx_done = False, ping_id = 0, ping_seq = 0, ping_reply_received = False,
      cache = empty_cache, trace = []\<rparr>"

subsection \<open>Calls into the firmware\<close>

definition call :: "fw_call \<Rightarrow> state \<Rightarrow> state" where
  "call c s = s\<lparr>trace := c # trace s\<rparr>"

definition stall :: "u32 \<Rightarrow> state \<Rightarrow> state option" where
  "stall us s = (if bs_ptr s then Some (call (Stall us) s) else None)"

definition snp_call :: "fw_call \<Rightarrow> state \<Rightarrow> state option" where
  "snp_call c s = (if snp_ptr s then Some (call c s) else None)"

definition snp_get_status :: "firmware \<Rightarrow> state \<Rightarrow> ((efi_status \<times> bool) \<times> state) option" where
  "snp_get_status E s = do {
     s \<leftarrow> snp_call GetStatus s;
     Some (fw_tx_status E (trace s), s) }"

definition snp_transmit :: "firmware \<Rightarrow> nat \<Rightarrow> state \<Rightarrow> (efi_status \<times> state) option" where
  "snp_transmit E len s = do {
     frame \<leftarrow> load (tx_pkt s) 0 len;
     s \<leftarrow> snp_call (Transmit frame) s;
     Some (fw_transmit E (trace s), s) }"

definition snp_receive :: "firmware \<Rightarrow> nat \<Rightarrow> state \<Rightarrow> (efi_status \<times> state) option" where
  "snp_receive E buf_size s = do {
     s \<leftarrow> snp_call (Receive buf_size) s;
     let (status, data) = fw_receive E (trace s);
     let data = take buf_size data;
     Some (status, s\<lparr>rx_pkt := take (length (rx_pkt s)) (data @ drop (length data) (rx_pkt s))\<rparr>) }"

subsection \<open>What the history shows\<close>

text \<open>The frames handed to the network interface, newest first.\<close>

fun transmitted :: "fw_call list \<Rightarrow> bytes list" where
  "transmitted [] = []"
| "transmitted (Transmit f # tr) = f # transmitted tr"
| "transmitted (_ # tr) = transmitted tr"

lemma transmitted_Cons:
  "transmitted (c # tr) = (case c of Transmit f \<Rightarrow> f # transmitted tr | _ \<Rightarrow> transmitted tr)"
  by (cases c) auto

definition sent :: "state \<Rightarrow> bytes list" where
  "sent s = transmitted (trace s)"

lemma sent_call [simp]:
  "sent (call c s) = (case c of Transmit f \<Rightarrow> f # sent s | _ \<Rightarrow> sent s)"
  by (cases c) (simp_all add: sent_def call_def)

lemma sent_update [simp]: "sent (s\<lparr>tx_pkt := x\<rparr>) = sent s"
  by (simp add: sent_def)

subsection \<open>The invariant of an initialised stack\<close>

text \<open>
  After \<open>init_network\<close> the services and the interface are there, both packet buffers are pages,
  every address field has its declared length and the ARP table is well formed.
\<close>

definition ready :: "state \<Rightarrow> bool" where
  "ready s \<longleftrightarrow> bs_ptr s \<and> snp_ptr s \<and> length (rx_pkt s) = 4096 \<and> length (tx_pkt s) = 4096 \<and>
     length (my_mac s) = 32 \<and> length (router_mac s) = 6 \<and> length (arp_target_mac s) = 6 \<and>
     cache_inv (cache s)"

lemma ready_fields:
  assumes "ready s"
  shows "bs_ptr s" "snp_ptr s" "length (rx_pkt s) = 4096" "length (tx_pkt s) = 4096"
    "length (my_mac s) = 32" "length (router_mac s) = 6" "length (arp_target_mac s) = 6"
    "cache_inv (cache s)"
  using assms by (simp_all add: ready_def)

lemma ready_update [simp]:
  "ready (s\<lparr>rt_ptr := x_rt_ptr\<rparr>) = ready s"
  "ready (s\<lparr>st_ptr := x_st_ptr\<rparr>) = ready s"
  "ready (s\<lparr>image_handle := x_image_handle\<rparr>) = ready s"
  "ready (s\<lparr>my_ip := x_my_ip\<rparr>) = ready s"
  "ready (s\<lparr>subnet_mask := x_subnet_mask\<rparr>) = ready s"
  "ready (s\<lparr>router_ip := x_router_ip\<rparr>) = ready s"
  "ready (s\<lparr>dhcp_server_ip := x_dhcp_server_ip\<rparr>) = ready s"
  "ready (s\<lparr>dns_server_ip := x_dns_server_ip\<rparr>) = ready s"
  "ready (s\<lparr>dhcp_lease_time := x_dhcp_lease_time\<rparr>) = ready s"
  "ready (s\<lparr>rng_seed := x_rng_seed\<rparr>) = ready s"
  "ready (s\<lparr>arp_target_ip := x_arp_target_ip\<rparr>) = ready s"
  "ready (s\<lparr>arp_resolved := x_arp_resolved\<rparr>) = ready s"
  "ready (s\<lparr>dns_current_id := x_dns_current_id\<rparr>) = ready s"
  "ready (s\<lparr>dns_local_port := x_dns_local_port\<rparr>) = ready s"
  "ready (s\<lparr>dns_resolved_ip := x_dns_resolved_ip\<rparr>) = ready s"
  "ready (s\<lparr>dns_resolved := x_dns_resolved\<rparr>) = ready s"
  "ready (s\<lparr>tcp_local_port := x_tcp_local_port\<rparr>) = ready s"
  "ready (s\<lparr>tcp_remote_port := x_tcp_remote_port\<rparr>) = ready s"
  "ready (s\<lparr>tcp_remote_ip := x_tcp_remote_ip\<rparr>) = ready s"
  "ready (s\<lparr>tcp_seq := x_tcp_seq\<rparr>) = ready s"
  "ready (s\<lparr>tcp_ack := x_tcp_ack\<rparr>) = ready s"
  "ready (s\<lparr>tcp_state := x_tcp_state\<rparr>) = ready s"
  "ready (s\<lparr>tcp_rx_buffer := x_tcp_rx_buffer\<rparr>) = ready s"
  "ready (s\<lparr>tcp_rx_max_len := x_tcp_rx_max_len\<rparr>) = ready s"
  "ready (s\<lparr>tcp_rx_current_len := x_tcp_rx_current_len\<rparr>) = ready s"
  "ready (s\<lparr>tcp_rx_done := x_tcp_rx_done\<rparr>) = ready s"
  "ready (s\<lparr>udp_local_port := x_udp_local_port\<rparr>) = ready s"
  "ready (s\<lparr>udp_rx_buffer := x_udp_rx_buffer\<rparr>) = ready s"
  "ready (s\<lparr>udp_rx_max_len := x_udp_rx_max_len\<rparr>) = ready s"
  "ready (s\<lparr>udp_rx_current_len := x_udp_rx_current_len\<rparr>) = ready s"
  "ready (s\<lparr>udp_rx_done := x_udp_rx_done\<rparr>) = ready s"
  "ready (s\<lparr>ping_id := x_ping_id\<rparr>) = ready s"
  "ready (s\<lparr>ping_seq := x_ping_seq\<rparr>) = ready s"
  "ready (s\<lparr>ping_reply_received := x_ping_reply_received\<rparr>) = ready s"
  "ready (s\<lparr>trace := tr\<rparr>) = ready s"
  by (simp_all add: ready_def)

lemma ready_call [simp]: "ready (call c s) = ready s"
  by (simp add: ready_def call_def)

text \<open>
  Every operation of a running stack keeps \<open>ready\<close> when it is defined; the locale is that contract
  for an operation, and gives it for iterations and compositions.
\<close>

locale keeps_ready =
  fixes op :: "state \<Rightarrow> state option"
  assumes op_ready: "ready s \<Longrightarrow> op s = Some s' \<Longrightarrow> ready s'"
begin

lemma then_ready:
  assumes "\<And>s s'. ready s \<Longrightarrow> f s = Some s' \<Longrightarrow> ready s'" "ready s" "(op s \<bind> f) = Some s'"
  shows "ready s'"
proof -
  obtain s1 where "op s = Some s1" "f s1 = Some s'" using assms(3) by (auto simp: bind_Some_iff)
  then show ?thesis using assms(1,2) op_ready by blast
qed

fun repeat :: "nat \<Rightarrow> state \<Rightarrow> state option" where
  "repeat 0 s = Some s"
| "repeat (Suc n) s = (op s \<bind> repeat n)"

lemma repeat_ready: "ready s \<Longrightarrow> repeat n s = Some s' \<Longrightarrow> ready s'"
proof (induction n arbitrary: s)
  case (Suc n)
  then obtain s1 where "op s = Some s1" "repeat n s1 = Some s'"
    by (auto simp: bind_Some_iff)
  then show ?case using Suc.IH Suc.prems(1) op_ready by blast
qed simp

end

interpretation stall_op: keeps_ready "stall us"
  by unfold_locales (auto simp: stall_def split: if_splits)

lemma ready_receive: "ready s \<Longrightarrow> snp_receive E n s = Some (r, s') \<Longrightarrow> ready s'"
  by (auto simp: snp_receive_def snp_call_def call_def ready_def Let_def split: prod.splits if_splits)

lemma stall_ready: "ready s \<Longrightarrow> stall us s = Some (call (Stall us) s)"
  by (simp add: stall_def ready_def)

end
