(* ===== verification/Net_Rng.thy ===== *)
theory Net_Rng
  imports Net_Globals
begin

text \<open>
  \<^verbatim>\<open>rng.hpp\<close>: the generator seeded from the real-time clock.  The seed expression is \<open>int\<close> arithmetic
  on promoted operands; on the target its value modulo \<open>2 ^ 32\<close> is what reaches the seed, which
  keeps the low ten bits of the year.
\<close>

definition rng_init :: "firmware \<Rightarrow> state \<Rightarrow> state" where
  "rng_init E s =
     (if rt_ptr s
      then let s = call GetTime s; t = fw_time E (trace s)
           in s\<lparr>rng_seed := ucast (Second t) OR push_bit 0x06 (ucast (Minute t)) OR
                  push_bit 0x0C (ucast (Hour t)) OR push_bit 0x11 (ucast (Day t)) OR
                  push_bit 0x16 (ucast (Year t))\<rparr>
      else s)"

definition get_u32 :: "state \<Rightarrow> u32 \<times> state" where
  "get_u32 s =
     (let seed = (rng_seed s * 0x41C64E6D + 0x3039) mod 0x7FFFFFFF
      in (seed, s\<lparr>rng_seed := seed\<rparr>))"

definition get_ephemeral_port :: "state \<Rightarrow> u16 \<times> state" where
  "get_ephemeral_port s =
     (let (r, s) = get_u32 s
      in (EPHEMERAL_PORT_BASE + ucast (r mod ucast EPHEMERAL_PORT_RANGE), s))"

lemma get_u32_state: "get_u32 s = (r, s') \<Longrightarrow> s' = s\<lparr>rng_seed := r\<rparr>"
  by (auto simp: get_u32_def Let_def)

lemma get_u32_less: "fst (get_u32 s) < 0x7FFFFFFF"
  by (simp add: get_u32_def Let_def word_less_nat_alt unat_mod)

lemma ephemeral_port_state:
  "get_ephemeral_port s = (p, s') \<Longrightarrow> s' = s\<lparr>rng_seed := fst (get_u32 s)\<rparr>"
  by (auto simp: get_ephemeral_port_def get_u32_def Let_def)

lemma unat_ephemeral_port:
  "unat (fst (get_ephemeral_port s)) = 49152 + unat (fst (get_u32 s)) mod 16384"
proof -
  let ?r = "fst (get_u32 s)"
  have r: "unat (?r mod 0x4000) = unat ?r mod 16384" by (simp add: unat_mod)
  then have "unat (ucast (?r mod 0x4000) :: u16) = unat ?r mod 16384"
    by (simp add: unsigned_ucast_eq take_bit_eq_mod)
  moreover have "49152 + unat ?r mod 16384 < 65536"
    using mod_less_divisor [of 16384 "unat ?r"] by linarith
  ultimately have "unat ((0xC000 :: u16) + ucast (?r mod 0x4000)) = 49152 + unat ?r mod 16384"
    by (simp add: unat_word_ariths)
  then show ?thesis
    by (simp add: get_ephemeral_port_def const_vals Let_def case_prod_unfold)
qed

lemma ephemeral_port_range:
  "0xC000 \<le> fst (get_ephemeral_port s) \<and> fst (get_ephemeral_port s) \<noteq> 0"
proof -
  have "0 < unat (fst (get_ephemeral_port s))" by (simp add: unat_ephemeral_port)
  then have "fst (get_ephemeral_port s) \<noteq> 0" by (metis unat_0 less_irrefl)
  then show ?thesis by (simp add: word_le_nat_alt unat_ephemeral_port)
qed

lemma ready_get_u32 [simp]: "ready (snd (get_u32 s)) = ready s"
  by (simp add: get_u32_def Let_def)

lemma ready_ephemeral_port [simp]: "ready (snd (get_ephemeral_port s)) = ready s"
  by (simp add: get_ephemeral_port_def Let_def case_prod_unfold)

end
