(* ===== verification/Net_Transmit.thy ===== *)
theory Net_Transmit
  imports Net_Rng
begin

text \<open>
  \<open>core::send_raw\<close> of \<^verbatim>\<open>core.hpp\<close>: the one way a frame leaves the program.  The frame is copied into
  the transmit page, handed to the interface, and the completion is polled for a bounded number of
  times.  The relation \<open>sends\<close> is what every builder of the other theories needs to know of it.
\<close>

function tx_poll :: "firmware \<Rightarrow> u32 \<Rightarrow> state \<Rightarrow> state option" where
  "tx_poll E retries s =
     (if retries > 0
      then do {
        ((status, tx_buf), s) \<leftarrow> snp_get_status E s;
        if \<not> EFI_ERROR status \<and> tx_buf then Some s
        else do {
          s \<leftarrow> stall STALL_500US s;
          tx_poll E (retries - 1) s } }
      else Some s)"
  by pat_completeness auto
termination
  by (relation "measure (\<lambda>(E, retries, s). unat retries)")
    (auto intro!: measure_unat simp: word_gt_0)

declare tx_poll.simps [simp del]

definition send_raw :: "firmware \<Rightarrow> bytes \<Rightarrow> nat \<Rightarrow> state \<Rightarrow> (efi_status \<times> state) option" where
  "send_raw E data len s = do {
     tx \<leftarrow> local_mem_cpy (tx_pkt s) 0 data 0 len;
     let s = s\<lparr>tx_pkt := tx\<rparr>;
     (_, s) \<leftarrow> snp_get_status E s;
     (status, s) \<leftarrow> snp_transmit E len s;
     if EFI_ERROR status then Some (status, s)
     else do {
       s \<leftarrow> tx_poll E TIMEOUT_TX_RETRIES s;
       Some (EFI_SUCCESS, s) } }"

subsection \<open>The transmit contract\<close>

definition quiet :: "fw_call \<Rightarrow> bool" where
  "quiet c \<longleftrightarrow> c = GetStatus \<or> c = Stall STALL_500US"

lemma quiet_simps [simp]: "quiet GetStatus" "quiet (Stall STALL_500US)"
  by (simp_all add: quiet_def)

text \<open>
  From \<open>s\<close> to \<open>s'\<close> exactly the frame \<open>f\<close> went out; but for status polling and delays nothing else
  was called, and only the transmit page changed.
\<close>

definition sends :: "state \<Rightarrow> bytes \<Rightarrow> state \<Rightarrow> bool" where
  "sends s f s' \<longleftrightarrow>
     (\<exists>tx pre post. s' = s\<lparr>tx_pkt := tx, trace := post @ Transmit f # pre @ trace s\<rparr> \<and>
        length tx = length (tx_pkt s) \<and> list_all quiet pre \<and> list_all quiet post)"

lemma transmitted_append: "transmitted (a @ b) = transmitted a @ transmitted b"
  by (induction a rule: transmitted.induct) auto

lemma transmitted_quiet: "list_all quiet a \<Longrightarrow> transmitted a = []"
  by (induction a) (auto simp: quiet_def)

lemma sends_sent: "sends s f s' \<Longrightarrow> sent s' = f # sent s"
  by (auto simp: sends_def sent_def transmitted_append transmitted_quiet)

lemma sends_frame:
  assumes "sends s f s'"
  obtains tx tr where "s' = s\<lparr>tx_pkt := tx, trace := tr\<rparr>" "length tx = length (tx_pkt s)"
    "transmitted tr = f # transmitted (trace s)"
  using assms by (auto simp: sends_def transmitted_append transmitted_quiet)

lemma sends_ready: "sends s f s' \<Longrightarrow> ready s \<Longrightarrow> ready s'"
  by (auto simp: sends_def ready_def)

lemma tx_poll_quiet:
  assumes "snp_ptr s" "bs_ptr s"
  shows "\<exists>ev. tx_poll E n s = Some (s\<lparr>trace := ev @ trace s\<rparr>) \<and> list_all quiet ev"
  using assms
proof (induction E n s rule: tx_poll.induct)
  case (1 E n s)
  let ?s = "call GetStatus s"
  have g: "snp_get_status E s = Some (fw_tx_status E (trace ?s), ?s)"
    using "1.prems" by (simp add: snp_get_status_def snp_call_def)
  obtain status tx_buf where r: "fw_tx_status E (trace ?s) = (status, tx_buf)" by fastforce
  consider "n = 0" | "n > 0" "\<not> EFI_ERROR status \<and> tx_buf" | "n > 0" "EFI_ERROR status \<or> \<not> tx_buf"
    by (auto simp: word_gt_0)
  then show ?case
  proof cases
    case 1
    then show ?thesis by (subst tx_poll.simps) (auto intro!: exI [of _ "[]"])
  next
    case 2
    then have "tx_poll E n s = Some ?s"
      by (subst tx_poll.simps) (simp add: g r)
    then show ?thesis by (intro exI [of _ "[GetStatus]"]) (simp add: call_def)
  next
    case 3
    let ?t = "call (Stall STALL_500US) ?s"
    have st: "stall STALL_500US ?s = Some ?t"
      using "1.prems" by (simp add: stall_def call_def)
    have IH: "\<exists>ev. tx_poll E (n - 1) u = Some (u\<lparr>trace := ev @ trace u\<rparr>) \<and> list_all quiet ev"
      if "stall STALL_500US ?s = Some u" "snp_ptr u" "bs_ptr u" for u
      using "1.IH" [OF 3(1) g refl] 3(2) r that by auto
    have "\<exists>ev. tx_poll E (n - 1) ?t = Some (?t\<lparr>trace := ev @ trace ?t\<rparr>) \<and> list_all quiet ev"
      using "1.prems" by (intro IH [OF st]) (simp_all add: call_def)
    then obtain ev where ev: "tx_poll E (n - 1) ?t = Some (?t\<lparr>trace := ev @ trace ?t\<rparr>)" "list_all quiet ev"
      by blast
    have "tx_poll E n s = tx_poll E (n - 1) ?t"
      using 3 by (subst tx_poll.simps) (auto simp: g r st)
    then show ?thesis using ev
      by (intro exI [of _ "ev @ [Stall STALL_500US, GetStatus]"]) (simp add: call_def)
  qed
qed

text \<open>
  Whatever the interface answers, a frame that fits the transmit page is handed to it exactly once;
  the result is the error of \<open>Transmit\<close> or success.
\<close>

lemma send_raw_sends:
  assumes "snp_ptr s" "bs_ptr s" "len \<le> length data" "len \<le> length (tx_pkt s)"
  shows "\<exists>status s'. send_raw E data len s = Some (status, s') \<and> sends s (take len data) s'"
proof -
  define tx where "tx = take len data @ drop len (tx_pkt s)"
  define s1 where "s1 = call GetStatus (s\<lparr>tx_pkt := tx\<rparr>)"
  define s2 where "s2 = call (Transmit (take len data)) s1"
  have cpy: "local_mem_cpy (tx_pkt s) 0 data 0 len = Some tx"
    using assms by (auto simp: mem_simps tx_def)
  have l: "length tx = length (tx_pkt s)" using assms by (simp add: tx_def)
  have g: "snp_get_status E (s\<lparr>tx_pkt := tx\<rparr>) = Some (fw_tx_status E (trace s1), s1)"
    using assms by (simp add: snp_get_status_def snp_call_def s1_def)
  have "load (tx_pkt s1) 0 len = Some (take len data)"
    using assms by (simp add: s1_def call_def load_def tx_def)
  then have tr: "snp_transmit E len s1 = Some (fw_transmit E (trace s2), s2)"
    using assms(1) by (simp add: snp_transmit_def snp_call_def s2_def) (simp add: s1_def call_def)
  obtain ev where ev: "tx_poll E TIMEOUT_TX_RETRIES s2 = Some (s2\<lparr>trace := ev @ trace s2\<rparr>)"
    "list_all quiet ev"
    using tx_poll_quiet [of s2 E TIMEOUT_TX_RETRIES] assms(1,2) by (auto simp: s2_def s1_def call_def)
  have "sends s (take len data) s2"
    unfolding sends_def
    by (intro exI [of _ tx] exI [of _ "[GetStatus]"] exI [of _ "[]"])
      (simp add: s2_def s1_def call_def l)
  moreover have "sends s (take len data) (s2\<lparr>trace := ev @ trace s2\<rparr>)"
    unfolding sends_def
    by (intro exI [of _ tx] exI [of _ "[GetStatus]"] exI [of _ ev])
      (simp add: s2_def s1_def call_def l ev(2))
  ultimately show ?thesis
    using ev(1) by (auto simp: send_raw_def cpy g tr case_prod_unfold)
qed

lemma send_raw_ready:
  "ready s \<Longrightarrow> len \<le> length data \<Longrightarrow> len \<le> 4096 \<Longrightarrow>
   \<exists>status s'. send_raw E data len s = Some (status, s') \<and> sends s (take len data) s'"
  using send_raw_sends [of s len data E] by (simp add: ready_def)

lemma send_raw_overrun: "length (tx_pkt s) < len \<Longrightarrow> send_raw E data len s = None"
  by (simp add: send_raw_def local_mem_cpy_fails)

text \<open>A builder's last step: fill a zeroed frame buffer and transmit a prefix of it.\<close>

definition transmit_frame :: "firmware \<Rightarrow> bytes \<Rightarrow> nat \<Rightarrow> state \<Rightarrow> state option" where
  "transmit_frame E pkt len s = map_option snd (send_raw E pkt len s)"

lemma transmit_frame_ready:
  assumes "ready s" "len \<le> length pkt" "len \<le> 4096"
  obtains s' where "transmit_frame E pkt len s = Some s'" "sends s (take len pkt) s'" "ready s'"
  using send_raw_ready [OF assms, of E] sends_ready [OF _ assms(1)]
  by (auto simp: transmit_frame_def)

lemma transmit_frame_Some:
  assumes "transmit_frame E pkt len s = Some s'" "ready s" "len \<le> length pkt" "len \<le> 4096"
  shows "sends s (take len pkt) s' \<and> ready s'"
  using transmit_frame_ready [OF assms(2-4)] assms(1) by (metis option.inject)

lemma transmit_frame_defined:
  assumes "transmit_frame E pkt len s = Some s'" "ready s"
  shows "len \<le> length pkt \<and> len \<le> 4096 \<and> sends s (take len pkt) s' \<and> ready s'"
proof -
  have "local_mem_cpy (tx_pkt s) 0 pkt 0 len \<noteq> None"
    using assms(1) by (cases "local_mem_cpy (tx_pkt s) 0 pkt 0 len") (auto simp: transmit_frame_def send_raw_def)
  then have "len \<le> length pkt" "len \<le> 4096"
    using assms(2) by (auto simp: mem_simps ready_def split: if_splits)
  then show ?thesis using transmit_frame_Some [OF assms] by blast
qed

interpretation transmit: keeps_ready "transmit_frame E pkt len"
  by unfold_locales (use transmit_frame_defined in blast)

text \<open>Only the prefix that is sent matters.\<close>

definition send_frame :: "firmware \<Rightarrow> bytes \<Rightarrow> state \<Rightarrow> state option" where
  "send_frame E f s = transmit_frame E f (length f) s"

lemma transmit_prefix:
  assumes "n = length f"
  shows "transmit_frame E (f @ r) n s = send_frame E f s"
  unfolding assms by (simp add: transmit_frame_def send_frame_def send_raw_def mem_simps)

lemma send_frame_ready:
  "ready s \<Longrightarrow> length f \<le> 4096 \<Longrightarrow> \<exists>s'. send_frame E f s = Some s' \<and> sends s f s' \<and> ready s'"
  unfolding send_frame_def using transmit_frame_ready [of s "length f" f E] by auto

lemma send_frame_Some:
  "send_frame E f s = Some s' \<Longrightarrow> ready s \<Longrightarrow> length f \<le> 4096 \<Longrightarrow> sends s f s' \<and> ready s'"
  using send_frame_ready [of s f E] by auto

end
