(* ===== verification/Net_Math.thy ===== *)
theory Net_Math
  imports Net_Types
begin

text \<open>
  \<^verbatim>\<open>net_math.hpp\<close>: the Internet checksum over a region and over a region with the IPv4 pseudo-header.
  The pointer arguments are the bytes from the pointer to the end of its buffer.  The accumulator
  is the 32-bit one of the code, so the sum wraps exactly where the code's does; the lemmas show
  that it does not wrap on any region an IPv4 datagram can have, and that the result is the RFC
  1071 checksum: storing it into the (aligned, zero) checksum field makes the whole region verify.
\<close>

fun sum16 :: "bytes \<Rightarrow> u32 \<Rightarrow> u32" where
  "sum16 (a # b # r) acc = sum16 r (acc + ucast (dec16 [a, b]))"
| "sum16 [a] acc = acc + ucast a"
| "sum16 [] acc = acc"

lemma unat_low_high:
  fixes s :: u32
  shows "unat ((s AND 0xFFFF) + drop_bit 16 s) = unat s mod 65536 + unat s div 65536"
proof -
  have l: "unat (s AND 0xFFFF) = unat s mod 65536"
  proof -
    have "(0xFFFF :: u32) = mask 16" by (simp add: mask_eq_exp_minus_1)
    then have "s AND 0xFFFF = take_bit 16 s" by (simp add: take_bit_eq_mask)
    then show ?thesis by (simp add: unsigned_take_bit_eq take_bit_eq_mod unat_mod)
  qed
  have h: "unat (drop_bit 16 s) = unat s div 65536"
    by (simp add: unat_drop_bit_eq drop_bit_eq_div unat_div)
  have "unat s mod 65536 + unat s div 65536 < 2 ^ 32"
    using unat_lt_2_32 [of s] by simp
  then show ?thesis using l h by (simp add: unat_word_ariths)
qed

function fold16 :: "u32 \<Rightarrow> u32" where
  "fold16 acc = (if drop_bit 16 acc > 0 then fold16 ((acc AND 0xFFFF) + drop_bit 16 acc) else acc)"
  by pat_completeness auto
termination
proof (relation "measure unat", simp)
  fix s :: u32
  assume "0 < drop_bit 16 s"
  then have "0 < unat s div 65536"
    by (simp add: word_less_nat_alt unat_drop_bit_eq drop_bit_eq_div unat_div)
  then show "((s AND 0xFFFF) + drop_bit 16 s, s) \<in> measure unat"
    unfolding in_measure unat_low_high
    using div_mult_mod_eq [of "unat s" 65536] by linarith
qed

declare fold16.simps [simp del]

definition checksum :: "bytes \<Rightarrow> nat \<Rightarrow> u16" where
  "checksum data len = ucast (NOT (fold16 (sum16 (take len data) 0)))"

definition pseudo_checksum :: "u32 \<Rightarrow> u32 \<Rightarrow> u8 \<Rightarrow> bytes \<Rightarrow> u16 \<Rightarrow> u16" where
  "pseudo_checksum saddr daddr proto data len =
     (let ph = \<lparr>ph_saddr = saddr, ph_daddr = daddr, ph_zero = 0, ph_protocol = proto,
                ph_tcp_length = htons len\<rparr>;
          acc = sum16 (enc_pseudo ph) 0;
          acc = sum16 (take (unat len) data) acc
      in ucast (NOT (fold16 acc)))"

subsection \<open>The arithmetic meaning\<close>

text \<open>The unbounded sum of the 16-bit words of a region, an odd last byte padded with zero.\<close>

fun word_sum :: "bytes \<Rightarrow> nat" where
  "word_sum (a # b # r) = unat (dec16 [a, b]) + word_sum r"
| "word_sum [a] = unat a"
| "word_sum [] = 0"

text \<open>End-around carry: the representative of \<open>n\<close> modulo 65535 that is zero only for zero.\<close>

definition ones_fold :: "nat \<Rightarrow> nat" where
  "ones_fold n = (if n = 0 then 0 else (n - 1) mod 65535 + 1)"

lemma unat_sum16: "unat (sum16 bs s) = (unat s + word_sum bs) mod 4294967296"
proof (induction bs s rule: sum16.induct)
  case (1 a b r s)
  then show ?case by (simp add: unat_word_ariths mod_add_left_eq add.assoc)
qed (simp_all add: unat_word_ariths unat_lt_2_32)

lemma ones_fold_step:
  assumes "n \<ge> 65536"
  shows "ones_fold (n mod 65536 + n div 65536) = ones_fold n"
proof -
  define h l where "h = n div 65536" and "l = n mod 65536"
  have n: "n = 65536 * h + l" by (simp add: h_def l_def)
  have h: "h \<ge> 1" using assms by (simp add: h_def div_greater_zero_iff Suc_le_eq)
  have "n - 1 = (l + h - 1) + h * 65535" using h n by simp
  then have "(n - 1) mod 65535 = (l + h - 1) mod 65535" by (metis mod_mult_self1)
  then show ?thesis using h assms by (simp add: ones_fold_def flip: h_def l_def)
qed

lemma unat_fold16: "unat (fold16 s) = ones_fold (unat s)"
proof (induction s rule: fold16.induct)
  case (1 s)
  have g: "0 < drop_bit 16 s \<longleftrightarrow> 65536 \<le> unat s"
    by (simp add: word_less_nat_alt unat_drop_bit_eq drop_bit_eq_div div_greater_zero_iff unat_div)
  show ?case
  proof (cases "0 < drop_bit 16 s")
    case True
    then have "unat (fold16 s) = ones_fold (unat ((s AND 0xFFFF) + drop_bit 16 s))"
      using "1.IH" by (subst fold16.simps) simp
    then show ?thesis using True g by (simp only: unat_low_high ones_fold_step)
  next
    case False
    then show ?thesis using g by (subst fold16.simps) (auto simp: ones_fold_def)
  qed
qed

lemma ones_fold_le: "ones_fold n \<le> 65535"
  unfolding ones_fold_def using mod_less_divisor [of 65535 "n - 1"] by (auto simp: Suc_le_eq)

lemma ones_fold_cong: "ones_fold n mod 65535 = n mod 65535"
  by (auto simp: ones_fold_def mod_Suc_eq)

lemma ones_fold_full: "ones_fold n = 65535 \<longleftrightarrow> n > 0 \<and> n mod 65535 = 0"
proof (cases "n = 0")
  case False
  then obtain k where n: "n = Suc k" by (cases n) auto
  show ?thesis
    by (simp add: n ones_fold_def mod_Suc)
qed (simp add: ones_fold_def)

lemma unat_not: "unat (NOT (w :: u32)) = 4294967295 - unat w"
proof -
  have "NOT w = - 1 - w" by (simp add: not_eq_complement)
  moreover have "unat (- 1 - w) = unat (- 1 :: u32) - unat w"
    by (rule unat_sub) simp
  moreover have "unat (- 1 :: u32) = 4294967295"
    by (simp add: unsigned_minus_1_eq_mask mask_eq_exp_minus_1)
  ultimately show ?thesis by simp
qed

lemma unat_not_fold:
  "unat (ucast (NOT (fold16 s)) :: u16) = 65535 - ones_fold (unat s)"
proof -
  have f: "ones_fold (unat s) \<le> 65535" by (rule ones_fold_le)
  have "4294967295 - ones_fold (unat s) = (65535 - ones_fold (unat s)) + 65535 * 65536"
    using f by simp
  then have "(4294967295 - ones_fold (unat s)) mod 65536 = (65535 - ones_fold (unat s)) mod 65536"
    by (simp only: mod_mult_self1)
  then show ?thesis
    by (simp add: unsigned_ucast_eq take_bit_eq_mod unat_not unat_fold16)
qed

lemma word_sum_le: "word_sum bs \<le> 65535 * ((length bs + 1) div 2)"
proof (induction bs rule: word_sum.induct)
  case (1 a b r)
  then show ?case using unat_lt_65536 [of "dec16 [a, b]"] by simp
next
  case (2 a)
  then show ?case using unat_lt_256 [of a] by simp
qed simp

lemma word_sum_bound: "length bs \<le> n \<Longrightarrow> word_sum bs \<le> 65535 * ((n + 1) div 2)"
  by (rule order_trans [OF word_sum_le]) (simp add: div_le_mono)

lemma word_sum_append: "even (length a) \<Longrightarrow> word_sum (a @ b) = word_sum a + word_sum b"
  by (induction a rule: word_sum.induct) auto

lemma word_sum_enc16 [simp]: "word_sum (enc16 c) = unat c"
proof -
  have "word_sum (enc16 c) = unat (dec16 (enc16 c))" by (simp add: enc16_def)
  then show ?thesis by simp
qed

lemma unat_checksum:
  assumes "length data \<le> 131072 \<or> len \<le> 131072"
  shows "unat (checksum data len) = 65535 - ones_fold (word_sum (take len data))"
proof -
  have "word_sum (take len data) \<le> 65535 * ((131072 + 1) div 2)"
    using assms by (intro word_sum_bound) auto
  then show ?thesis by (simp add: checksum_def unat_not_fold unat_sum16)
qed

text \<open>The unbounded sum the transport checksum covers: pseudo-header, then the segment.\<close>

definition pseudo_sum :: "u32 \<Rightarrow> u32 \<Rightarrow> u8 \<Rightarrow> u16 \<Rightarrow> nat" where
  "pseudo_sum saddr daddr proto len =
     word_sum (enc_pseudo \<lparr>ph_saddr = saddr, ph_daddr = daddr, ph_zero = 0, ph_protocol = proto,
                          ph_tcp_length = htons len\<rparr>)"

lemma unat_pseudo_checksum:
  "unat (pseudo_checksum saddr daddr proto data len) =
     65535 - ones_fold (pseudo_sum saddr daddr proto len + word_sum (take (unat len) data))"
proof -
  have p: "pseudo_sum saddr daddr proto len \<le> 65535 * ((12 + 1) div 2)"
    unfolding pseudo_sum_def by (rule word_sum_bound) (simp add: pseudo.length_enc)
  have "word_sum (take (unat len) data) \<le> 65535 * ((65536 + 1) div 2)"
    using unat_lt_65536 [of len] by (intro word_sum_bound) simp
  with p show ?thesis
    by (simp add: pseudo_checksum_def Let_def unat_not_fold unat_sum16 flip: pseudo_sum_def)
qed

subsection \<open>A stored checksum verifies\<close>

lemma fold_complement:
  "ones_fold (s + (65535 - ones_fold s)) = 65535"
  unfolding ones_fold_full
proof
  have le: "ones_fold s \<le> 65535" by (rule ones_fold_le)
  show "0 < s + (65535 - ones_fold s)"
    by (cases "s = 0") (auto simp: ones_fold_def)
  have "(s + (65535 - ones_fold s)) mod 65535 = (ones_fold s mod 65535 + (65535 - ones_fold s)) mod 65535"
    by (metis mod_add_left_eq ones_fold_cong)
  also have "\<dots> = (ones_fold s + (65535 - ones_fold s)) mod 65535"
    by (simp add: mod_add_left_eq)
  finally show "(s + (65535 - ones_fold s)) mod 65535 = 0" using le by simp
qed

lemma fold_full_zero: "ones_fold s = 65535 \<Longrightarrow> ones_fold (s + 65535) = 65535"
  by (auto simp: ones_fold_full)

lemma checksum_stored:
  assumes "even (length a)" "n = length a + 2 + length b" "n \<le> 131072"
    and "c = checksum (a @ enc16 0 @ b @ r) n"
  shows "checksum (a @ enc16 c @ b @ r) n = 0"
proof -
  let ?s = "word_sum a + word_sum b"
  have c: "unat c = 65535 - ones_fold ?s"
    using assms by (simp add: unat_checksum word_sum_append)
  have "unat (checksum (a @ enc16 c @ b @ r) n) = 65535 - ones_fold (word_sum a + unat c + word_sum b)"
    using assms(1-3) by (simp add: unat_checksum word_sum_append add_ac)
  also have "word_sum a + unat c + word_sum b = ?s + (65535 - ones_fold ?s)" by (simp add: c)
  finally have "unat (checksum (a @ enc16 c @ b @ r) n) = 0" by (simp only: fold_complement)
  then show ?thesis by (simp add: unsigned_eq_0_iff)
qed

text \<open>A transport segment also verifies when a zero checksum is replaced by all ones (RFC 768).\<close>

lemma pseudo_checksum_stored:
  assumes "even (length a)" "unat n = length a + 2 + length b"
    and "c = pseudo_checksum sa da p (a @ enc16 0 @ b @ r) n"
    and "c' = c \<or> c = 0 \<and> c' = 0xFFFF"
  shows "pseudo_checksum sa da p (a @ enc16 c' @ b @ r) n = 0"
proof -
  let ?s = "pseudo_sum sa da p n + word_sum a + word_sum b"
  have c: "unat c = 65535 - ones_fold ?s"
    using assms(1-3) by (simp add: unat_pseudo_checksum word_sum_append add_ac)
  have "ones_fold (?s + unat c') = 65535"
  proof (cases "c' = c")
    case True
    then show ?thesis by (simp add: c fold_complement)
  next
    case False
    with assms(4) have "c = 0" "unat c' = 65535" by simp_all
    with c have "ones_fold ?s = 65535" using ones_fold_le [of ?s] by simp
    with \<open>unat c' = 65535\<close> show ?thesis by (simp add: fold_full_zero)
  qed
  then have "unat (pseudo_checksum sa da p (a @ enc16 c' @ b @ r) n) = 0"
    using assms(1,2) by (simp add: unat_pseudo_checksum word_sum_append add_ac)
  then show ?thesis by (simp add: unsigned_eq_0_iff)
qed

end
