(* ===== verification/Net_Frames.thy ===== *)
theory Net_Frames
  imports Net_Transmit Net_Math
begin

text \<open>
  What the packet builders of \<^verbatim>\<open>protocols.hpp\<close> and \<^verbatim>\<open>core.hpp\<close> share: header structures overlaid on
  zeroed stack buffers, and the wire-level predicates their correctness is stated with.  A
  builder's \<open>\<dots>_hdr*\<close> into its zeroed buffer is the record of zero fields, updated by the
  assignments and written back at its offset.
\<close>

definition zero_eth :: eth_hdr where "zero_eth = dec_eth (replicate 14 0)"
definition zero_arp :: arp_hdr where "zero_arp = dec_arp (replicate 28 0)"
definition zero_ip :: ip_hdr where "zero_ip = dec_ip (replicate 20 0)"
definition zero_icmp :: icmp_hdr where "zero_icmp = dec_icmp (replicate 8 0)"
definition zero_udp :: udp_hdr where "zero_udp = dec_udp (replicate 8 0)"
definition zero_tcp :: tcp_hdr where "zero_tcp = dec_tcp (replicate 20 0)"
definition zero_dns :: dns_hdr where "zero_dns = dec_dns (replicate 12 0)"
definition zero_dhcp :: dhcp_hdr where "zero_dhcp = dec_dhcp (replicate 540 0)"

lemma dec_zeros [simp]: "2 \<le> n \<Longrightarrow> dec16 (replicate n 0) = 0" "4 \<le> n \<Longrightarrow> dec32 (replicate n 0) = 0"
  by (simp_all add: dec16_def dec32_def)

lemma zero_hdr_fields [simp]:
  "zero_eth = \<lparr>eth_dst = replicate 6 0, eth_src = replicate 6 0, eth_type = 0\<rparr>"
  "zero_arp = \<lparr>arp_htype = 0, arp_ptype = 0, arp_hlen = 0, arp_plen = 0, arp_oper = 0,
     arp_sha = replicate 6 0, arp_spa = 0, arp_tha = replicate 6 0, arp_tpa = 0\<rparr>"
  "zero_ip = \<lparr>ihl_version = 0, ip_tos = 0, ip_tot_len = 0, ip_id = 0, ip_frag_off = 0, ip_ttl = 0,
     ip_protocol = 0, ip_check = 0, ip_saddr = 0, ip_daddr = 0\<rparr>"
  "zero_icmp = \<lparr>icmp_type = 0, icmp_code = 0, icmp_checksum = 0, icmp_id = 0, icmp_seq = 0\<rparr>"
  "zero_udp = \<lparr>udp_source = 0, udp_dest = 0, udp_len = 0, udp_check = 0\<rparr>"
  "zero_tcp = \<lparr>tcp_source = 0, tcp_dest = 0, tcp_hseq = 0, tcp_ack_seq = 0, res1_doff_flags = 0,
     tcp_window = 0, tcp_check = 0, tcp_urg_ptr = 0\<rparr>"
  "zero_dns = \<lparr>dns_id = 0, dns_flags = 0, dns_qdcount = 0, dns_ancount = 0, dns_nscount = 0,
     dns_arcount = 0\<rparr>"
  "zero_dhcp = \<lparr>dhcp_op = 0, dhcp_htype = 0, dhcp_hlen = 0, dhcp_hops = 0, dhcp_xid = 0,
     dhcp_secs = 0, dhcp_flags = 0, dhcp_ciaddr = 0, dhcp_yiaddr = 0, dhcp_siaddr = 0,
     dhcp_giaddr = 0, dhcp_chaddr = replicate 16 0, dhcp_sname = replicate 64 0,
     dhcp_file = replicate 128 0, dhcp_magic = 0, dhcp_options = replicate 300 0\<rparr>"
  by (simp_all add: zero_eth_def zero_arp_def zero_ip_def zero_icmp_def zero_udp_def zero_tcp_def
      zero_dns_def zero_dhcp_def layout)

subsection \<open>Writing into a buffer\<close>

lemma store_middle: "length a = off \<Longrightarrow> length b = length bs \<Longrightarrow> store (a @ b @ c) off bs = Some (a @ bs @ c)"
  by (simp add: store_def)

text \<open>The next header of a frame goes to the start of the zeroed rest.\<close>

lemma store_next:
  "length a = off \<Longrightarrow> length bs \<le> n \<Longrightarrow>
   store (a @ replicate n 0) off bs = Some (a @ bs @ replicate (n - length bs) 0)"
  by (simp add: store_def drop_replicate)

lemma store_first:
  "length bs \<le> n \<Longrightarrow> store (replicate n 0) 0 bs = Some (bs @ replicate (n - length bs) 0)"
  using store_next [of "[]" 0 bs n] by simp

lemma store_next2:
  "length a + length b = off \<Longrightarrow> length bs \<le> n \<Longrightarrow>
   store (a @ b @ replicate n 0) off bs = Some (a @ b @ bs @ replicate (n - length bs) 0)"
  using store_next [of "a @ b" off bs n] by simp

lemma store_next3:
  "length a + length b + length c = off \<Longrightarrow> length bs \<le> n \<Longrightarrow>
   store (a @ b @ c @ replicate n 0) off bs = Some (a @ b @ c @ bs @ replicate (n - length bs) 0)"
  using store_next [of "a @ b @ c" off bs n] by simp

lemmas hdr_lengths = eth.length_enc arp.length_enc ip.length_enc icmp.length_enc udp.length_enc
  tcp.length_enc dhcp.length_enc dns.length_enc valid_eth_def valid_arp_def valid_dhcp_def

lemmas stores = store_first store_next store_next2 store_next3

lemma mem_cpy_next:
  "length a = off \<Longrightarrow> k \<le> n \<Longrightarrow> k \<le> length d \<Longrightarrow>
   local_mem_cpy (a @ replicate n 0) off d 0 k = Some (a @ take k d @ replicate (n - k) 0)"
  by (auto simp: mem_simps drop_replicate)

subsection \<open>Well-formed frames\<close>

text \<open>The Ethernet and IPv4 headers of \<open>f\<close> describe \<open>f\<close>, and the header checksum verifies.\<close>

definition ipv4_wf :: "bytes \<Rightarrow> bool" where
  "ipv4_wf f \<longleftrightarrow>
     34 \<le> length f \<and> eth_type (dec_eth f) = htons ETHERTYPE_IPV4 \<and>
     (let ip = dec_ip (drop 14 f)
      in ihl_version ip = 0x45 \<and> unat (ntohs (ip_tot_len ip)) = length f - 14) \<and>
     checksum (drop 14 f) 20 = 0"

text \<open>The TCP or UDP checksum of \<open>f\<close> verifies against its pseudo-header.\<close>

definition transport_wf :: "bytes \<Rightarrow> bool" where
  "transport_wf f \<longleftrightarrow>
     (let ip = dec_ip (drop 14 f)
      in pseudo_checksum (ip_saddr ip) (ip_daddr ip) (ip_protocol ip) (drop 34 f)
           (of_nat (length f - 34)) = 0)"

lemma enc_ip_check:
  "enc_ip (h\<lparr>ip_check := c\<rparr>) =
     (enc8 (ihl_version h) @ enc8 (ip_tos h) @ enc16 (ip_tot_len h) @ enc16 (ip_id h) @
      enc16 (ip_frag_off h) @ enc8 (ip_ttl h) @ enc8 (ip_protocol h)) @ enc16 c @
     (enc32 (ip_saddr h) @ enc32 (ip_daddr h))"
  by (simp add: enc_ip_def)

text \<open>Filling in the header checksum over a header whose field is zero makes it verify.\<close>

lemma ip_header_verifies:
  assumes "ip_check h = 0"
  shows "checksum (enc_ip (h\<lparr>ip_check := checksum (enc_ip h) 20\<rparr>) @ r) 20 = 0"
proof -
  define a b where "a = enc8 (ihl_version h) @ enc8 (ip_tos h) @ enc16 (ip_tot_len h) @
      enc16 (ip_id h) @ enc16 (ip_frag_off h) @ enc8 (ip_ttl h) @ enc8 (ip_protocol h)"
    and "b = enc32 (ip_saddr h) @ enc32 (ip_daddr h)"
  have e: "enc_ip (h\<lparr>ip_check := c\<rparr>) @ r = a @ enc16 c @ b @ r" for c
    by (simp add: enc_ip_check a_def b_def)
  have h: "h\<lparr>ip_check := 0\<rparr> = h"
    using assms by (cases h) simp
  have "checksum (enc_ip h) 20 = checksum (enc_ip (h\<lparr>ip_check := 0\<rparr>) @ r) 20"
    unfolding h by (simp add: checksum_def ip.length_enc)
  then show ?thesis
    unfolding e by (intro checksum_stored) (simp_all add: a_def b_def)
qed

text \<open>Every IPv4 builder's frame has this shape.\<close>

definition ipv4_frame :: "eth_hdr \<Rightarrow> ip_hdr \<Rightarrow> bytes \<Rightarrow> bytes" where
  "ipv4_frame e h r = enc_eth e @ enc_ip (h\<lparr>ip_check := checksum (enc_ip h) 20\<rparr>) @ r"

lemma length_ipv4_frame: "valid_eth e \<Longrightarrow> length (ipv4_frame e h r) = 34 + length r"
  by (simp add: ipv4_frame_def eth.length_enc ip.length_enc)

lemma ipv4_frame_parts:
  assumes "valid_eth e"
  shows "dec_eth (ipv4_frame e h r) = e"
    "dec_ip (drop 14 (ipv4_frame e h r)) = h\<lparr>ip_check := checksum (enc_ip h) 20\<rparr>"
    "drop 34 (ipv4_frame e h r) = r"
  using assms by (simp_all add: ipv4_frame_def eth.dec_enc eth.length_enc ip.dec_enc ip.length_enc)

lemma ipv4_frame_wf:
  assumes "valid_eth e" "eth_type e = htons 0x0800" "ip_check h = 0" "ihl_version h = 0x45"
    "unat (ntohs (ip_tot_len h)) = 20 + length r"
  shows "ipv4_wf (ipv4_frame e h r)"
proof -
  have "drop 14 (ipv4_frame e h r) = enc_ip (h\<lparr>ip_check := checksum (enc_ip h) 20\<rparr>) @ r"
    using assms(1) by (simp add: ipv4_frame_def eth.length_enc)
  then have "checksum (drop 14 (ipv4_frame e h r)) 20 = 0"
    using ip_header_verifies [OF assms(3)] by simp
  then show ?thesis
    using assms by (simp add: ipv4_wf_def length_ipv4_frame ipv4_frame_parts const_vals)
qed

text \<open>
  A segment whose checksum field was computed over the segment with the field zero, and replaced by
  all ones where it came out zero, verifies.
\<close>

lemma ipv4_frame_transport:
  assumes e: "valid_eth e" and r: "r = a @ enc16 c' @ b" and a: "even (length a)"
    and l: "length r < 65536" and p: "ip_protocol h = proto"
    and c: "c = pseudo_checksum (ip_saddr h) (ip_daddr h) proto (a @ enc16 0 @ b @ z) (of_nat (length r))"
    and c': "c' = c \<or> c = 0 \<and> c' = 0xFFFF"
  shows "transport_wf (ipv4_frame e h r)"
proof -
  have n: "unat (of_nat (length r) :: u16) = length a + 2 + length b"
    using unat_of_nat_16 [OF l] r by simp
  have "pseudo_checksum (ip_saddr h) (ip_daddr h) proto r (of_nat (length r)) =
      pseudo_checksum (ip_saddr h) (ip_daddr h) proto (a @ enc16 c' @ b @ z) (of_nat (length r))"
    using n by (simp add: pseudo_checksum_def Let_def r)
  also have "\<dots> = 0" by (rule pseudo_checksum_stored [OF a n c c'])
  finally show ?thesis
    using p by (simp add: transport_wf_def Let_def ipv4_frame_parts [OF e] length_ipv4_frame [OF e])
qed

lemma pseudo_checksum_prefix:
  "unat n = length x \<Longrightarrow> pseudo_checksum sa da p (x @ z) n = pseudo_checksum sa da p x n"
  by (simp add: pseudo_checksum_def)

text \<open>Every frame but the broadcasts goes to the router.\<close>

definition router_eth_hdr :: "state \<Rightarrow> eth_hdr" where
  "router_eth_hdr s =
     \<lparr>eth_dst = take 6 (router_mac s), eth_src = take 6 (my_mac s), eth_type = htons 0x0800\<rparr>"

lemma valid_router_eth: "ready s \<Longrightarrow> valid_eth (router_eth_hdr s)"
  by (simp add: valid_eth_def router_eth_hdr_def ready_def)

lemma eth_type_router [simp]: "eth_type (router_eth_hdr s) = htons 0x0800"
  by (simp add: router_eth_hdr_def)

text \<open>
  The IPv4 header of an outgoing unicast with total length \<open>w\<close>: \<open>raw_ip_hdr\<close> before, \<open>full_ip_hdr\<close>
  after its checksum is filled in.
\<close>

definition raw_ip_hdr :: "u8 \<Rightarrow> u32 \<Rightarrow> u32 \<Rightarrow> u16 \<Rightarrow> u16 \<Rightarrow> ip_hdr" where
  "raw_ip_hdr proto sa da i w =
     \<lparr>ihl_version = 0x45, ip_tos = 0, ip_tot_len = htons w, ip_id = htons i, ip_frag_off = 0,
      ip_ttl = 64, ip_protocol = proto, ip_check = 0, ip_saddr = sa, ip_daddr = da\<rparr>"

definition full_ip_hdr :: "u8 \<Rightarrow> u32 \<Rightarrow> u32 \<Rightarrow> u16 \<Rightarrow> u16 \<Rightarrow> ip_hdr" where
  "full_ip_hdr proto sa da i w =
     (raw_ip_hdr proto sa da i w)\<lparr>ip_check := checksum (enc_ip (raw_ip_hdr proto sa da i w)) 20\<rparr>"

definition out_ip_hdr :: "u8 \<Rightarrow> u32 \<Rightarrow> u32 \<Rightarrow> u16 \<Rightarrow> nat \<Rightarrow> ip_hdr" where
  "out_ip_hdr proto sa da ident len = raw_ip_hdr proto sa da ident (of_nat (20 + len))"

lemma raw_ip_hdr_sel [simp]:
  "ihl_version (raw_ip_hdr p sa da i w) = 0x45" "ip_protocol (raw_ip_hdr p sa da i w) = p"
  "ip_check (raw_ip_hdr p sa da i w) = 0" "ip_saddr (raw_ip_hdr p sa da i w) = sa"
  "ip_daddr (raw_ip_hdr p sa da i w) = da" "ip_tot_len (raw_ip_hdr p sa da i w) = htons w"
  by (simp_all add: raw_ip_hdr_def)

lemma full_ip_hdr_sel [simp]:
  "ip_protocol (full_ip_hdr p sa da i w) = p" "ip_saddr (full_ip_hdr p sa da i w) = sa"
  "ip_daddr (full_ip_hdr p sa da i w) = da"
  by (simp_all add: full_ip_hdr_def)

lemma out_ip_hdr_sel [simp]:
  "ihl_version (out_ip_hdr p sa da i n) = 0x45" "ip_protocol (out_ip_hdr p sa da i n) = p"
  "ip_check (out_ip_hdr p sa da i n) = 0" "ip_saddr (out_ip_hdr p sa da i n) = sa"
  "ip_daddr (out_ip_hdr p sa da i n) = da"
  by (simp_all add: out_ip_hdr_def)

lemma out_ip_hdr_len: "20 + n < 65536 \<Longrightarrow> unat (ntohs (ip_tot_len (out_ip_hdr p sa da i n))) = 20 + n"
  using unat_of_nat_16 [of "20 + n"] by (simp only: out_ip_hdr_def raw_ip_hdr_sel ntohs_def htons_htons)

lemma router_frame_wf:
  assumes "ready s" "20 + length r < 65536"
  shows "ipv4_wf (ipv4_frame (router_eth_hdr s) (out_ip_hdr p sa da i (length r)) r)"
  by (rule ipv4_frame_wf [OF valid_router_eth [OF assms(1)]]) (simp_all add: out_ip_hdr_len [OF assms(2)])

text \<open>
  Rules that recognise the headers the unicast builders fill in, and the buffer after writing them:
  \<open>unicast_head\<close> is its first 34 bytes.
\<close>

definition unicast_head :: "state \<Rightarrow> u8 \<Rightarrow> u32 \<Rightarrow> u16 \<Rightarrow> nat \<Rightarrow> bytes" where
  "unicast_head s p da i len =
     enc_eth (router_eth_hdr s) @ enc_ip (full_ip_hdr p (my_ip s) da i (of_nat (20 + len)))"

lemma ipv4_frame_unicast:
  "ipv4_frame (router_eth_hdr s) (out_ip_hdr p (my_ip s) da i n) r = unicast_head s p da i n @ r"
  by (simp only: ipv4_frame_def unicast_head_def full_ip_hdr_def out_ip_hdr_def append_assoc)

lemma length_unicast_head: "ready s \<Longrightarrow> length (unicast_head s p da i n) = 34"
  using valid_router_eth by (simp add: unicast_head_def eth.length_enc ip.length_enc)

lemma hdr_fold:
  "\<lparr>eth_dst = take 6 (router_mac s), eth_src = take 6 (my_mac s), eth_type = htons 0x0800\<rparr> =
     router_eth_hdr s"
  "\<lparr>ihl_version = 0x45, ip_tos = 0, ip_tot_len = htons w, ip_id = htons i, ip_frag_off = 0,
     ip_ttl = 64, ip_protocol = p, ip_check = 0, ip_saddr = sa, ip_daddr = da\<rparr> = raw_ip_hdr p sa da i w"
  "raw_ip_hdr p sa da i w\<lparr>ip_protocol := p'\<rparr> = raw_ip_hdr p' sa da i w"
  "raw_ip_hdr p sa da i w\<lparr>ip_saddr := sa'\<rparr> = raw_ip_hdr p sa' da i w"
  "raw_ip_hdr p sa da i w\<lparr>ip_daddr := da'\<rparr> = raw_ip_hdr p sa da' i w"
  "raw_ip_hdr p sa da i w\<lparr>ip_check := checksum (enc_ip (raw_ip_hdr p sa da i w)) 20\<rparr> =
     full_ip_hdr p sa da i w"
  "\<lparr>ihl_version = 0x45, ip_tos = 0, ip_tot_len = htons w, ip_id = htons i, ip_frag_off = 0,
     ip_ttl = 64, ip_protocol = p, ip_check = checksum (enc_ip (raw_ip_hdr p sa da i w)) 20,
     ip_saddr = sa, ip_daddr = da\<rparr> = full_ip_hdr p sa da i w"
  by (simp_all add: router_eth_hdr_def full_ip_hdr_def) (simp_all add: raw_ip_hdr_def)

lemma store_router_eth:
  assumes "ready s" "14 \<le> n"
  shows "store (replicate n 0 @ zs) 0 (enc_eth (router_eth_hdr s)) =
    Some (enc_eth (router_eth_hdr s) @ replicate (n - 14) 0 @ zs)"
  using assms store_middle [of "[]" 0 "replicate 14 0" "enc_eth (router_eth_hdr s)" "replicate (n - 14) 0 @ zs"]
  by (simp add: eth.length_enc valid_router_eth flip: append_assoc replicate_add)

lemma store_unicast_ip:
  assumes "ready s" "20 \<le> n" "w = of_nat (20 + len)"
  shows "store (enc_eth (router_eth_hdr s) @ replicate n 0 @ zs) 14 (enc_ip (full_ip_hdr p (my_ip s) da i w)) =
    Some (unicast_head s p da i len @ replicate (n - 20) 0 @ zs)"
  using assms store_middle [of "enc_eth (router_eth_hdr s)" 14 "replicate 20 0" "enc_ip (full_ip_hdr p (my_ip s) da i w)"
    "replicate (n - 20) 0 @ zs"]
  by (simp add: eth.length_enc ip.length_enc valid_router_eth unicast_head_def flip: append_assoc replicate_add)

lemmas unicast_stores = store_router_eth store_router_eth [where zs = "[]", simplified]
  store_unicast_ip store_unicast_ip [where zs = "[]", simplified append_Nil2]

end
