(* ===== verification/Net_Handle_Arp.thy ===== *)
theory Net_Handle_Arp
  imports Net_Frames
begin

text \<open>
  \<open>core::handle_arp\<close> of \<^verbatim>\<open>core.hpp\<close>.  The pointer argument is the position \<open>p\<close> of the ARP header in
  \<open>rx_pkt\<close>.  A reply feeds the ARP table, the pending resolution and the router's address; a
  request for our address is answered with one frame, every other frame changes nothing.
\<close>

definition handle_arp :: "firmware \<Rightarrow> nat \<Rightarrow> state \<Rightarrow> state option" where
  "handle_arp E p s = do {
     b \<leftarrow> load (rx_pkt s) p 28;
     let arp = dec_arp b;
     let oper = ntohs (arp_oper arp);
     if oper = ARP_OPER_REPLY then do {
       let s = s\<lparr>cache := update (cache s) (arp_spa arp) (arp_sha arp)\<rparr>;
       let s = (if arp_spa arp = arp_target_ip s
                then s\<lparr>arp_target_mac := take ETH_ALEN (arp_sha arp), arp_resolved := True\<rparr> else s);
       let s = (if arp_spa arp = router_ip s
                then s\<lparr>router_mac := take ETH_ALEN (arp_sha arp)\<rparr> else s);
       Some s }
     else if oper = ARP_OPER_REQUEST then
       (if arp_tpa arp = my_ip s \<and> my_ip s \<noteq> 0x00 then do {
          let pkt = replicate ARP_PKT_SIZE 0;
          let eth = zero_eth\<lparr>eth_dst := take ETH_ALEN (arp_sha arp),
                             eth_src := take ETH_ALEN (my_mac s),
                             eth_type := htons ETHERTYPE_ARP\<rparr>;
          let reply = zero_arp\<lparr>arp_htype := htons ARP_HTYPE_ETHERNET,
                               arp_ptype := htons ARP_PTYPE_IPV4,
                               arp_hlen := ARP_HLEN_ETHERNET,
                               arp_plen := ARP_PLEN_IPV4,
                               arp_oper := htons ARP_OPER_REPLY,
                               arp_sha := take ETH_ALEN (my_mac s),
                               arp_spa := my_ip s,
                               arp_tha := take ETH_ALEN (arp_sha arp),
                               arp_tpa := arp_spa arp\<rparr>;
          pkt \<leftarrow> store pkt 0 (enc_eth eth);
          pkt \<leftarrow> store pkt 14 (enc_arp reply);
          transmit_frame E pkt (14 + 28) s }
        else Some s)
     else Some s }"

definition arp_reply_frame :: "state \<Rightarrow> arp_hdr \<Rightarrow> bytes" where
  "arp_reply_frame s req =
     enc_eth \<lparr>eth_dst = arp_sha req, eth_src = take 6 (my_mac s), eth_type = htons 0x0806\<rparr> @
     enc_arp \<lparr>arp_htype = htons 1, arp_ptype = htons 0x0800, arp_hlen = 6, arp_plen = 4,
       arp_oper = htons 2, arp_sha = take 6 (my_mac s), arp_spa = my_ip s,
       arp_tha = arp_sha req, arp_tpa = arp_spa req\<rparr>"

text \<open>The state after an ARP reply.\<close>

definition arp_learn :: "arp_hdr \<Rightarrow> state \<Rightarrow> state" where
  "arp_learn a s =
     s\<lparr>cache := update (cache s) (arp_spa a) (arp_sha a),
       arp_target_mac := (if arp_spa a = arp_target_ip s then arp_sha a else arp_target_mac s),
       arp_resolved := (arp_resolved s \<or> arp_spa a = arp_target_ip s),
       router_mac := (if arp_spa a = router_ip s then arp_sha a else router_mac s)\<rparr>"

lemma load_arp:
  assumes "ready s" "p + 28 \<le> 4096" "a = dec_arp (take 28 (drop p (rx_pkt s)))"
  shows "load (rx_pkt s) p 28 = Some (take 28 (drop p (rx_pkt s)))" "valid_arp a" "length (arp_sha a) = 6"
  using assms by (simp_all add: load_def ready_def arp.valid_dec valid_arp_def dec_arp_def)

lemma length_arp_reply_frame:
  "ready s \<Longrightarrow> length (arp_sha a) = 6 \<Longrightarrow> length (arp_reply_frame s a) = 42"
  by (simp add: arp_reply_frame_def hdr_lengths ready_def)

lemma handle_arp_reply:
  assumes r: "ready s" and p: "p + 28 \<le> 4096" and a: "a = dec_arp (take 28 (drop p (rx_pkt s)))"
    and o: "ntohs (arp_oper a) = 2"
  shows "handle_arp E p s = Some (arp_learn a s)"
  using load_arp [OF r p a] o
  by (simp add: handle_arp_def arp_learn_def const_vals Let_def flip: a)

lemma handle_arp_request:
  assumes r: "ready s" and p: "p + 28 \<le> 4096" and a: "a = dec_arp (take 28 (drop p (rx_pkt s)))"
    and o: "ntohs (arp_oper a) = 1" and t: "arp_tpa a = my_ip s" "my_ip s \<noteq> 0"
  shows "handle_arp E p s = send_frame E (arp_reply_frame s a) s"
proof -
  note l = load_arp [OF r p a]
  have m: "length (my_mac s) = 32" using r by (simp add: ready_def)
  show ?thesis
    unfolding transmit_prefix [where r = "replicate 18 0", symmetric,
      OF length_arp_reply_frame [OF r l(3), symmetric]]
    using m l o t
    by (simp add: handle_arp_def arp_reply_frame_def stores hdr_lengths const_vals flip: a)
qed

lemma handle_arp_other:
  assumes r: "ready s" and p: "p + 28 \<le> 4096" and a: "a = dec_arp (take 28 (drop p (rx_pkt s)))"
    and o: "ntohs (arp_oper a) \<noteq> 2"
      "ntohs (arp_oper a) \<noteq> 1 \<or> arp_tpa a \<noteq> my_ip s \<or> my_ip s = 0"
  shows "handle_arp E p s = Some s"
  using load_arp [OF r p a] o
  by (auto simp: handle_arp_def const_vals Let_def simp flip: a)

lemma ready_arp_learn: "ready s \<Longrightarrow> length (arp_sha a) = 6 \<Longrightarrow> ready (arp_learn a s)"
  using update_correct [of "cache s" "arp_sha a" "arp_spa a"]
  by (auto simp: ready_def arp_learn_def mac_ok_def)

text \<open>
  Every ARP frame is handled, and handling it keeps the invariant: nothing, the table update, or
  one reply frame.
\<close>

lemma handle_arp_cases:
  assumes r: "ready s" and p: "p + 28 \<le> 4096" and a: "a = dec_arp (take 28 (drop p (rx_pkt s)))"
  obtains (learn) "handle_arp E p s = Some (arp_learn a s)" "ntohs (arp_oper a) = 2"
    | (reply) s' where "handle_arp E p s = Some s'" "sends s (arp_reply_frame s a) s'"
        "ntohs (arp_oper a) = 1" "arp_tpa a = my_ip s" "my_ip s \<noteq> 0"
    | (ignore) "handle_arp E p s = Some s" "ntohs (arp_oper a) \<noteq> 2"
        "ntohs (arp_oper a) \<noteq> 1 \<or> arp_tpa a \<noteq> my_ip s \<or> my_ip s = 0"
proof -
  consider "ntohs (arp_oper a) = 2" | "ntohs (arp_oper a) = 1" "arp_tpa a = my_ip s" "my_ip s \<noteq> 0"
    | "ntohs (arp_oper a) \<noteq> 2" "ntohs (arp_oper a) \<noteq> 1 \<or> arp_tpa a \<noteq> my_ip s \<or> my_ip s = 0"
    by blast
  then show thesis
  proof cases
    case 1 then show thesis using learn handle_arp_reply [OF r p a] by blast
  next
    case 2
    moreover have "length (arp_reply_frame s a) \<le> 4096"
      using length_arp_reply_frame [OF r] load_arp [OF r p a] by simp
    ultimately show thesis
      using reply handle_arp_request [OF r p a] send_frame_ready [OF r] by metis
  next
    case 3 then show thesis using ignore handle_arp_other [OF r p a] by blast
  qed
qed

lemma handle_arp_total:
  assumes r: "ready s" and p: "p + 28 \<le> 4096"
  shows "\<exists>s'. handle_arp E p s = Some s' \<and> ready s'"
proof (rule handle_arp_cases [OF r p refl, of E], goal_cases)
  case 1
  then show ?case using ready_arp_learn [OF r] load_arp [OF r p refl] by blast
next
  case (2 s')
  then show ?case using sends_ready [OF _ r] by blast
next
  case 3
  then show ?case using r by blast
qed

end
