(* ===== verification/Net_Icmp.thy ===== *)
theory Net_Icmp
  imports Net_Frames
begin

text \<open>
  The ICMP part of \<^verbatim>\<open>core.hpp\<close> (declared in \<^verbatim>\<open>icmp.hpp\<close>): echo requests out, echo requests
  answered, echo replies matched.  \<open>p\<close> is the position of the ICMP header in \<open>rx_pkt\<close>, \<open>len\<close> the
  64-bit length \<open>poll\<close> computes.
\<close>

definition send_icmp_echo :: "firmware \<Rightarrow> u32 \<Rightarrow> u16 \<Rightarrow> u16 \<Rightarrow> state \<Rightarrow> state option" where
  "send_icmp_echo E target_ip ident seq s = do {
     let icmp_payload = 0x20;
     let pkt = replicate (14 + 20 + 8 + icmp_payload) 0;
     let eth = zero_eth\<lparr>eth_dst := take ETH_ALEN (router_mac s),
                        eth_src := take ETH_ALEN (my_mac s),
                        eth_type := htons ETHERTYPE_IPV4\<rparr>;
     let (r, s) = get_u32 s;
     let ip = zero_ip\<lparr>ihl_version := IP_VERSION_IHL_DEFAULT,
                      ip_tot_len := htons (of_nat (20 + 8 + icmp_payload)),
                      ip_id := htons (ucast (r AND 0xFFFF)),
                      ip_ttl := IP_DEFAULT_TTL,
                      ip_protocol := IP_PROTO_ICMP,
                      ip_saddr := my_ip s,
                      ip_daddr := target_ip\<rparr>;
     let ip = ip\<lparr>ip_check := checksum (enc_ip ip) 20\<rparr>;
     let icmp = zero_icmp\<lparr>icmp_type := ICMP_TYPE_ECHO_REQUEST,
                          icmp_code := ICMP_CODE_ZERO,
                          icmp_id := htons ident,
                          icmp_seq := htons seq\<rparr>;
     pkt \<leftarrow> store pkt 0 (enc_eth eth);
     pkt \<leftarrow> store pkt 14 (enc_ip ip);
     pkt \<leftarrow> store pkt 34 (enc_icmp icmp);
     pkt \<leftarrow> store pkt 42 (map (\<lambda>i. of_nat i AND 0xFF) [0..<icmp_payload]);
     seg \<leftarrow> load pkt 34 (8 + icmp_payload);
     let icmp = icmp\<lparr>icmp_checksum := checksum seg (8 + icmp_payload)\<rparr>;
     pkt \<leftarrow> store pkt 34 (enc_icmp icmp);
     transmit_frame E pkt (14 + 20 + 8 + icmp_payload) s }"

text \<open>
  The reply is built in a stack array whose first \<open>total\<close> bytes are zeroed; \<open>pkt0\<close> is the array's
  indeterminate content.
\<close>

definition icmp_reply :: "firmware \<Rightarrow> bytes \<Rightarrow> ip_hdr \<Rightarrow> nat \<Rightarrow> u64 \<Rightarrow> state \<Rightarrow> state option" where
  "icmp_reply E pkt0 ip p len s = do {
     let total = 14 + 20 + len;
     if total > of_nat MAX_PKT_SIZE then Some s
     else do {
       pkt \<leftarrow> local_zero_mem pkt0 0 (unat total);
       let eth = zero_eth\<lparr>eth_dst := take ETH_ALEN (router_mac s),
                          eth_src := take ETH_ALEN (my_mac s),
                          eth_type := htons ETHERTYPE_IPV4\<rparr>;
       let (r, s) = get_u32 s;
       let rip = zero_ip\<lparr>ihl_version := IP_VERSION_IHL_DEFAULT,
                         ip_tot_len := htons (ucast (20 + len)),
                         ip_id := htons (ucast (r AND 0xFFFF)),
                         ip_ttl := IP_DEFAULT_TTL,
                         ip_protocol := IP_PROTO_ICMP,
                         ip_saddr := my_ip s,
                         ip_daddr := ip_saddr ip\<rparr>;
       let rip = rip\<lparr>ip_check := checksum (enc_ip rip) 20\<rparr>;
       pkt \<leftarrow> store pkt 0 (enc_eth eth);
       pkt \<leftarrow> store pkt 14 (enc_ip rip);
       pkt \<leftarrow> local_mem_cpy pkt 34 (rx_pkt s) p (unat len);
       pkt \<leftarrow> store pkt 34 [ICMP_TYPE_ECHO_REPLY];
       pkt \<leftarrow> store pkt 36 (enc16 0x00);
       seg \<leftarrow> load pkt 34 (unat len);
       pkt \<leftarrow> store pkt 36 (enc16 (checksum seg (unat len)));
       transmit_frame E pkt (unat total) s } }"

definition handle_icmp :: "firmware \<Rightarrow> ip_hdr \<Rightarrow> nat \<Rightarrow> u64 \<Rightarrow> state \<Rightarrow> state option" where
  "handle_icmp E ip p len s = do {
     b \<leftarrow> load (rx_pkt s) p 8;
     let icmp = dec_icmp b;
     if icmp_type icmp = ICMP_TYPE_ECHO_REQUEST \<and> icmp_code icmp = ICMP_CODE_ZERO
     then icmp_reply E (replicate MAX_PKT_SIZE 0) ip p len s
     else if icmp_type icmp = ICMP_TYPE_ECHO_REPLY then
       (if ntohs (icmp_id icmp) = ping_id s \<and> ntohs (icmp_seq icmp) = ping_seq s
        then Some (s\<lparr>ping_reply_received := True\<rparr>) else Some s)
     else Some s }"

subsection \<open>Echo requests\<close>

definition echo_payload :: bytes where
  "echo_payload = map of_nat [0..<32]"

definition icmp_segment :: "u8 \<Rightarrow> u8 \<Rightarrow> bytes \<Rightarrow> bytes" where
  "icmp_segment ty code rest =
     [ty, code] @ enc16 (checksum ([ty, code] @ enc16 0 @ rest) (4 + length rest)) @ rest"

definition echo_frame :: "state \<Rightarrow> u32 \<Rightarrow> u16 \<Rightarrow> u16 \<Rightarrow> u16 \<Rightarrow> bytes" where
  "echo_frame s target_ip i ident seq =
     ipv4_frame (router_eth_hdr s) (out_ip_hdr 1 (my_ip s) target_ip i 40)
       (icmp_segment 8 0 (enc16 (htons ident) @ enc16 (htons seq) @ echo_payload))"

lemma length_icmp_segment [simp]: "length (icmp_segment ty code rest) = 4 + length rest"
  by (simp add: icmp_segment_def)

lemma length_echo_payload [simp]: "length echo_payload = 32"
  by (simp add: echo_payload_def)

lemma icmp_segment_verifies:
  "4 + length rest \<le> 131072 \<Longrightarrow> checksum (icmp_segment ty code rest) (4 + length rest) = 0"
  using checksum_stored [of "[ty, code]" "4 + length rest" rest _ "[]"]
  by (simp add: icmp_segment_def)

lemma enc_icmp_segment:
  "enc_icmp \<lparr>icmp_type = ty, icmp_code = cd, icmp_checksum = c, icmp_id = i, icmp_seq = q\<rparr> =
     [ty, cd] @ enc16 c @ enc16 i @ enc16 q"
  by (simp add: enc_icmp_def enc8_def)

lemma length_echo_frame: "ready s \<Longrightarrow> length (echo_frame s ip i ident seq) = 74"
  by (simp add: echo_frame_def length_ipv4_frame valid_router_eth)

lemma send_icmp_echo_eq:
  assumes r: "ready s"
  shows "send_icmp_echo E target_ip ident seq s =
    send_frame E (echo_frame s target_ip (ucast (fst (get_u32 s) AND 0xFFFF)) ident seq) (snd (get_u32 s))"
proof -
  obtain r1 where g1: "get_u32 s = (r1, s\<lparr>rng_seed := r1\<rparr>)"
    by (simp add: get_u32_def Let_def)
  define h q where "h = unicast_head s 1 target_ip (ucast (r1 AND 0xFFFF)) 40"
    and "q = enc16 (htons ident) @ enc16 (htons seq)"
  have l: "length h = 34" "length q = 4"
    using length_unicast_head [OF r] by (simp_all add: h_def q_def)
  have pl: "map (\<lambda>i. of_nat i AND 0xFF) [0..<32] = echo_payload"
  proof -
    have "(0xFF :: u8) = -1" by simp
    then show ?thesis by (simp only: echo_payload_def and.right_neutral)
  qed
  have s1: "store (h @ replicate 40 0) 34 ([8, 0] @ enc16 0 @ q) = Some (h @ ([8, 0] @ enc16 0 @ q) @ replicate 32 0)"
    using store_next [of h 34 "[8, 0] @ enc16 0 @ q" 40] by (simp add: l)
  have s2: "store (h @ ([8, 0] @ enc16 0 @ q) @ replicate 32 0) 42 echo_payload =
      Some (h @ ([8, 0] @ enc16 0 @ q) @ echo_payload)"
    using store_next2 [of h "[8, 0] @ enc16 0 @ q" 42 echo_payload 32] by (simp add: l)
  have s3: "load (h @ ([8, 0] @ enc16 0 @ q) @ echo_payload) 34 40 =
      Some (([8, 0] @ enc16 0 @ q) @ echo_payload)"
    by (simp add: load_def l)
  define c where "c = checksum (([8, 0] @ enc16 0 @ q) @ echo_payload) 40"
  have s4: "store (h @ ([8, 0] @ enc16 0 @ q) @ echo_payload) 34 ([8, 0] @ enc16 c @ q) =
      Some (h @ ([8, 0] @ enc16 c @ q) @ echo_payload)"
    by (rule store_middle) (simp_all add: l)
  have f: "h @ ([8, 0] @ enc16 c @ q) @ echo_payload =
      echo_frame s target_ip (ucast (r1 AND 0xFFFF)) ident seq"
    by (simp add: echo_frame_def ipv4_frame_unicast h_def icmp_segment_def c_def q_def)
  have "send_icmp_echo E target_ip ident seq s =
      transmit_frame E (h @ ([8, 0] @ enc16 c @ q) @ echo_payload) 74 (s\<lparr>rng_seed := r1\<rparr>)"
    using s1 s2 s3 s4 pl unfolding send_icmp_echo_def c_def
    by (simp add: const_vals g1 Let_def hdr_fold unicast_stores
        store_unicast_ip [where len = 40 and zs = "[]", simplified append_Nil2] r enc_icmp_segment
        flip: h_def q_def)
  then show ?thesis
    using length_echo_frame [OF r, of target_ip "ucast (r1 AND 0xFFFF)" ident seq]
    unfolding f by (simp add: send_frame_def g1)
qed

lemma echo_frame_wf:
  assumes "ready s"
  shows "ipv4_wf (echo_frame s ip i ident seq) \<and> checksum (drop 34 (echo_frame s ip i ident seq)) 40 = 0"
  using router_frame_wf [OF assms, of "icmp_segment 8 0 (enc16 (htons ident) @ enc16 (htons seq) @ echo_payload)"]
    icmp_segment_verifies [of "enc16 (htons ident) @ enc16 (htons seq) @ echo_payload" 8 0]
  by (simp add: echo_frame_def ipv4_frame_parts valid_router_eth assms)

subsection \<open>Echo replies\<close>

definition icmp_reply_frame :: "state \<Rightarrow> u16 \<Rightarrow> u32 \<Rightarrow> bytes \<Rightarrow> bytes" where
  "icmp_reply_frame s i da req =
     ipv4_frame (router_eth_hdr s) (out_ip_hdr 1 (my_ip s) da i (length req))
       (icmp_segment 0 (req ! 1) (drop 4 req))"

lemma length_icmp_reply_frame:
  "ready s \<Longrightarrow> 4 \<le> length req \<Longrightarrow> length (icmp_reply_frame s i da req) = 34 + length req"
  by (simp add: icmp_reply_frame_def length_ipv4_frame valid_router_eth)

lemma echo_request_split:
  assumes "length req = n" "8 \<le> n"
  obtains x0 x2 x3 where "req = [x0, req ! 1] @ [x2, x3] @ drop 4 req" "4 + length (drop 4 req) = n"
proof -
  have "req = take 4 req @ drop 4 req" by simp
  moreover have "take 4 req = [req ! 0, req ! 1, req ! 2, req ! 3]"
    using assms by (simp add: list_eq_iff_nth_eq nth_Cons' numeral_eq_Suc less_Suc_eq_0_disj) auto
  ultimately show thesis using that [of "req ! 0" "req ! 2" "req ! 3"] assms by simp
qed

lemma icmp_reply_lengths:
  assumes "n \<le> 1466"
  shows "unat (34 + of_nat n :: u64) = 34 + n" "unat (of_nat n :: u64) = n"
    "(ucast (20 + of_nat n :: u64) :: u16) = of_nat (20 + n)" "\<not> 1500 < (34 + of_nat n :: u64)"
proof -
  show l: "unat (34 + of_nat n :: u64) = 34 + n" "unat (of_nat n :: u64) = n"
    unfolding of_nat_add_numeral_64 using assms by (simp_all only: unat_of_nat_64)
  show "(ucast (20 + of_nat n :: u64) :: u16) = of_nat (20 + n)"
    unfolding of_nat_add_numeral_64 by (rule ucast_of_nat_64_16)
  show "\<not> 1500 < (34 + of_nat n :: u64)"
    using assms l by (simp add: word_less_nat_alt)
qed

lemma icmp_reply_eq:
  assumes r: "ready s" and j: "length pkt0 = 1500" and n: "8 \<le> n" "n \<le> 1466" "p + n \<le> 4096"
    and req: "req = take n (drop p (rx_pkt s))"
  shows "icmp_reply E pkt0 ip p (of_nat n) s =
    send_frame E (icmp_reply_frame s (ucast (fst (get_u32 s) AND 0xFFFF)) (ip_saddr ip) req) (snd (get_u32 s))"
proof -
  obtain r1 where g1: "get_u32 s = (r1, s\<lparr>rng_seed := r1\<rparr>)"
    by (simp add: get_u32_def Let_def)
  define h zs where "h = unicast_head s 1 (ip_saddr ip) (ucast (r1 AND 0xFFFF)) n" and "zs = drop (34 + n) pkt0"
  have rx: "length (rx_pkt s) = 4096" using r by (simp add: ready_def)
  have lreq: "length req = n" using n rx by (simp add: req)
  define b rest where "b = req ! 1" and "rest = drop 4 req"
  obtain x0 x2 x3 where split: "req = [x0, b] @ [x2, x3] @ rest" and lr: "4 + length rest = n"
    unfolding b_def rest_def by (rule echo_request_split [OF lreq n(1)])
  have l: "length h = 34" using length_unicast_head [OF r] by (simp add: h_def)
  have z: "local_zero_mem pkt0 0 (34 + n) = Some (replicate (34 + n) 0 @ zs)"
    using n j by (simp add: mem_simps zs_def)
  have s3: "local_mem_cpy (h @ replicate n 0 @ zs) 34 (rx_pkt s) p n = Some (h @ req @ zs)"
    using n rx by (simp add: mem_simps l req)
  have s4: "store (h @ req @ zs) 34 [0] = Some (h @ ([0, b] @ [x2, x3] @ rest) @ zs)"
    using store_middle [of h 34 "[x0]" "[0]" "([b] @ [x2, x3] @ rest) @ zs"] by (simp add: l split)
  have s5: "store (h @ ([0, b] @ x @ rest) @ zs) 36 (enc16 y) = Some (h @ ([0, b] @ enc16 y @ rest) @ zs)"
    if "length x = 2" for x y
    using store_middle [of "h @ [0, b]" 36 x "enc16 y" "rest @ zs"] that by (simp add: l)
  have s7: "load (h @ x @ zs) 34 n = Some x" if "length x = n" for x
    using that by (simp add: load_def l)
  define c where "c = checksum ([0, b] @ enc16 0 @ rest) n"
  have f: "h @ ([0, b] @ enc16 c @ rest) = icmp_reply_frame s (ucast (r1 AND 0xFFFF)) (ip_saddr ip) req"
    by (simp add: icmp_reply_frame_def ipv4_frame_unicast h_def icmp_segment_def c_def lreq lr
        b_def rest_def [symmetric])
  have "icmp_reply E pkt0 ip p (of_nat n) s =
      transmit_frame E ((h @ ([0, b] @ enc16 c @ rest)) @ zs) (34 + n) (s\<lparr>rng_seed := r1\<rparr>)"
    using z s3 s4 s5 [of "[x2, x3]"] s5 [of "enc16 0"] s7 [of "[0, b] @ enc16 0 @ rest"] lr
    unfolding icmp_reply_def c_def
    by (simp add: const_vals g1 Let_def hdr_fold unicast_stores r h_def [symmetric] icmp_reply_lengths [OF n(2)])
  also have "\<dots> = send_frame E (h @ ([0, b] @ enc16 c @ rest)) (s\<lparr>rng_seed := r1\<rparr>)"
    by (rule transmit_prefix) (use lr l in simp)
  finally show ?thesis unfolding f by (simp add: g1)
qed

text \<open>The indeterminate content of the stack array never reaches the wire.\<close>

lemma icmp_reply_junk:
  assumes "ready s" "length j1 = 1500" "length j2 = 1500" "8 \<le> n" "n \<le> 1466" "p + n \<le> 4096"
  shows "icmp_reply E j1 ip p (of_nat n) s = icmp_reply E j2 ip p (of_nat n) s"
  using assms by (simp add: icmp_reply_eq)

lemma icmp_reply_too_long:
  "1466 < n \<Longrightarrow> n \<le> 65535 \<Longrightarrow> icmp_reply E pkt0 ip p (of_nat n) s = Some s"
proof -
  assume n: "1466 < n" "n \<le> 65535"
  then have "unat (34 + of_nat n :: u64) = 34 + n"
    unfolding of_nat_add_numeral_64 by (simp only: unat_of_nat_64)
  with n have "1500 < (34 + of_nat n :: u64)" by (simp add: word_less_nat_alt)
  then show ?thesis by (simp add: icmp_reply_def const_vals Let_def)
qed

text \<open>
  A total length below the header length makes \<open>len\<close> wrap; as the size check is made on a sum that
  wraps back, the copy then runs over both buffers.
\<close>

lemma icmp_reply_underflow:
  assumes "k < h" "h \<le> k + 34" "length (rx_pkt s) = 4096"
  shows "icmp_reply E pkt0 ip p (of_nat k - of_nat h) s = None"
proof -
  let ?len = "of_nat k - of_nat h :: u64"
  have l: "?len = - of_nat (h - k)" using assms(1) by (simp add: of_nat_diff)
  have d: "unat (of_nat (h - k) :: u64) = h - k" using assms by (intro unat_of_nat_64) simp
  have "unat (0 - of_nat (h - k) :: u64) = 18446744073709551616 - (h - k)"
    unfolding unat_sub_if' d using assms(1) by simp
  then have big: "4096 < unat ?len" unfolding l using assms(2) by simp
  have "34 + ?len = of_nat (34 - (h - k))" unfolding l using assms by (simp add: of_nat_diff)
  moreover have "unat (of_nat (34 - (h - k)) :: u64) = 34 - (h - k)" by (intro unat_of_nat_64) simp
  ultimately have "\<not> 1500 < (34 + ?len)" by (simp add: word_less_nat_alt)
  then show ?thesis
    using big assms(3) 
    by (auto simp: icmp_reply_def const_vals Let_def case_prod_unfold get_u32_def bind_eq_None_conv
        local_mem_cpy_fails)
qed

subsection \<open>The handler\<close>

lemma load_hdr:
  "ready s \<Longrightarrow> p + n \<le> 4096 \<Longrightarrow> load (rx_pkt s) p n = Some (take n (drop p (rx_pkt s)))"
  by (simp add: load_def ready_def)

lemma handle_icmp_request:
  assumes r: "ready s" and n: "8 \<le> n" "n \<le> 1466" "p + n \<le> 4096"
    and ty: "rx_pkt s ! p = 8" "rx_pkt s ! (p + 1) = 0"
  shows "handle_icmp E ip p (of_nat n) s =
    send_frame E (icmp_reply_frame s (ucast (fst (get_u32 s) AND 0xFFFF)) (ip_saddr ip)
      (take n (drop p (rx_pkt s)))) (snd (get_u32 s))"
proof -
  have "length (rx_pkt s) = 4096" using r by (simp add: ready_def)
  then have "icmp_type (dec_icmp (take 8 (drop p (rx_pkt s)))) = 8"
    "icmp_code (dec_icmp (take 8 (drop p (rx_pkt s)))) = 0"
    using n ty by (simp_all add: dec_icmp_def)
  then show ?thesis
    using icmp_reply_eq [OF r _ n refl, of "replicate 1500 0" E ip] n load_hdr [OF r, of p 8]
    by (simp add: handle_icmp_def const_vals Let_def)
qed

lemma handle_icmp_reply:
  assumes r: "ready s" and p: "p + 8 \<le> 4096" and h: "h = dec_icmp (take 8 (drop p (rx_pkt s)))"
    and ty: "icmp_type h = 0"
  shows "handle_icmp E ip p len s =
    Some (s\<lparr>ping_reply_received := (ping_reply_received s \<or>
      ntohs (icmp_id h) = ping_id s \<and> ntohs (icmp_seq h) = ping_seq s)\<rparr>)"
  using ty load_hdr [OF r p] by (auto simp: handle_icmp_def const_vals Let_def simp flip: h)

lemma handle_icmp_other:
  assumes r: "ready s" and p: "p + 8 \<le> 4096" and h: "h = dec_icmp (take 8 (drop p (rx_pkt s)))"
    and ty: "icmp_type h \<noteq> 0" "icmp_type h \<noteq> 8 \<or> icmp_code h \<noteq> 0"
  shows "handle_icmp E ip p len s = Some s"
  using ty load_hdr [OF r p] by (auto simp: handle_icmp_def const_vals Let_def simp flip: h)

lemma icmp_reply_ready: "ready s \<Longrightarrow> icmp_reply E pkt0 ip p len s = Some s' \<Longrightarrow> ready s'"
  using transmit.op_ready [of "s\<lparr>rng_seed := fst (get_u32 s)\<rparr>"]
  by (auto simp: icmp_reply_def Let_def get_u32_def bind_Some_iff split: if_splits)

interpretation icmp_handler: keeps_ready "handle_icmp E ip p len"
  by unfold_locales
    (auto simp: handle_icmp_def Let_def bind_Some_iff ready_def split: if_splits
      dest!: icmp_reply_ready [unfolded ready_def, rotated])

lemma icmp_reply_frame_wf:
  assumes "ready s" "8 \<le> length req" "length req \<le> 1466"
  shows "ipv4_wf (icmp_reply_frame s i da req) \<and>
    checksum (drop 34 (icmp_reply_frame s i da req)) (length req) = 0"
  using router_frame_wf [OF assms(1), of "icmp_segment 0 (req ! 1) (drop 4 req)"]
    icmp_segment_verifies [of "drop 4 req" 0 "req ! 1"] assms
  by (simp add: icmp_reply_frame_def ipv4_frame_parts valid_router_eth)

end
