(* ===== verification/Net_Protocols.thy ===== *)
theory Net_Protocols
  imports Net_Frames
begin

text \<open>
  \<^verbatim>\<open>protocols.hpp\<close>: the DHCP, ARP and DNS packet builders.  Each builds one frame in a zeroed stack
  buffer of the declared size and hands it to \<open>core::send_raw\<close>.  The lemmas give the exact frame,
  show that its headers describe it and that its checksums verify; for DNS they relate the
  in-place label encoding to the list of labels of the host name.
\<close>

definition send_dhcp :: "firmware \<Rightarrow> u8 \<Rightarrow> u32 \<Rightarrow> state \<Rightarrow> state option" where
  "send_dhcp E type xid s = do {
     let pkt = replicate DHCP_PKT_SIZE 0;
     let eth = zero_eth\<lparr>eth_dst := take ETH_ALEN ETH_BROADCAST,
                        eth_src := take ETH_ALEN (my_mac s),
                        eth_type := htons ETHERTYPE_IPV4\<rparr>;
     let ip = zero_ip\<lparr>ihl_version := IP_VERSION_IHL_DEFAULT,
                      ip_tot_len := htons (20 + 8 + 540),
                      ip_id := htons 0x01,
                      ip_ttl := IP_DEFAULT_TTL,
                      ip_protocol := IP_PROTO_UDP,
                      ip_daddr := IPV4_BROADCAST\<rparr>;
     let ip = ip\<lparr>ip_check := checksum (enc_ip ip) 20\<rparr>;
     let udp = zero_udp\<lparr>udp_source := htons UDP_PORT_DHCP_CLIENT,
                        udp_dest := htons UDP_PORT_DHCP_SERVER,
                        udp_len := htons (8 + 540),
                        udp_check := 0x00\<rparr>;
     chaddr \<leftarrow> store (dhcp_chaddr zero_dhcp) 0 (take ETH_ALEN (my_mac s));
     let opts =
       [DHCP_OPT_MSG_TYPE, 0x01, type] @
       (if type = DHCP_MSG_DISCOVER
        then [DHCP_OPT_PARAM_LIST, 0x03, DHCP_OPT_SUBNET_MASK, DHCP_OPT_ROUTER, DHCP_OPT_DNS]
        else if type = DHCP_MSG_REQUEST
        then [DHCP_OPT_REQUESTED_IP, 0x04] @ enc32 (my_ip s) @
             [DHCP_OPT_SERVER_ID, 0x04] @ enc32 (dhcp_server_ip s)
        else []) @
       [DHCP_OPT_END];
     options \<leftarrow> store (dhcp_options zero_dhcp) 0 opts;
     let dhcp = zero_dhcp\<lparr>dhcp_op := DHCP_OP_REQUEST,
                          dhcp_htype := DHCP_HTYPE_ETHERNET,
                          dhcp_hlen := DHCP_HLEN_ETHERNET,
                          dhcp_xid := htonl xid,
                          dhcp_flags := htons 0x8000,
                          dhcp_chaddr := chaddr,
                          dhcp_magic := htonl DHCP_MAGIC_COOKIE,
                          dhcp_options := options\<rparr>;
     pkt \<leftarrow> store pkt 0 (enc_eth eth);
     pkt \<leftarrow> store pkt 14 (enc_ip ip);
     pkt \<leftarrow> store pkt 34 (enc_udp udp);
     pkt \<leftarrow> store pkt 42 (enc_dhcp dhcp);
     transmit_frame E pkt (14 + 20 + 8 + 540) s }"

definition arp_request :: "firmware \<Rightarrow> u32 \<Rightarrow> state \<Rightarrow> state option" where
  "arp_request E target_ip s = do {
     let pkt = replicate ARP_PKT_SIZE 0;
     let eth = zero_eth\<lparr>eth_dst := take ETH_ALEN ETH_BROADCAST,
                        eth_src := take ETH_ALEN (my_mac s),
                        eth_type := htons ETHERTYPE_ARP\<rparr>;
     let arp = zero_arp\<lparr>arp_htype := htons ARP_HTYPE_ETHERNET,
                        arp_ptype := htons ARP_PTYPE_IPV4,
                        arp_hlen := ARP_HLEN_ETHERNET,
                        arp_plen := ARP_PLEN_IPV4,
                        arp_oper := htons ARP_OPER_REQUEST,
                        arp_sha := take ETH_ALEN (my_mac s),
                        arp_spa := my_ip s,
                        arp_tpa := target_ip\<rparr>;
     pkt \<leftarrow> store pkt 0 (enc_eth eth);
     pkt \<leftarrow> store pkt 14 (enc_arp arp);
     transmit_frame E pkt (14 + 28) s }"

text \<open>
  The QNAME loop of \<open>dns_query\<close>: \<open>p\<close> is the position in the host name, \<open>qname\<close> the write position
  in the packet, \<open>len_byte\<close> the position of the current label's length byte.
\<close>

function qname_loop ::
  "bytes \<Rightarrow> nat \<Rightarrow> bytes \<Rightarrow> nat \<Rightarrow> nat \<Rightarrow> u8 \<Rightarrow> (bytes \<times> nat \<times> nat \<times> u8) option" where
  "qname_loop hostname p pkt qname len_byte label_len =
     (case rd hostname p of
        None \<Rightarrow> None
      | Some c \<Rightarrow>
          if c \<noteq> 0x00 then
            if c = 0x2E then do {
              pkt \<leftarrow> store pkt len_byte [label_len];
              qname_loop hostname (p + 1) pkt (qname + 1) qname 0x00 }
            else do {
              pkt \<leftarrow> store pkt qname [c];
              qname_loop hostname (p + 1) pkt (qname + 1) len_byte (label_len + 1) }
          else Some (pkt, qname, len_byte, label_len))"
  by pat_completeness auto
termination
  by (relation "measure (\<lambda>(h, p, _). length h - p)") (auto simp: rd_def split: if_splits)

declare qname_loop.simps [simp del]

definition dns_query :: "firmware \<Rightarrow> bytes \<Rightarrow> state \<Rightarrow> state option" where
  "dns_query E hostname s = do {
     let pkt = replicate DNS_PKT_SIZE 0;
     let eth = zero_eth\<lparr>eth_dst := take ETH_ALEN (router_mac s),
                        eth_src := take ETH_ALEN (my_mac s),
                        eth_type := htons ETHERTYPE_IPV4\<rparr>;
     let (r, s) = get_u32 s;
     let ip = zero_ip\<lparr>ihl_version := IP_VERSION_IHL_DEFAULT,
                      ip_id := htons (ucast (r AND 0xFFFF)),
                      ip_ttl := IP_DEFAULT_TTL,
                      ip_protocol := IP_PROTO_UDP,
                      ip_saddr := my_ip s,
                      ip_daddr := if dns_server_ip s \<noteq> 0x00 then dns_server_ip s
                                  else htonl GOOGLE_DNS_NBO\<rparr>;
     let (port, s) = get_ephemeral_port s;
     let s = s\<lparr>dns_local_port := port\<rparr>;
     let udp = zero_udp\<lparr>udp_source := htons (dns_local_port s),
                        udp_dest := htons UDP_PORT_DNS\<rparr>;
     let (r, s) = get_u32 s;
     let s = s\<lparr>dns_current_id := ucast (r AND 0xFFFF)\<rparr>;
     let dns = zero_dns\<lparr>dns_id := htons (dns_current_id s),
                        dns_flags := htons DNS_FLAG_RECURSION,
                        dns_qdcount := htons 0x01\<rparr>;
     pkt \<leftarrow> store pkt 42 (enc_dns dns);
     let qname = 42 + 12;
     (pkt, qname, len_byte, label_len) \<leftarrow> qname_loop hostname 0 pkt (qname + 1) qname 0x00;
     pkt \<leftarrow> store pkt len_byte [label_len];
     pkt \<leftarrow> store pkt qname
       [0x00, 0x00, ucast DNS_TYPE_A, 0x00, ucast DNS_CLASS_IN];
     let qname = qname + 5;
     let dns_len = qname - 42;
     let udp = udp\<lparr>udp_len := htons (of_nat (8 + dns_len))\<rparr>;
     let ip = ip\<lparr>ip_tot_len := htons (of_nat (20 + 8 + dns_len))\<rparr>;
     let ip = ip\<lparr>ip_check := checksum (enc_ip ip) 20\<rparr>;
     pkt \<leftarrow> store pkt 34 (enc_udp udp);
     let check = pseudo_checksum (ip_saddr ip) (ip_daddr ip) IP_PROTO_UDP (drop 34 pkt)
                   (ntohs (udp_len udp));
     let udp = udp\<lparr>udp_check := if check = 0x00 then 0xFFFF else check\<rparr>;
     pkt \<leftarrow> store pkt 0 (enc_eth eth);
     pkt \<leftarrow> store pkt 14 (enc_ip ip);
     pkt \<leftarrow> store pkt 34 (enc_udp udp);
     transmit_frame E pkt (14 + 20 + 8 + dns_len) s }"

subsection \<open>ARP requests\<close>

definition arp_request_frame :: "state \<Rightarrow> u32 \<Rightarrow> bytes" where
  "arp_request_frame s target_ip =
     enc_eth \<lparr>eth_dst = replicate 6 0xFF, eth_src = take 6 (my_mac s), eth_type = htons 0x0806\<rparr> @
     enc_arp \<lparr>arp_htype = htons 1, arp_ptype = htons 0x0800, arp_hlen = 6, arp_plen = 4,
       arp_oper = htons 1, arp_sha = take 6 (my_mac s), arp_spa = my_ip s,
       arp_tha = replicate 6 0, arp_tpa = target_ip\<rparr>"

lemma length_arp_request_frame: "ready s \<Longrightarrow> length (arp_request_frame s ip) = 42"
  by (simp add: arp_request_frame_def hdr_lengths ready_def)

lemma arp_request_eq:
  assumes "ready s"
  shows "arp_request E target_ip s = send_frame E (arp_request_frame s target_ip) s"
proof -
  have m: "length (my_mac s) = 32" using assms by (simp add: ready_def)
  show ?thesis
    unfolding transmit_prefix [where r = "replicate 18 0", symmetric, OF length_arp_request_frame [OF assms, symmetric]]
    using m
    by (simp add: arp_request_def arp_request_frame_def stores hdr_lengths const_vals)
qed

subsection \<open>DHCP messages\<close>

definition dhcp_opts :: "state \<Rightarrow> u8 \<Rightarrow> bytes" where
  "dhcp_opts s type =
     [53, 1, type] @
     (if type = 1 then [55, 3, 1, 3, 6]
      else if type = 3 then [50, 4] @ enc32 (my_ip s) @ [54, 4] @ enc32 (dhcp_server_ip s)
      else []) @ [255]"

definition dhcp_ip_hdr :: ip_hdr where
  "dhcp_ip_hdr = \<lparr>ihl_version = 0x45, ip_tos = 0, ip_tot_len = htons 568, ip_id = htons 1,
     ip_frag_off = 0, ip_ttl = 64, ip_protocol = 17, ip_check = 0, ip_saddr = 0,
     ip_daddr = 0xFFFFFFFF\<rparr>"

definition dhcp_message :: "state \<Rightarrow> u8 \<Rightarrow> u32 \<Rightarrow> dhcp_hdr" where
  "dhcp_message s type xid = \<lparr>dhcp_op = 1, dhcp_htype = 1, dhcp_hlen = 6, dhcp_hops = 0,
     dhcp_xid = htonl xid, dhcp_secs = 0, dhcp_flags = htons 0x8000, dhcp_ciaddr = 0,
     dhcp_yiaddr = 0, dhcp_siaddr = 0, dhcp_giaddr = 0,
     dhcp_chaddr = take 6 (my_mac s) @ replicate 10 0, dhcp_sname = replicate 64 0,
     dhcp_file = replicate 128 0, dhcp_magic = htonl 0x63825363,
     dhcp_options = dhcp_opts s type @ replicate (300 - length (dhcp_opts s type)) 0\<rparr>"

definition dhcp_frame :: "state \<Rightarrow> u8 \<Rightarrow> u32 \<Rightarrow> bytes" where
  "dhcp_frame s type xid =
     ipv4_frame
       \<lparr>eth_dst = replicate 6 0xFF, eth_src = take 6 (my_mac s), eth_type = htons 0x0800\<rparr> dhcp_ip_hdr
       (enc_udp \<lparr>udp_source = htons 68, udp_dest = htons 67, udp_len = htons 548, udp_check = 0\<rparr> @
        enc_dhcp (dhcp_message s type xid))"

lemma length_dhcp_opts: "length (dhcp_opts s type) \<le> 16"
  by (simp add: dhcp_opts_def)

lemma valid_dhcp_message: "ready s \<Longrightarrow> valid_dhcp (dhcp_message s type xid)"
  using length_dhcp_opts [of s type] by (simp add: valid_dhcp_def dhcp_message_def ready_def)

lemma length_dhcp_frame: "ready s \<Longrightarrow> length (dhcp_frame s type xid) = 582"
  using valid_dhcp_message [of s type xid]
  by (simp add: dhcp_frame_def length_ipv4_frame udp.length_enc dhcp.length_enc valid_eth_def ready_def)

lemma send_dhcp_eq:
  assumes "ready s"
  shows "send_dhcp E type xid s = send_frame E (dhcp_frame s type xid) s"
proof -
  have m: "length (my_mac s) = 32" using assms by (simp add: ready_def)
  show ?thesis
    unfolding transmit_prefix [where r = "replicate 18 0", symmetric, OF length_dhcp_frame [OF assms, symmetric]]
    using m
    by (simp add: send_dhcp_def dhcp_frame_def ipv4_frame_def dhcp_message_def dhcp_ip_hdr_def dhcp_opts_def stores
       hdr_lengths const_vals)
qed

lemma dhcp_frame_wf:
  assumes "ready s"
  shows "ipv4_wf (dhcp_frame s type xid)"
proof -
  have "length (enc_dhcp (dhcp_message s type xid)) = 540"
    by (rule dhcp.length_enc [OF valid_dhcp_message [OF assms]])
  then show ?thesis
    unfolding dhcp_frame_def using assms
    by (intro ipv4_frame_wf) (simp_all add: valid_eth_def ready_def dhcp_ip_hdr_def udp.length_enc)
qed

subsection \<open>DNS queries\<close>

text \<open>The labels of a host name, and their wire encoding (length byte modulo 256, then the label).\<close>

fun labels_of :: "bytes \<Rightarrow> bytes list" where
  "labels_of [] = [[]]"
| "labels_of (c # cs) =
     (if c = 0x2E then [] # labels_of cs
      else case labels_of cs of l # ls \<Rightarrow> (c # l) # ls | [] \<Rightarrow> [[c]])"

definition enc_labels :: "bytes list \<Rightarrow> bytes" where
  "enc_labels ls = concat (map (\<lambda>l. of_nat (length l) # l) ls)"

lemma labels_of_not_Nil [simp]: "labels_of cs \<noteq> []"
  by (induction cs) (auto split: list.splits)

lemma length_enc_labels: "length (enc_labels (labels_of cs)) = length cs + 1"
  by (induction cs) (auto simp: enc_labels_def split: list.splits)

lemma store_at: "length a = off \<Longrightarrow> store (a @ x # c) off [y] = Some (a @ y # c)"
  by (simp add: store_def)

lemma enc_labels_Cons: "enc_labels (l # ls) = of_nat (length l) # l @ enc_labels ls"
  by (simp add: enc_labels_def)

text \<open>
  Invariant of the loop: before the current length byte stand the finished labels \<open>a\<close>, after it the
  \<open>l\<close> characters of the current label, and the rest of the buffer is still zero.
\<close>

lemma qname_loop_spec:
  assumes "0 \<in> set (drop p host)" "cstring (drop p host) = cs" "length cs \<le> n"
    "q = length a + 1 + length l" "lb = length a"
  shows "\<exists>pkt q' lb' ll.
    qname_loop host p (a @ 0 # l @ replicate n 0) q lb (of_nat (length l)) = Some (pkt, q', lb', ll) \<and>
    store pkt lb' [ll] =
      Some (a @ enc_labels ((l @ hd (labels_of cs)) # tl (labels_of cs)) @ replicate (n - length cs) 0) \<and>
    q' = q + length cs"
  using assms
proof (induction cs arbitrary: p n a l q lb)
  case Nil
  have p: "p < length host" using Nil.prems(1) by (metis drop_all empty_iff linorder_not_less list.set(1))
  then have "drop p host = host ! p # drop (Suc p) host" by (simp add: Cons_nth_drop_Suc)
  with Nil.prems(2) have "host ! p = 0" by (auto simp: cstring_def split: if_splits)
  then show ?case using p Nil.prems
    by (subst qname_loop.simps) (simp add: store_at enc_labels_def)
next
  case (Cons c cs)
  have p: "p < length host" using Cons.prems(1) by (metis drop_all empty_iff linorder_not_less list.set(1))
  then have d: "drop p host = host ! p # drop (Suc p) host" by (simp add: Cons_nth_drop_Suc)
  with Cons.prems(1,2) have c: "host ! p = c" "c \<noteq> 0" "0 \<in> set (drop (p + 1) host)"
    "cstring (drop (p + 1) host) = cs"
    by (auto simp: cstring_def split: if_splits)
  obtain m where m: "n = Suc m" "length cs \<le> m" using Cons.prems(3) by (cases n) auto
  obtain l1 ls where ls: "labels_of cs = l1 # ls" by (cases "labels_of cs") auto
  show ?case
  proof (cases "c = 0x2E")
    case True
    let ?a = "a @ of_nat (length l) # l"
    have st: "store (a @ 0 # l @ replicate n 0) lb [of_nat (length l)] = Some (?a @ 0 # [] @ replicate m 0)"
      using Cons.prems(5) m by (simp add: store_at)
    have "qname_loop host p (a @ 0 # l @ replicate n 0) q lb (of_nat (length l)) =
        qname_loop host (p + 1) (?a @ 0 # [] @ replicate m 0) (q + 1) q (of_nat (length ([] :: bytes)))"
      using p c True st by (subst qname_loop.simps) simp
    then show ?thesis
      using Cons.IH [OF c(3,4) m(2), of "q + 1" ?a "[]" q] Cons.prems(4) m True ls
      by (simp add: enc_labels_Cons)
  next
    case False
    have st: "store (a @ 0 # l @ replicate n 0) q [c] = Some (a @ 0 # (l @ [c]) @ replicate m 0)"
      using Cons.prems(4) m store_at [of "a @ 0 # l" q 0 "replicate m 0" c] by simp
    have "qname_loop host p (a @ 0 # l @ replicate n 0) q lb (of_nat (length l)) =
        qname_loop host (p + 1) (a @ 0 # (l @ [c]) @ replicate m 0) (q + 1) lb (of_nat (length (l @ [c])))"
      using p c False st by (subst qname_loop.simps) (simp add: add.commute)
    then show ?thesis
      using Cons.IH [OF c(3,4) m(2), of "q + 1" a "l @ [c]" lb] Cons.prems(4,5) m False ls
      by (simp add: enc_labels_Cons)
  qed
qed

text \<open>
  Whatever the name and the buffer, a loop that ends has moved the position by the length of the
  name.  A name of more than 540 characters therefore leaves no room for the five bytes that end the
  question: the array of 600 bytes is overrun.
\<close>

lemma qname_loop_end:
  assumes "qname_loop host p pkt q lb ll = Some (pkt', q', lb', ll')"
  shows "q' = q + length (cstring (drop p host)) \<and> length pkt' = length pkt"
  using assms
proof (induction host p pkt q lb ll rule: qname_loop.induct)
  case (1 host p pkt q lb ll)
  obtain c where c: "rd host p = Some c" using 1(3) by (subst (asm) qname_loop.simps) (auto split: option.splits)
  then have d: "drop p host = c # drop (p + 1) host" by (auto simp: rd_def Cons_nth_drop_Suc split: if_splits)
  note step = 1(3) [unfolded qname_loop.simps [of host p], unfolded c, simplified]
  consider "c = 0" | "c = 0x2E" | "c \<noteq> 0" "c \<noteq> 0x2E" by blast
  then show ?case
  proof cases
    case 1
    then show ?thesis using step d by (simp add: cstring_def)
  next
    case 2
    then obtain pkt1 where s: "store pkt lb [ll] = Some pkt1"
      and l: "qname_loop host (p + 1) pkt1 (q + 1) q 0 = Some (pkt', q', lb', ll')"
      using step by (auto elim: bind_Some_E)
    from 1(1) [OF c _ 2 s l] 2 show ?thesis using length_store [OF s] d by (simp add: cstring_def)
  next
    case 3
    then obtain pkt1 where s: "store pkt q [c] = Some pkt1"
      and l: "qname_loop host (p + 1) pkt1 (q + 1) lb (ll + 1) = Some (pkt', q', lb', ll')"
      using step by (auto elim: bind_Some_E)
    from 1(2) [OF c 3 s l] 3 show ?thesis using length_store [OF s] d by (simp add: cstring_def)
  qed
qed

lemma dns_query_overflow:
  assumes "540 < length (cstring hostname)"
  shows "dns_query E hostname s = None"
proof (rule ccontr)
  assume "dns_query E hostname s \<noteq> None"
  then obtain dns pkt pkt1 q lb ll pkt2 pkt3 where st: "store (replicate 600 0) 42 dns = Some pkt"
    "qname_loop hostname 0 pkt 55 54 0 = Some (pkt1, q, lb, ll)" "store pkt1 lb [ll] = Some pkt2"
    "store pkt2 q [0x00, 0x00, ucast DNS_TYPE_A, 0x00, ucast DNS_CLASS_IN] = Some pkt3"
    unfolding dns_query_def Let_def DNS_PKT_SIZE_def by (auto simp: case_prod_unfold elim!: bind_Some_E)
  from st(2) have "q = 55 + length (cstring hostname)" "length pkt1 = length pkt"
    by (auto dest: qname_loop_end)
  with length_store [OF st(1)] length_store [OF st(3)] store_fits [OF st(4)] assms show False by simp
qed

definition dns_prepare :: "state \<Rightarrow> state" where
  "dns_prepare s =
     (let s = snd (get_u32 s);
          (port, s) = get_ephemeral_port s;
          s = s\<lparr>dns_local_port := port\<rparr>;
          (r, s) = get_u32 s
      in s\<lparr>dns_current_id := ucast (r AND 0xFFFF)\<rparr>)"

definition dns_ip_hdr :: "state \<Rightarrow> u16 \<Rightarrow> nat \<Rightarrow> ip_hdr" where
  "dns_ip_hdr s ident len =
     out_ip_hdr 17 (my_ip s) (if dns_server_ip s \<noteq> 0 then dns_server_ip s else htonl 0x08080808) ident len"

definition dns_udp_hdr :: "state \<Rightarrow> nat \<Rightarrow> u16 \<Rightarrow> udp_hdr" where
  "dns_udp_hdr s len c = \<lparr>udp_source = htons (dns_local_port s), udp_dest = htons 53,
     udp_len = htons (of_nat len), udp_check = c\<rparr>"

text \<open>The DNS message: header, one question with the labels of the name, type A, class IN.\<close>

definition dns_message :: "state \<Rightarrow> bytes \<Rightarrow> bytes" where
  "dns_message s name =
     enc_dns \<lparr>dns_id = htons (dns_current_id s), dns_flags = htons 0x0100, dns_qdcount = htons 1,
              dns_ancount = 0, dns_nscount = 0, dns_arcount = 0\<rparr> @
     enc_labels (labels_of name) @ [0, 0, 1, 0, 1]"

definition udp_check_of :: "ip_hdr \<Rightarrow> bytes \<Rightarrow> u16 \<Rightarrow> u16" where
  "udp_check_of h r len =
     (let c = pseudo_checksum (ip_saddr h) (ip_daddr h) 17 r len in if c = 0 then 0xFFFF else c)"

definition dns_frame :: "state \<Rightarrow> u16 \<Rightarrow> bytes \<Rightarrow> bytes" where
  "dns_frame s ident name =
     (let m = dns_message s name; len = 8 + length m; h = dns_ip_hdr s ident len;
          c = udp_check_of h (enc_udp (dns_udp_hdr s len 0) @ m) (of_nat len)
      in ipv4_frame (router_eth_hdr s) h (enc_udp (dns_udp_hdr s len c) @ m))"

lemma length_dns_message: "length (dns_message s name) = 18 + length name"
  by (simp add: dns_message_def dns.length_enc length_enc_labels)

lemma length_dns_frame: "ready s \<Longrightarrow> length (dns_frame s ident name) = 60 + length name"
  by (simp add: dns_frame_def Let_def length_ipv4_frame valid_router_eth udp.length_enc length_dns_message)

lemma ready_dns_prepare: "ready s \<Longrightarrow> ready (dns_prepare s)"
  by (simp add: dns_prepare_def get_u32_def get_ephemeral_port_def Let_def case_prod_unfold ready_def)

lemma dns_query_eq:
  assumes r: "ready s" and z: "0 \<in> set hostname" and n: "length (cstring hostname) \<le> 540"
  shows "dns_query E hostname s =
    send_frame E (dns_frame (dns_prepare s) (ucast (fst (get_u32 s) AND 0xFFFF)) (cstring hostname))
      (dns_prepare s)"
proof -
  define s' ident name where "s' = dns_prepare s" and "ident = (ucast (fst (get_u32 s) AND 0xFFFF) :: u16)"
    and "name = cstring hostname"
  define dns where "dns = enc_dns \<lparr>dns_id = htons (dns_current_id s'), dns_flags = htons 0x0100,
    dns_qdcount = htons 1, dns_ancount = 0, dns_nscount = 0, dns_arcount = 0\<rparr>"
  define m len where "m = dns_message s' name" and "len = 8 + length m"
  define h where "h = dns_ip_hdr s' ident len"
  define u where "u = (\<lambda>c. enc_udp (dns_udp_hdr s' len c))"
  define zs where "zs = replicate (540 - length name) (0 :: u8)"
  have lm: "length m = 18 + length name" by (simp add: m_def length_dns_message)
  have ld: "length dns = 12" by (simp add: dns_def dns.length_enc)
  have lu: "length (u c) = 8" for c by (simp add: u_def udp.length_enc)
  have m_eq: "m = dns @ enc_labels (labels_of name) @ [0, 0, 1, 0, 1]"
    by (simp add: m_def dns_message_def dns_def)
  have e: "valid_eth (router_eth_hdr s')" unfolding s'_def by (intro valid_router_eth ready_dns_prepare r)
  define x where "x = replicate 42 0 @ dns"
  have lx: "length x = 54" by (simp add: x_def ld)
  obtain pkt lb' ll where loop:
    "qname_loop hostname 0 (x @ 0 # [] @ replicate 545 0) 55 54 0 = Some (pkt, 55 + length name, lb', ll)"
    "store pkt lb' [ll] = Some (x @ enc_labels (labels_of name) @ replicate (545 - length name) 0)"
  proof -
    have "\<exists>pkt q' lb' ll. qname_loop hostname 0 (x @ 0 # [] @ replicate 545 0) 55 54 (of_nat (length ([] :: bytes))) =
        Some (pkt, q', lb', ll) \<and>
        store pkt lb' [ll] = Some (x @ enc_labels (([] @ hd (labels_of name)) # tl (labels_of name)) @
          replicate (545 - length name) 0) \<and> q' = 55 + length name"
      by (rule qname_loop_spec) (use z n lx in \<open>simp_all add: name_def\<close>)
    then show thesis using that by (auto simp: list.collapse [OF labels_of_not_Nil])
  qed
  have "replicate 546 (0 :: u8) = 0 # replicate 545 0"
    by (subst replicate_Suc [symmetric]) simp
  then have s1: "store (replicate 600 0) 42 dns = Some (x @ 0 # [] @ replicate 545 0)"
    by (simp add: store_def ld x_def)
  have s2: "store (x @ enc_labels (labels_of name) @ replicate (545 - length name) 0) (55 + length name)
      [0, 0, 1, 0, 1] = Some (replicate 42 0 @ m @ zs)"
  proof -
    have "length [0, 0, 1, 0, 1 :: u8] \<le> 545 - length name" using n by (simp add: name_def)
    moreover have "length x + length (enc_labels (labels_of name)) = 55 + length name"
      by (simp add: lx length_enc_labels)
    ultimately show ?thesis
      using store_next2 [of x "enc_labels (labels_of name)" "55 + length name" "[0, 0, 1, 0, 1]"]
      by (simp add: m_eq x_def zs_def)
  qed
  have s3: "store (replicate 42 0 @ m @ zs) 34 (u 0) = Some (replicate 34 0 @ u 0 @ m @ zs)"
    using store_middle [of "replicate 34 0" 34 "replicate 8 0" "u 0" "m @ zs"]
    by (simp add: lu flip: append_assoc replicate_add)
  have "len < 65536" using n by (simp add: len_def lm name_def)
  from unat_of_nat_16 [OF this] have "unat (of_nat len :: u16) = length (u 0 @ m)"
    by (simp only: len_def lu length_append)
  then have c: "pseudo_checksum sa da p (drop 34 (replicate 34 0 @ u 0 @ m @ zs)) (of_nat len) =
      pseudo_checksum sa da p (u 0 @ m) (of_nat len)" for sa da p
    using pseudo_checksum_prefix [of "of_nat len" "u 0 @ m" sa da p zs] by simp
  define ck where "ck = udp_check_of h (u 0 @ m) (of_nat len)"
  define ei where "ei = enc_ip (h\<lparr>ip_check := checksum (enc_ip h) 20\<rparr>)"
  have le: "length (enc_eth (router_eth_hdr s')) = 14" "length ei = 20"
    using e by (simp_all add: eth.length_enc ei_def ip.length_enc)
  have s4: "store (replicate 34 0 @ u 0 @ m @ zs) 0 (enc_eth (router_eth_hdr s')) =
      Some (enc_eth (router_eth_hdr s') @ replicate 20 0 @ u 0 @ m @ zs)"
    using store_middle [of "[]" 0 "replicate 14 0" "enc_eth (router_eth_hdr s')" "replicate 20 0 @ u 0 @ m @ zs"]
    by (simp add: le flip: append_assoc replicate_add)
  have s5: "store (enc_eth (router_eth_hdr s') @ replicate 20 0 @ u 0 @ m @ zs) 14 ei =
      Some (enc_eth (router_eth_hdr s') @ ei @ u 0 @ m @ zs)"
    by (rule store_middle) (simp_all add: le)
  have s6: "store (enc_eth (router_eth_hdr s') @ ei @ u 0 @ m @ zs) 34 (u ck) =
      Some (enc_eth (router_eth_hdr s') @ ei @ u ck @ m @ zs)"
    using store_middle [of "enc_eth (router_eth_hdr s') @ ei" 34 "u 0" "u ck" "m @ zs"]
    by (simp add: le lu)
  have f: "enc_eth (router_eth_hdr s') @ ei @ u ck @ m @ zs = dns_frame s' ident name @ zs"
    by (simp add: dns_frame_def Let_def ipv4_frame_def ei_def ck_def u_def h_def len_def m_def)
  have lf: "length (dns_frame s' ident name) = 60 + length name"
    unfolding s'_def by (intro length_dns_frame ready_dns_prepare r)
  have final: "transmit_frame E (enc_eth (router_eth_hdr s') @ ei @ u ck @ m @ zs) (60 + length name) s' =
      send_frame E (dns_frame s' ident name) s'"
    unfolding f by (rule transmit_prefix) (simp add: lf)
  obtain r1 where g1: "get_u32 s = (r1, s\<lparr>rng_seed := r1\<rparr>)"
    by (simp add: get_u32_def Let_def)
  obtain p r2 where g2: "get_ephemeral_port (s\<lparr>rng_seed := r1\<rparr>) = (p, s\<lparr>rng_seed := r2\<rparr>)"
    by (simp add: get_ephemeral_port_def get_u32_def Let_def)
  obtain r3 where g3: "get_u32 (s\<lparr>rng_seed := r2, dns_local_port := p\<rparr>) =
      (r3, s\<lparr>rng_seed := r3, dns_local_port := p\<rparr>)"
    by (simp add: get_u32_def Let_def)
  have s': "s' = s\<lparr>rng_seed := r3, dns_local_port := p, dns_current_id := ucast (r3 AND 0xFFFF)\<rparr>"
    by (simp add: s'_def dns_prepare_def g1 g2 g3)
  have d: "dns = enc_dns \<lparr>dns_id = htons (ucast (r3 AND 0xFFFF)), dns_flags = htons 0x0100,
    dns_qdcount = htons 1, dns_ancount = 0, dns_nscount = 0, dns_arcount = 0\<rparr>"
    by (simp add: dns_def s')
  have l16: "of_nat len = (26 + of_nat (length name) :: u16)"
    "of_nat (20 + len) = (46 + of_nat (length name) :: u16)"
    by (simp_all add: len_def lm)
  have fu: "enc_udp \<lparr>udp_source = htons p, udp_dest = htons 53,
      udp_len = htons (26 + of_nat (length name)), udp_check = y\<rparr> = u y" for y
    by (simp only: u_def dns_udp_hdr_def l16) (simp add: s')
  have fe: "enc_eth \<lparr>eth_dst = take 6 (router_mac s), eth_src = take 6 (my_mac s), eth_type = htons 0x0800\<rparr> =
      enc_eth (router_eth_hdr s')"
    by (simp add: router_eth_hdr_def s')
  have hx: "h = \<lparr>ihl_version = 0x45, ip_tos = 0, ip_tot_len = htons (46 + of_nat (length name)),
     ip_id = htons (ucast (r1 AND 0xFFFF)), ip_frag_off = 0, ip_ttl = 64, ip_protocol = 17, ip_check = 0,
     ip_saddr = my_ip s,
     ip_daddr = if dns_server_ip s \<noteq> 0 then dns_server_ip s else htonl 0x08080808\<rparr>"
    by (simp only: h_def dns_ip_hdr_def out_ip_hdr_def raw_ip_hdr_def l16 ident_def) (simp add: s' g1)
  have "dns_query E hostname s = transmit_frame E (enc_eth (router_eth_hdr s') @ ei @ u ck @ m @ zs) (60 + length name) s'"
    using s1 loop s2 s3 c s4 s5 s6
    unfolding dns_query_def g1 g2 g3 ei_def ck_def udp_check_of_def hx l16
    by (cases "dns_server_ip s = 0")
      (simp_all add: const_vals g1 g2 g3 fu fe flip: d, simp_all add: Let_def s')
  then show ?thesis using final g1 by (simp add: s'_def ident_def name_def)
qed

lemma enc_udp_split:
  "enc_udp (dns_udp_hdr s len c) @ m =
     (enc16 (htons (dns_local_port s)) @ enc16 (htons 53) @ enc16 (htons (of_nat len))) @ enc16 c @ m"
  by (simp add: enc_udp_def dns_udp_hdr_def)

lemma dns_frame_wf:
  assumes r: "ready s" and n: "length name \<le> 540"
  shows "ipv4_wf (dns_frame s ident name) \<and> transport_wf (dns_frame s ident name)"
proof -
  define m len where "m = dns_message s name" and "len = 8 + length m"
  define h where "h = dns_ip_hdr s ident len"
  define c where "c = udp_check_of h (enc_udp (dns_udp_hdr s len 0) @ m) (of_nat len)"
  have f: "dns_frame s ident name = ipv4_frame (router_eth_hdr s) h (enc_udp (dns_udp_hdr s len c) @ m)"
    by (simp add: dns_frame_def Let_def m_def len_def h_def c_def)
  have l: "length (enc_udp (dns_udp_hdr s len c) @ m) = len" "20 + len < 65536"
    using n by (simp_all add: udp.length_enc len_def m_def length_dns_message)
  have "ipv4_wf (dns_frame s ident name)"
    unfolding f
  proof (rule ipv4_frame_wf [OF valid_router_eth [OF r]])
    show "unat (ntohs (ip_tot_len h)) = 20 + length (enc_udp (dns_udp_hdr s len c) @ m)"
      unfolding l(1) using out_ip_hdr_len [OF l(2)] by (simp add: h_def dns_ip_hdr_def)
  qed (simp_all add: router_eth_hdr_def h_def dns_ip_hdr_def)
  moreover have "transport_wf (dns_frame s ident name)"
    unfolding f
  proof (rule ipv4_frame_transport [OF valid_router_eth [OF r] enc_udp_split])
    show "ip_protocol h = 17" by (simp add: h_def dns_ip_hdr_def)
    show "pseudo_checksum (ip_saddr h) (ip_daddr h) 17 (enc_udp (dns_udp_hdr s len 0) @ m) (of_nat len) =
        pseudo_checksum (ip_saddr h) (ip_daddr h) 17
          ((enc16 (htons (dns_local_port s)) @ enc16 (htons 53) @ enc16 (htons (of_nat len))) @
           enc16 0 @ m @ []) (of_nat (length (enc_udp (dns_udp_hdr s len c) @ m)))"
      by (simp only: l(1)) (simp add: enc_udp_split)
  qed (use l in \<open>auto simp: c_def udp_check_of_def Let_def\<close>)
  ultimately show ?thesis by blast
qed

text \<open>What a query carries.\<close>

lemma dns_prepare_fields:
  "dns_server_ip (dns_prepare s) = dns_server_ip s" "my_ip (dns_prepare s) = my_ip s" "sent (dns_prepare s) = sent s"
  "0xC000 \<le> dns_local_port (dns_prepare s)"
  using ephemeral_port_range [of "snd (get_u32 s)"]
  by (auto simp: dns_prepare_def Let_def case_prod_unfold get_u32_def get_ephemeral_port_def sent_def)

lemma dns_frame_fields:
  fixes ident :: u16 and name :: bytes
  assumes "ready s"
  defines "f \<equiv> dns_frame s ident name"
  shows "ip_daddr (dec_ip (drop 14 f)) = (if dns_server_ip s \<noteq> 0 then dns_server_ip s else htonl 0x08080808)"
    "udp_source (dec_udp (drop 34 f)) = htons (dns_local_port s)" "udp_dest (dec_udp (drop 34 f)) = htons 53"
    "drop 42 f = dns_message s name"
proof -
  have e: "valid_eth (router_eth_hdr s)" by (rule valid_router_eth [OF assms(1)])
  obtain c where f: "f = ipv4_frame (router_eth_hdr s) (dns_ip_hdr s ident (8 + length (dns_message s name)))
      (enc_udp (dns_udp_hdr s (8 + length (dns_message s name)) c) @ dns_message s name)"
    by (auto simp: f_def dns_frame_def Let_def)
  note p = ipv4_frame_parts [OF e, of "dns_ip_hdr s ident (8 + length (dns_message s name))"
      "enc_udp (dns_udp_hdr s (8 + length (dns_message s name)) c) @ dns_message s name", folded f]
  show "ip_daddr (dec_ip (drop 14 f)) = (if dns_server_ip s \<noteq> 0 then dns_server_ip s else htonl 0x08080808)"
    by (simp add: p dns_ip_hdr_def)
  show "udp_source (dec_udp (drop 34 f)) = htons (dns_local_port s)" "udp_dest (dec_udp (drop 34 f)) = htons 53"
    by (simp_all add: p udp.dec_enc dns_udp_hdr_def)
  have "drop 42 f = drop 8 (drop 34 f)" by simp
  then show "drop 42 f = dns_message s name" by (simp add: p udp.length_enc)
qed

end
