(* ===== verification/Net_Udp.thy ===== *)
theory Net_Udp
  imports Net_Protocols
begin

text \<open>
  The UDP part of \<^verbatim>\<open>core.hpp\<close>: \<open>send_udp\<close>, and \<open>handle_udp\<close> with its two receivers, the user
  datagram and the DNS response.  \<open>p\<close> is the position of the UDP header in \<open>rx_pkt\<close>; the parser's
  pointer is a position that may run past the page, where reading is undefined.
\<close>

definition send_udp ::
  "firmware \<Rightarrow> u32 \<Rightarrow> u16 \<Rightarrow> u16 \<Rightarrow> bytes option \<Rightarrow> u64 \<Rightarrow> state \<Rightarrow> state option" where
  "send_udp E dest_ip dest_port src_port data data_len s = do {
     let pkt = replicate MAX_PKT_SIZE 0;
     let eth = zero_eth\<lparr>eth_dst := take ETH_ALEN (router_mac s),
                        eth_src := take ETH_ALEN (my_mac s),
                        eth_type := htons ETHERTYPE_IPV4\<rparr>;
     let (r, s) = get_u32 s;
     let ip = zero_ip\<lparr>ihl_version := IP_VERSION_IHL_DEFAULT,
                      ip_tot_len := htons (ucast (20 + 8 + data_len)),
                      ip_id := htons (ucast (r AND 0xFFFF)),
                      ip_ttl := IP_DEFAULT_TTL,
                      ip_protocol := IP_PROTO_UDP,
                      ip_saddr := my_ip s,
                      ip_daddr := dest_ip\<rparr>;
     let ip = ip\<lparr>ip_check := checksum (enc_ip ip) 20\<rparr>;
     let udp = zero_udp\<lparr>udp_source := htons src_port,
                        udp_dest := htons dest_port,
                        udp_len := htons (ucast (8 + data_len))\<rparr>;
     pkt \<leftarrow> store pkt 0 (enc_eth eth);
     pkt \<leftarrow> store pkt 14 (enc_ip ip);
     pkt \<leftarrow> store pkt 34 (enc_udp udp);
     pkt \<leftarrow> (case data of
              Some d \<Rightarrow> if data_len > 0 then local_mem_cpy pkt 42 d 0 (unat data_len) else Some pkt
            | None \<Rightarrow> Some pkt);
     seg \<leftarrow> load pkt 34 (unat (ntohs (udp_len udp)));
     let check = pseudo_checksum (ip_saddr ip) (ip_daddr ip) IP_PROTO_UDP seg (ntohs (udp_len udp));
     let udp = udp\<lparr>udp_check := if check = 0x00 then 0xFFFF else check\<rparr>;
     pkt \<leftarrow> store pkt 34 (enc_udp udp);
     transmit_frame E pkt (unat (14 + 20 + 8 + data_len)) s }"

subsection \<open>The DNS response parser\<close>

function skip_labels :: "bytes \<Rightarrow> nat \<Rightarrow> nat option" where
  "skip_labels rx p =
     (case rd rx p of
        None \<Rightarrow> None
      | Some c \<Rightarrow> if c \<noteq> 0x00 then skip_labels rx (p + (unat c + 1)) else Some p)"
  by pat_completeness auto
termination
  by (relation "measure (\<lambda>(rx, p). length rx - p)") (auto simp: rd_def split: if_splits)

declare skip_labels.simps [simp del]

fun skip_questions :: "bytes \<Rightarrow> nat \<Rightarrow> nat \<Rightarrow> nat option" where
  "skip_questions rx 0 p = Some p"
| "skip_questions rx (Suc n) p = do {
     p \<leftarrow> skip_labels rx p;
     skip_questions rx n (p + 0x05) }"

definition be16_at :: "bytes \<Rightarrow> nat \<Rightarrow> u16 option" where
  "be16_at rx p = do {
     a \<leftarrow> rd rx p;
     b \<leftarrow> rd rx (p + 1);
     Some (push_bit 8 (ucast a) OR ucast b) }"

fun parse_answers :: "bytes \<Rightarrow> nat \<Rightarrow> nat \<Rightarrow> bytes option option" where
  "parse_answers rx 0 p = Some None"
| "parse_answers rx (Suc n) p = do {
     c \<leftarrow> rd rx p;
     p \<leftarrow> (if c AND DNS_PTR_MASK = DNS_PTR_MASK then Some (p + 0x02)
          else do { p \<leftarrow> skip_labels rx p; Some (p + 1) });
     rtype \<leftarrow> be16_at rx p;
     let p = p + 0x08;
     rdlen \<leftarrow> be16_at rx p;
     let p = p + 0x02;
     if rtype = DNS_TYPE_A \<and> rdlen = DNS_RDLEN_IPV4
     then map_option Some (load rx p 0x04)
     else parse_answers rx n (p + unat rdlen) }"

definition handle_dns_response :: "nat \<Rightarrow> state \<Rightarrow> state option" where
  "handle_dns_response dns_p s = do {
     b \<leftarrow> load (rx_pkt s) dns_p 12;
     let dns = dec_dns b;
     if dns_id dns \<noteq> htons (dns_current_id s) then Some s
     else if ntohs (dns_flags dns) AND DNS_FLAG_RESPONSE = 0x00 then Some s
     else if ntohs (dns_ancount dns) = 0x00 then Some s
     else do {
       p \<leftarrow> skip_questions (rx_pkt s) (unat (ntohs (dns_qdcount dns))) (dns_p + 12);
       r \<leftarrow> parse_answers (rx_pkt s) (unat (ntohs (dns_ancount dns))) p;
       Some (case r of
               Some a \<Rightarrow> s\<lparr>dns_resolved_ip := dec32 a, dns_resolved := True\<rparr>
             | None \<Rightarrow> s) } }"

subsection \<open>The handler\<close>

definition handle_user_datagram :: "nat \<Rightarrow> udp_hdr \<Rightarrow> state \<Rightarrow> state option" where
  "handle_user_datagram p udp s =
     (let payload_len = ucast (ntohs (udp_len udp)) - 8 :: u64
      in case udp_rx_buffer s of
           Some buf \<Rightarrow>
             if payload_len > 0 then do {
               let copy_len = (if payload_len > udp_rx_max_len s then udp_rx_max_len s else payload_len);
               buf \<leftarrow> local_mem_cpy buf 0 (rx_pkt s) (p + 8) (unat copy_len);
               Some (s\<lparr>udp_rx_buffer := Some buf, udp_rx_current_len := copy_len, udp_rx_done := True\<rparr>) }
             else Some s
         | None \<Rightarrow> Some s)"

definition handle_udp :: "ip_hdr \<Rightarrow> nat \<Rightarrow> u64 \<Rightarrow> state \<Rightarrow> state option" where
  "handle_udp ip p data_len s = do {
     b \<leftarrow> load (rx_pkt s) p 8;
     let udp = dec_udp b;
     let dst_port = ntohs (udp_dest udp);
     let src_port = ntohs (udp_source udp);
     s \<leftarrow> (if dst_port = udp_local_port s \<and> udp_local_port s \<noteq> 0x00
          then handle_user_datagram p udp s else Some s);
     if dst_port = dns_local_port s \<and> dns_local_port s \<noteq> 0x00 \<and> src_port = UDP_PORT_DNS
     then handle_dns_response (p + 8) s
     else Some s }"

subsection \<open>Datagrams out\<close>

definition udp_hdr_of :: "u16 \<Rightarrow> u16 \<Rightarrow> u16 \<Rightarrow> u16 \<Rightarrow> udp_hdr" where
  "udp_hdr_of src dst len c =
     \<lparr>udp_source = htons src, udp_dest = htons dst, udp_len = htons len, udp_check = c\<rparr>"

lemma udp_hdr_fold:
  "\<lparr>udp_source = htons src, udp_dest = htons dst, udp_len = htons n, udp_check = c\<rparr> = udp_hdr_of src dst n c"
  "udp_hdr_of src dst n c\<lparr>udp_check := c'\<rparr> = udp_hdr_of src dst n c'"
  "udp_len (udp_hdr_of src dst n c) = htons n"
  by (simp_all add: udp_hdr_of_def)

definition udp_segment :: "u32 \<Rightarrow> u32 \<Rightarrow> u16 \<Rightarrow> u16 \<Rightarrow> bytes \<Rightarrow> bytes" where
  "udp_segment sa da src dst d =
     (let n = of_nat (8 + length d);
          c = pseudo_checksum sa da 17 (enc_udp (udp_hdr_of src dst n 0) @ d) n
      in enc_udp (udp_hdr_of src dst n (if c = 0 then 0xFFFF else c)) @ d)"

definition udp_frame :: "state \<Rightarrow> u16 \<Rightarrow> u32 \<Rightarrow> u16 \<Rightarrow> u16 \<Rightarrow> bytes \<Rightarrow> bytes" where
  "udp_frame s i da src dst d =
     ipv4_frame (router_eth_hdr s) (out_ip_hdr 17 (my_ip s) da i (8 + length d))
       (udp_segment (my_ip s) da src dst d)"

lemma length_udp_segment [simp]: "length (udp_segment sa da src dst d) = 8 + length d"
  by (simp add: udp_segment_def Let_def udp.length_enc)

lemma length_udp_frame: "ready s \<Longrightarrow> length (udp_frame s i da src dst d) = 42 + length d"
  by (simp add: udp_frame_def length_ipv4_frame valid_router_eth)

lemma send_udp_eq:
  assumes r: "ready s" and n: "length d \<le> 1458" "length d \<le> length buf" "d = take (length d) buf"
  shows "send_udp E da dst src (Some buf) (of_nat (length d)) s =
    send_frame E (udp_frame s (ucast (fst (get_u32 s) AND 0xFFFF)) da src dst d) (snd (get_u32 s))"
proof -
  obtain r1 where g1: "get_u32 s = (r1, s\<lparr>rng_seed := r1\<rparr>)"
    by (simp add: get_u32_def Let_def)
  define m where "m = length d"
  define h u zs where "h = unicast_head s 17 da (ucast (r1 AND 0xFFFF)) (8 + m)"
    and "u = (\<lambda>c. enc_udp (udp_hdr_of src dst (of_nat (8 + m)) c))" and "zs = replicate (1458 - m) (0 :: u8)"
  have l: "length h = 34" "length (u c) = 8" for c
    using length_unicast_head [OF r] by (simp_all add: h_def u_def udp.length_enc)
  have w: "(ucast (28 + of_nat m :: u64) :: u16) = of_nat (20 + (8 + m))"
    "(ucast (8 + of_nat m :: u64) :: u16) = of_nat (8 + m)"
    unfolding of_nat_add_numeral_64 by (simp_all only: ucast_of_nat_64_16) simp
  have v: "unat (42 + of_nat m :: u64) = 42 + m" "unat (of_nat m :: u64) = m"
    "unat (of_nat (8 + m) :: u16) = 8 + m"
    unfolding of_nat_add_numeral_64 using n(1)
    by (simp_all only: unat_of_nat_64 unat_of_nat_16 m_def)
  have s1: "store (h @ replicate 1466 0) 34 (u 0) = Some (h @ u 0 @ replicate 1458 0)"
    using store_next [of h 34 "u 0" 1466] by (simp add: l)
  have s2: "local_mem_cpy (h @ u 0 @ replicate 1458 0) 42 buf 0 m = Some (h @ u 0 @ d @ zs)" 
    using mem_cpy_next [of "h @ u 0" 42 m 1458 buf] n by (simp add: l m_def zs_def)
  have s3: "load (h @ u 0 @ d @ zs) 34 (8 + m) = Some (u 0 @ d)"
    by (simp add: load_def l m_def)
  have s4: "store (h @ u 0 @ d @ zs) 34 (u c) = Some (h @ u c @ d @ zs)" for c
    by (rule store_middle) (simp_all add: l)
  define c where "c = pseudo_checksum (my_ip s) da 17 (u 0 @ d) (of_nat (8 + m))"
  define c' where "c' = (if c = 0 then 0xFFFF else c)"
  have f: "h @ u c' @ d = udp_frame s (ucast (r1 AND 0xFFFF)) da src dst d"
    by (simp only: udp_frame_def ipv4_frame_unicast h_def udp_segment_def c'_def c_def u_def m_def Let_def)
  have "send_udp E da dst src (Some buf) (of_nat m) s =
      transmit_frame E (h @ u c' @ d @ zs) (42 + m) (s\<lparr>rng_seed := r1\<rparr>)"
    using s1 s2 s3 s4 w v unfolding send_udp_def c'_def c_def u_def
    by (simp add: const_vals g1 Let_def hdr_fold udp_hdr_fold ntohs_def htons_htons copy_if_pos unicast_stores
        store_unicast_ip [where len = "8 + m" and zs = "[]", simplified] r split del: if_split flip: h_def)
      (simp add: hdr_fold udp_hdr_fold htons_htons cong: if_cong split del: if_split)
  moreover have "transmit_frame E (h @ u c' @ d @ zs) (42 + m) (s\<lparr>rng_seed := r1\<rparr>) =
      send_frame E (h @ u c' @ d) (s\<lparr>rng_seed := r1\<rparr>)"
    using transmit_prefix [of "42 + m" "h @ u c' @ d" E zs] by (simp add: l m_def)
  ultimately show ?thesis unfolding f by (simp add: g1 m_def)
qed

lemma enc_udp_hdr_of:
  "enc_udp (udp_hdr_of src dst n c) @ d =
     (enc16 (htons src) @ enc16 (htons dst) @ enc16 (htons n)) @ enc16 c @ d"
  by (simp add: enc_udp_def udp_hdr_of_def)

lemma udp_frame_wf:
  assumes r: "ready s" and n: "length d \<le> 1458"
  shows "ipv4_wf (udp_frame s i da src dst d) \<and> transport_wf (udp_frame s i da src dst d)"
proof
  have l: "length (udp_segment (my_ip s) da src dst d) = 8 + length d" by simp
  show "ipv4_wf (udp_frame s i da src dst d)"
    unfolding udp_frame_def l [symmetric] by (rule router_frame_wf [OF r]) (use n in simp)
  define w c where "w = (of_nat (8 + length d) :: u16)"
    and "c = pseudo_checksum (my_ip s) da 17 (enc_udp (udp_hdr_of src dst w 0) @ d) w"
  have u: "udp_segment (my_ip s) da src dst d =
      (enc16 (htons src) @ enc16 (htons dst) @ enc16 (htons w)) @ enc16 (if c = 0 then 0xFFFF else c) @ d"
    by (simp only: udp_segment_def Let_def w_def c_def enc_udp_hdr_of)
  show "transport_wf (udp_frame s i da src dst d)"
    unfolding udp_frame_def
  proof (rule ipv4_frame_transport [OF valid_router_eth [OF r] u])
    show "c = pseudo_checksum (ip_saddr (out_ip_hdr 17 (my_ip s) da i (8 + length d)))
        (ip_daddr (out_ip_hdr 17 (my_ip s) da i (8 + length d))) 17
        ((enc16 (htons src) @ enc16 (htons dst) @ enc16 (htons w)) @ enc16 0 @ d @ [])
        (of_nat (length (udp_segment (my_ip s) da src dst d)))"
      by (simp only: l c_def enc_udp_hdr_of out_ip_hdr_sel append_Nil2 w_def [symmetric])
  qed (use n in auto)
qed

text \<open>A payload that does not fit the 1500-byte stack frame is written past its end.\<close>

lemma send_udp_overflow:
  assumes "1458 < unat n"
  shows "send_udp E da dst src (Some buf) n s = None"
proof (rule ccontr)
  assume "send_udp E da dst src (Some buf) n s \<noteq> None"
  then obtain s' where "send_udp E da dst src (Some buf) n s = Some s'" by blast
  moreover have "0 < n" using assms by (cases "n = 0") (simp_all add: word_gt_0)
  ultimately show False using assms
    unfolding send_udp_def Let_def const_vals
    by (auto simp: bind_Some_iff case_prod_unfold mem_simps dest!: length_store split: if_splits)
qed

lemma send_udp_ready: "ready s \<Longrightarrow> send_udp E da dst src data n s = Some s' \<Longrightarrow> ready s'"
  using transmit.op_ready [of "s\<lparr>rng_seed := fst (get_u32 s)\<rparr>"]
  unfolding send_udp_def Let_def
  by (auto simp: get_u32_def Let_def bind_Some_iff simp del: zero_hdr_fields)

subsection \<open>DNS messages\<close>

text \<open>
  The wire format of a response: names are label lists or compression pointers, a record is its
  name, type, class, time to live and data.
\<close>

datatype dns_name = Labels "bytes list" | Pointer u8 u8

fun enc_name :: "dns_name \<Rightarrow> bytes" where
  "enc_name (Labels ls) = enc_labels ls @ [0]"
| "enc_name (Pointer a b) = [a, b]"

definition label_ok :: "bytes \<Rightarrow> bool" where
  "label_ok l \<longleftrightarrow> l \<noteq> [] \<and> length l < 64"

fun name_ok :: "dns_name \<Rightarrow> bool" where
  "name_ok (Labels ls) = list_all label_ok ls"
| "name_ok (Pointer a b) \<longleftrightarrow> a AND 0xC0 = 0xC0"

record dns_rr =
  rr_name :: dns_name
  rr_type :: u16
  rr_class :: u16
  rr_ttl :: u32
  rr_data :: bytes

definition be16 :: "u16 \<Rightarrow> bytes" where
  "be16 w = [ucast (drop_bit 8 w), ucast w]"

definition enc_rr :: "dns_rr \<Rightarrow> bytes" where
  "enc_rr r = enc_name (rr_name r) @ be16 (rr_type r) @ be16 (rr_class r) @ rev (enc32 (rr_ttl r)) @
     be16 (of_nat (length (rr_data r))) @ rr_data r"

definition rr_ok :: "dns_rr \<Rightarrow> bool" where
  "rr_ok r \<longleftrightarrow> name_ok (rr_name r) \<and> length (rr_data r) < 65536"

definition is_a :: "dns_rr \<Rightarrow> bool" where
  "is_a r \<longleftrightarrow> rr_type r = 1 \<and> length (rr_data r) = 4"

record question =
  q_labels :: "bytes list"
  q_type :: u16
  q_class :: u16

definition enc_question :: "question \<Rightarrow> bytes" where
  "enc_question q = enc_labels (q_labels q) @ [0] @ be16 (q_type q) @ be16 (q_class q)"

definition question_ok :: "question \<Rightarrow> bool" where
  "question_ok q \<longleftrightarrow> list_all label_ok (q_labels q)"

lemma length_be16 [simp]: "length (be16 w) = 2"
  by (simp add: be16_def)

lemma rd_append [simp]: "rd (a @ x # b) (length a) = Some x"
  by (simp add: rd_def)

lemma be16_at_be16 [simp]: "be16_at (a @ be16 w @ b) (length a) = Some w"
proof -
  have "push_bit 8 (ucast (ucast (drop_bit 8 w) :: u8)) OR ucast (ucast w :: u8) = w"
    by (rule bit_word_eqI) (auto simp: bit_simps dest: bit_imp_le_length)
  then show ?thesis by (simp add: be16_at_def be16_def nth_append)
qed

lemma skip_labels_enc:
  "list_all label_ok ls \<Longrightarrow> rx = a @ enc_labels ls @ 0 # b \<Longrightarrow>
   skip_labels rx (length a) = Some (length a + length (enc_labels ls))"
proof (induction ls arbitrary: a)
  case Nil
  then show ?case by (subst skip_labels.simps) (simp add: enc_labels_def)
next
  case (Cons l ls)
  define c where "c = (of_nat (length l) :: u8)"
  have c: "unat c = length l" "c \<noteq> 0"
  proof -
    show u: "unat c = length l" using Cons.prems(1) by (simp add: c_def label_ok_def unat_of_nat take_bit_nat_eq_self)
    show "c \<noteq> 0" using Cons.prems(1) u by (auto simp: label_ok_def)
  qed
  have rx: "rx = a @ c # l @ enc_labels ls @ 0 # b" "rx = (a @ c # l) @ enc_labels ls @ 0 # b"
    using Cons.prems(2) by (simp_all add: enc_labels_Cons c_def)
  have "skip_labels rx (length a) = skip_labels rx (length (a @ c # l))"
    using c by (subst skip_labels.simps) (simp add: rx(1))
  also have "\<dots> = Some (length (a @ c # l) + length (enc_labels ls))"
    using Cons.prems(1) by (intro Cons.IH rx(2)) simp
  finally show ?case by (simp add: enc_labels_Cons)
qed

lemma skip_questions_enc:
  "list_all question_ok qs \<Longrightarrow> rx = a @ concat (map enc_question qs) @ b \<Longrightarrow>
   skip_questions rx (length qs) (length a) = Some (length a + length (concat (map enc_question qs)))"
proof (induction qs arbitrary: a)
  case (Cons q qs)
  let ?r = "be16 (q_type q) @ be16 (q_class q) @ concat (map enc_question qs) @ b"
  have "skip_labels rx (length a) = Some (length a + length (enc_labels (q_labels q)))"
    using Cons.prems by (intro skip_labels_enc [where b = ?r]) (simp_all add: question_ok_def enc_question_def [of q])
  moreover have "skip_questions rx (length qs) (length (a @ enc_question q)) =
      Some (length (a @ enc_question q) + length (concat (map enc_question qs)))"
    using Cons.prems by (intro Cons.IH) simp_all
  ultimately show ?case by (simp add: enc_question_def [of q] add_ac)
qed simp

lemma small_not_pointer: "unat (c :: u8) < 64 \<Longrightarrow> c AND 0xC0 \<noteq> 0xC0"
  using word_and_le2 [of c "0xC0"] by (auto simp: word_le_nat_alt)

definition skip_name :: "bytes \<Rightarrow> nat \<Rightarrow> nat option" where
  "skip_name rx p = do {
     c \<leftarrow> rd rx p;
     if c AND 0xC0 = 0xC0 then Some (p + 2)
     else do { p \<leftarrow> skip_labels rx p; Some (p + 1) } }"

lemma skip_name_enc:
  assumes "name_ok nm" "rx = a @ enc_name nm @ b"
  shows "skip_name rx (length a) = Some (length a + length (enc_name nm))"
proof (cases nm)
  case (Pointer x y)
  then show ?thesis using assms by (simp add: skip_name_def)
next
  case (Labels ls)
  have "skip_labels rx (length a) = Some (length a + length (enc_labels ls))"
    using assms Labels by (intro skip_labels_enc [where b = b]) simp_all
  moreover obtain c r where c: "enc_labels ls @ 0 # b = c # r" "unat c < 64"
  proof (cases ls)
    case Nil
    then show thesis using that [of 0] by (simp add: enc_labels_def)
  next
    case (Cons l ls')
    then have "unat (of_nat (length l) :: u8) < 64"
      using assms(1) Labels by (simp add: label_ok_def unat_of_nat take_bit_nat_eq_self)
    then show thesis using that Cons by (simp add: enc_labels_Cons)
  qed
  moreover have "rd rx (length a) = Some c"
    using assms(2) Labels c(1) by simp
  ultimately show ?thesis
    using small_not_pointer [OF c(2)] Labels by (simp add: skip_name_def)
qed

lemma parse_answers_Suc:
  "parse_answers rx (Suc n) p = do {
     p \<leftarrow> skip_name rx p;
     rtype \<leftarrow> be16_at rx p;
     rdlen \<leftarrow> be16_at rx (p + 8);
     if rtype = 1 \<and> rdlen = 4 then map_option Some (load rx (p + 10) 4)
     else parse_answers rx n (p + 10 + unat rdlen) }"
  by (cases "rd rx p")
    (simp_all add: skip_name_def const_vals Let_def cong: if_cong
      del: add_2_eq_Suc' add_Suc_right add_Suc One_nat_def)

lemma parse_answers_enc:
  "list_all rr_ok rs \<Longrightarrow> rx = a @ concat (map enc_rr rs) @ b \<Longrightarrow>
   parse_answers rx (length rs) (length a) = Some (map_option rr_data (List.find is_a rs))"
proof (induction rs arbitrary: a)
  case (Cons r rs)
  define rest where "rest = concat (map enc_rr rs) @ b"
  define a1 where "a1 = a @ enc_name (rr_name r)"
  define mid where "mid = be16 (rr_type r) @ be16 (rr_class r) @ rev (enc32 (rr_ttl r))"
  define n where "n = (of_nat (length (rr_data r)) :: u16)"
  have n: "unat n = length (rr_data r)"
    using Cons.prems(1) unfolding n_def by (intro unat_of_nat_16) (simp add: rr_ok_def)
  have rx: "rx = a1 @ mid @ be16 n @ rr_data r @ rest"
    using Cons.prems(2) by (simp add: a1_def mid_def rest_def n_def enc_rr_def [of r])
  have s1: "skip_name rx (length a) = Some (length a1)"
    using skip_name_enc [of "rr_name r" rx a "mid @ be16 n @ rr_data r @ rest"] Cons.prems(1) rx
    by (simp add: rr_ok_def a1_def)
  have s2: "be16_at rx (length a1) = Some (rr_type r)" by (simp add: rx mid_def)
  have s3: "be16_at rx (length a1 + 8) = Some n"
    using be16_at_be16 [of "a1 @ mid" n "rr_data r @ rest"] by (simp add: rx mid_def)
  have s4: "load rx (length a1 + 10) (length (rr_data r)) = Some (rr_data r)"
    by (simp add: rx load_def mid_def)
  have s5: "parse_answers rx (length rs) (length a1 + 10 + unat n) = Some (map_option rr_data (List.find is_a rs))"
    using Cons.IH [of "a1 @ mid @ be16 n @ rr_data r"] Cons.prems(1) rx n
    by (simp add: rest_def mid_def add_ac)
  have n4: "n = 4 \<longleftrightarrow> length (rr_data r) = 4"
    using n by (auto simp: n_def)
  then have "is_a r \<longleftrightarrow> rr_type r = 1 \<and> n = 4" by (auto simp: is_a_def)
  then show ?case using s1 s2 s3 s4 s5 n4
    by (cases "is_a r") (auto simp: parse_answers_Suc simp del: parse_answers.simps(2))
qed simp

definition enc_response :: "u16 \<Rightarrow> u16 \<Rightarrow> question list \<Rightarrow> dns_rr list \<Rightarrow> u16 \<Rightarrow> u16 \<Rightarrow> bytes" where
  "enc_response ident flags qs rs ns ar =
     enc_dns \<lparr>dns_id = htons ident, dns_flags = htons flags, dns_qdcount = htons (of_nat (length qs)),
       dns_ancount = htons (of_nat (length rs)), dns_nscount = ns, dns_arcount = ar\<rparr> @
     concat (map enc_question qs) @ concat (map enc_rr rs)"

definition resolve_with :: "dns_rr list \<Rightarrow> state \<Rightarrow> state" where
  "resolve_with rs s =
     (case List.find is_a rs of
        Some r \<Rightarrow> s\<lparr>dns_resolved_ip := dec32 (rr_data r), dns_resolved := True\<rparr>
      | None \<Rightarrow> s)"

lemma handle_dns_response_enc:
  assumes rx: "rx_pkt s = a @ enc_response (dns_current_id s) flags qs rs ns ar @ b" "p = length a"
    and f: "flags AND 0x8000 \<noteq> 0" and q: "list_all question_ok qs" "length qs < 65536"
    and r: "list_all rr_ok rs" "length rs < 65536"
  shows "handle_dns_response p s = Some (resolve_with rs s)"
proof -
  define h where "h = \<lparr>dns_id = htons (dns_current_id s), dns_flags = htons flags,
      dns_qdcount = htons (of_nat (length qs)), dns_ancount = htons (of_nat (length rs)),
      dns_nscount = ns, dns_arcount = ar\<rparr>"
  define eq er where "eq = concat (map enc_question qs)" and "er = concat (map enc_rr rs)"
  have rx': "rx_pkt s = a @ enc_dns h @ eq @ er @ b"
    by (simp add: rx(1) enc_response_def h_def eq_def er_def)
  have l: "load (rx_pkt s) p 12 = Some (enc_dns h)"
    by (simp add: rx' rx(2) load_def dns.length_enc)
  have n: "unat (of_nat (length qs) :: u16) = length qs" "unat (of_nat (length rs) :: u16) = length rs"
    using q(2) r(2) by (simp_all only: unat_of_nat_16)
  have s1: "skip_questions (rx_pkt s) (length qs) (p + 12) = Some (p + 12 + length eq)"
    using skip_questions_enc [OF q(1), of "rx_pkt s" "a @ enc_dns h" "er @ b"]
    by (simp add: rx' rx(2) eq_def dns.length_enc)
  have s2: "parse_answers (rx_pkt s) (length rs) (p + 12 + length eq) =
      Some (map_option rr_data (List.find is_a rs))"
    using parse_answers_enc [OF r(1), of "rx_pkt s" "a @ enc_dns h @ eq" b]
    by (simp add: rx' rx(2) er_def dns.length_enc add.assoc)
  have d: "dec_dns (enc_dns h) = h" using dns.dec_enc [of h "[]"] by simp
  have z: "rs \<noteq> [] \<Longrightarrow> (of_nat (length rs) :: u16) \<noteq> 0"
    using n(2) by auto
  have hs: "dns_id h = htons (dns_current_id s)" "ntohs (dns_flags h) = flags"
    "ntohs (dns_qdcount h) = of_nat (length qs)" "ntohs (dns_ancount h) = of_nat (length rs)"
    by (simp_all add: h_def ntohs_def htons_htons)
  show ?thesis
  proof (cases "rs = []")
    case True
    then show ?thesis using l f
      by (simp add: handle_dns_response_def d hs const_vals resolve_with_def Let_def)
  next
    case False
    then have "handle_dns_response p s = Some (case map_option rr_data (List.find is_a rs) of
        Some x \<Rightarrow> s\<lparr>dns_resolved_ip := dec32 x, dns_resolved := True\<rparr> | None \<Rightarrow> s)"
      using l s1 s2 n f z
      by (simp add: handle_dns_response_def d hs const_vals Let_def)
    then show ?thesis by (cases "List.find is_a rs") (simp_all add: resolve_with_def)
  qed
qed

lemma handle_dns_response_rejects:
  assumes "load (rx_pkt s) p 12 = Some b"
    "dns_id (dec_dns b) \<noteq> htons (dns_current_id s) \<or> ntohs (dns_flags (dec_dns b)) AND 0x8000 = 0 \<or>
     ntohs (dns_ancount (dec_dns b)) = 0"
  shows "handle_dns_response p s = Some s"
  using assms by (auto simp: handle_dns_response_def const_vals Let_def)

text \<open>Whatever the packet holds, a response changes at most the resolver's result.\<close>

text \<open>
  A message without a zero byte: the label loop has no other end, and leaves the receive page.
\<close>

lemma skip_labels_runs_away:
  "0 \<notin> set (drop p rx) \<Longrightarrow> skip_labels rx p = None"
proof (induction rx p rule: skip_labels.induct)
  case (1 rx p)
  show ?case
  proof (cases "rd rx p")
    case (Some c)
    then have "c = rx ! p" "p < length rx" by (auto simp: rd_def split: if_splits)
    then have "c \<in> set (drop p rx)" by (metis Cons_nth_drop_Suc list.set_intros(1))
    then have "c \<noteq> 0" using 1(2) by auto
    moreover have "set (drop (p + (unat c + 1)) rx) \<subseteq> set (drop p rx)" by (rule set_drop_subset_set_drop) simp
    then have "0 \<notin> set (drop (p + (unat c + 1)) rx)" using 1(2) by blast
    ultimately show ?thesis using 1(1) [OF Some] Some by (subst skip_labels.simps) simp
  qed (subst skip_labels.simps, simp)
qed

lemma dns_response_runs_away:
  assumes "load (rx_pkt s) p 12 = Some b" "dns_id (dec_dns b) = htons (dns_current_id s)"
    "ntohs (dns_flags (dec_dns b)) AND 0x8000 \<noteq> 0" "ntohs (dns_ancount (dec_dns b)) \<noteq> 0"
    "ntohs (dns_qdcount (dec_dns b)) \<noteq> 0" "0 \<notin> set (drop (p + 12) (rx_pkt s))"
  shows "handle_dns_response p s = None"
proof -
  obtain n where n: "unat (ntohs (dns_qdcount (dec_dns b))) = Suc n"
    using assms(5) by (metis not0_implies_Suc unsigned_eq_0_iff)
  show ?thesis
    using assms(1-4) skip_labels_runs_away [OF assms(6)]
    by (simp add: handle_dns_response_def Let_def const_vals n)
qed

lemma handle_dns_response_frame:
  assumes "handle_dns_response p s = Some s'"
  shows "s' = s\<lparr>dns_resolved_ip := dns_resolved_ip s', dns_resolved := dns_resolved s'\<rparr> \<and>
    (dns_resolved s \<longrightarrow> dns_resolved s')"
  using assms unfolding handle_dns_response_def Let_def
  by (elim bind_Some_E) (simp split: if_splits option.splits; (elim bind_Some_E)?; simp split: option.splits;
      hypsubst; simp)

subsection \<open>Dispatch\<close>

lemma handle_user_datagram_eq:
  assumes r: "ready s" and len: "unat (ntohs (udp_len udp)) = 8 + n" "0 < n" "p + 8 + n \<le> 4096"
    and buf: "udp_rx_buffer s = Some buf" "unat (udp_rx_max_len s) \<le> length buf"
    and k: "k = min n (unat (udp_rx_max_len s))"
  shows "handle_user_datagram p udp s =
    Some (s\<lparr>udp_rx_buffer := Some (take k (drop (p + 8) (rx_pkt s)) @ drop k buf),
      udp_rx_current_len := of_nat k, udp_rx_done := True\<rparr>)"
proof -
  define w where "w = (ucast (ntohs (udp_len udp)) - 8 :: u64)"
  have "(ucast (ntohs (udp_len udp)) :: u64) = of_nat (8 + n)"
    using len(1) by (metis of_nat_unat ucast_id unat_ucast_16_64)
  then have "w = of_nat n" by (simp add: w_def)
  then have w: "unat w = n" using len by (simp add: unat_of_nat_64)
  define c where "c = (if w > udp_rx_max_len s then udp_rx_max_len s else w)"
  have c: "unat c = k" using w by (auto simp: c_def k word_less_nat_alt)
  have "0 < w" using w len(2) by (cases "w = 0") (simp_all add: word_gt_0)
  moreover have "local_mem_cpy buf 0 (rx_pkt s) (p + 8) k = Some (take k (drop (p + 8) (rx_pkt s)) @ drop k buf)"
    using r k len(3) buf(2) by (auto simp: mem_simps ready_def)
  moreover have "c = of_nat k" using c by (metis of_nat_unat ucast_id)
  ultimately show ?thesis
    using buf(1) c by (simp add: handle_user_datagram_def flip: w_def c_def)
qed

text \<open>
  A length field below the header size: the payload length wraps, and the whole posted buffer is
  filled with what the page holds behind the header, or the copy leaves the page.
\<close>

lemma handle_user_datagram_underflow:
  assumes r: "ready s" and len: "unat (ntohs (udp_len udp)) < 8"
    and buf: "udp_rx_buffer s = Some buf" "unat (udp_rx_max_len s) \<le> length buf" "unat (udp_rx_max_len s) < 2 ^ 63"
    and k: "k = unat (udp_rx_max_len s)" "0 < k"
  shows "handle_user_datagram p udp s =
    (if p + 8 + k \<le> 4096
     then Some (s\<lparr>udp_rx_buffer := Some (take k (drop (p + 8) (rx_pkt s)) @ drop k buf),
       udp_rx_current_len := udp_rx_max_len s, udp_rx_done := True\<rparr>)
     else None)"
proof -
  define w where "w = (ucast (ntohs (udp_len udp)) - 8 :: u64)"
  have w: "unat w = 2 ^ 64 + unat (ntohs (udp_len udp)) - 8"
    using len by (simp add: w_def unat_sub_if')
  then have le: "w > udp_rx_max_len s" "w > 0" using buf(3) by (simp_all add: word_less_nat_alt)
  have l: "length (rx_pkt s) = 4096" using r by (simp add: ready_def)
  show ?thesis
    using buf le k l by (simp add: handle_user_datagram_def mem_simps Let_def flip: w_def)
qed

lemma handle_udp_cases:
  assumes r: "ready s" and p: "p + 8 \<le> 4096" and u: "u = dec_udp (take 8 (drop p (rx_pkt s)))"
  shows "handle_udp ip p data_len s =
    do { s \<leftarrow> (if ntohs (udp_dest u) = udp_local_port s \<and> udp_local_port s \<noteq> 0
            then handle_user_datagram p u s else Some s);
         if ntohs (udp_dest u) = dns_local_port s \<and> dns_local_port s \<noteq> 0 \<and> ntohs (udp_source u) = 53
         then handle_dns_response (p + 8) s else Some s }"
  using r p by (simp add: handle_udp_def load_def ready_def const_vals Let_def flip: u)

lemma handle_user_datagram_frame:
  assumes "handle_user_datagram p u s = Some s'"
  shows "s' = s\<lparr>udp_rx_buffer := udp_rx_buffer s', udp_rx_current_len := udp_rx_current_len s',
      udp_rx_done := udp_rx_done s'\<rparr> \<and> (udp_rx_done s \<longrightarrow> udp_rx_done s')"
  using assms unfolding handle_user_datagram_def Let_def
  by (simp split: option.splits if_splits; (elim bind_Some_E)?; simp?; hypsubst?; simp)

lemma handle_user_datagram_ready: "ready s \<Longrightarrow> handle_user_datagram p u s = Some s' \<Longrightarrow> ready s'"
  by (drule handle_user_datagram_frame, erule conjE, erule ssubst) (simp add: ready_def)

lemma handle_dns_response_ready: "ready s \<Longrightarrow> handle_dns_response p s = Some s' \<Longrightarrow> ready s'"
  by (drule handle_dns_response_frame, erule conjE, erule ssubst) (simp add: ready_def)

interpretation udp_handler: keeps_ready "handle_udp ip p data_len"
  by unfold_locales
    (auto simp: handle_udp_def Let_def bind_Some_iff split: if_splits
      dest: handle_user_datagram_ready handle_dns_response_ready)

text \<open>Responses that are not the awaited one, and what a datagram carries.\<close>

lemma handle_dns_response_other:
  assumes rx: "rx_pkt s = a @ enc_response ident flags qs rs ns ar @ b"
    and f: "\<not> (ident = dns_current_id s \<and> flags AND 0x8000 \<noteq> 0)"
  shows "handle_dns_response (length a) s = Some s"
proof (rule handle_dns_response_rejects)
  let ?h = "\<lparr>dns_id = htons ident, dns_flags = htons flags, dns_qdcount = htons (of_nat (length qs)),
    dns_ancount = htons (of_nat (length rs)), dns_nscount = ns, dns_arcount = ar\<rparr>"
  show "load (rx_pkt s) (length a) 12 = Some (enc_dns ?h)"
    using rx by (intro dns.load_enc) (simp_all add: enc_response_def)
  show "dns_id (dec_dns (enc_dns ?h)) \<noteq> htons (dns_current_id s) \<or> ntohs (dns_flags (dec_dns (enc_dns ?h))) AND 0x8000 = 0 \<or>
      ntohs (dns_ancount (dec_dns (enc_dns ?h))) = 0"
    using f by (simp only: dns.dec_enc_Nil) (auto simp: ntohs_def htons_htons dest: arg_cong [of _ _ htons])
qed

lemma udp_frame_fields:
  fixes i src dst :: u16 and da :: u32 and d :: bytes
  assumes "ready s"
  defines "f \<equiv> udp_frame s i da src dst d"
  shows "ip_saddr (dec_ip (drop 14 f)) = my_ip s" "ip_daddr (dec_ip (drop 14 f)) = da"
    "udp_source (dec_udp (drop 34 f)) = htons src" "udp_dest (dec_udp (drop 34 f)) = htons dst" "drop 42 f = d"
proof -
  note p = ipv4_frame_parts [OF valid_router_eth [OF assms(1)], of "out_ip_hdr 17 (my_ip s) da i (8 + length d)"
      "udp_segment (my_ip s) da src dst d", folded udp_frame_def, folded f_def]
  show "ip_saddr (dec_ip (drop 14 f)) = my_ip s" "ip_daddr (dec_ip (drop 14 f)) = da" by (simp_all add: p)
  show "udp_source (dec_udp (drop 34 f)) = htons src" "udp_dest (dec_udp (drop 34 f)) = htons dst"
    by (simp_all add: p udp_segment_def Let_def udp.dec_enc udp_hdr_of_def)
  have "drop 42 f = drop 8 (drop 34 f)" by simp
  then show "drop 42 f = d" by (simp add: p udp_segment_def Let_def udp.length_enc)
qed

end
