(* ===== verification/Net_Tcp.thy ===== *)
theory Net_Tcp
  imports Net_Frames
begin

text \<open>
  The TCP part of \<^verbatim>\<open>core.hpp\<close>: \<open>send_tcp_internal\<close> and \<open>handle_tcp\<close>.  \<open>p\<close> is the position of the
  TCP header in \<open>rx_pkt\<close>.  Lengths are the 64-bit values of the code, sequence numbers its 32-bit
  ones; the receive buffer is the user's, separate from the packet pages.
\<close>

definition send_tcp_internal ::
  "firmware \<Rightarrow> u8 \<Rightarrow> u32 \<Rightarrow> u32 \<Rightarrow> bytes option \<Rightarrow> u64 \<Rightarrow> state \<Rightarrow> state option" where
  "send_tcp_internal E flags seq ack data data_len s = do {
     let pkt = replicate MAX_PKT_SIZE 0;
     let eth = zero_eth\<lparr>eth_dst := take ETH_ALEN (router_mac s),
                        eth_src := take ETH_ALEN (my_mac s),
                        eth_type := htons ETHERTYPE_IPV4\<rparr>;
     let (r, s) = get_u32 s;
     let ip = zero_ip\<lparr>ihl_version := IP_VERSION_IHL_DEFAULT,
                      ip_tot_len := htons (ucast (20 + 20 + data_len)),
                      ip_id := htons (ucast (r AND 0xFFFF)),
                      ip_ttl := IP_DEFAULT_TTL,
                      ip_protocol := IP_PROTO_TCP,
                      ip_saddr := my_ip s,
                      ip_daddr := tcp_remote_ip s\<rparr>;
     let ip = ip\<lparr>ip_check := checksum (enc_ip ip) 20\<rparr>;
     let tcp = zero_tcp\<lparr>tcp_source := htons (tcp_local_port s),
                        tcp_dest := htons (tcp_remote_port s),
                        tcp_hseq := htonl seq,
                        tcp_ack_seq := htonl ack,
                        res1_doff_flags := htons (push_bit 0x0C (ucast TCP_DATA_OFFSET_5) OR ucast flags),
                        tcp_window := htons TCP_DEFAULT_WINDOW\<rparr>;
     pkt \<leftarrow> store pkt 0 (enc_eth eth);
     pkt \<leftarrow> store pkt 14 (enc_ip ip);
     pkt \<leftarrow> store pkt 34 (enc_tcp tcp);
     pkt \<leftarrow> (case data of
              Some d \<Rightarrow> if data_len > 0 then local_mem_cpy pkt 54 d 0 (unat data_len) else Some pkt
            | None \<Rightarrow> Some pkt);
     let len = (ucast (20 + data_len) :: u16);
     seg \<leftarrow> load pkt 34 (unat len);
     let tcp = tcp\<lparr>tcp_check := pseudo_checksum (ip_saddr ip) (ip_daddr ip) IP_PROTO_TCP seg len\<rparr>;
     pkt \<leftarrow> store pkt 34 (enc_tcp tcp);
     transmit_frame E pkt (unat (14 + 20 + 20 + data_len)) s }"

definition tcp_take_payload :: "nat \<Rightarrow> u64 \<Rightarrow> u64 \<Rightarrow> state \<Rightarrow> state option" where
  "tcp_take_payload p tcp_hlen payload_len s =
     (case tcp_rx_buffer s of
        Some buf \<Rightarrow>
          if payload_len > 0 then do {
            let space_left = tcp_rx_max_len s - tcp_rx_current_len s;
            let copy_len = (if payload_len > space_left then space_left else payload_len);
            if copy_len > 0 then do {
              buf \<leftarrow> local_mem_cpy buf (unat (tcp_rx_current_len s)) (rx_pkt s) (p + unat tcp_hlen)
                     (unat copy_len);
              Some (s\<lparr>tcp_rx_buffer := Some buf, tcp_rx_current_len := tcp_rx_current_len s + copy_len,
                      tcp_rx_done := True\<rparr>) }
            else Some s }
          else Some s
      | None \<Rightarrow> Some s)"

definition handle_tcp :: "firmware \<Rightarrow> ip_hdr \<Rightarrow> nat \<Rightarrow> u64 \<Rightarrow> state \<Rightarrow> state option" where
  "handle_tcp E ip p data_len s = do {
     b \<leftarrow> load (rx_pkt s) p 20;
     let tcp = dec_tcp b;
     if ntohs (tcp_dest tcp) \<noteq> tcp_local_port s \<or> tcp_local_port s = 0x00 then Some s
     else do {
       let flags = ntohs (res1_doff_flags tcp) AND 0x3F;
       let rx_seq = ntohl (tcp_hseq tcp);
       let rx_ack = ntohl (tcp_ack_seq tcp);
       let tcp_hlen = (ucast (drop_bit 0x0C (ntohs (res1_doff_flags tcp)) AND 0x0F) * 0x04 :: u64);
       let payload_len = (ucast (ntohs (ip_tot_len ip)) - ucast (ihl_version ip AND 0x0F) * 0x04
                          - tcp_hlen :: u64);
       if flags AND ucast TCP_FLAG_RST \<noteq> 0
       then Some (s\<lparr>tcp_state := TCP_STATE_CLOSED, tcp_rx_done := True\<rparr>)
       else if tcp_state s = TCP_STATE_SYN_SENT then
         (if flags AND ucast TCP_FLAG_SYN_ACK = ucast TCP_FLAG_SYN_ACK then do {
            let s = s\<lparr>tcp_seq := rx_ack, tcp_ack := rx_seq + 0x01\<rparr>;
            s \<leftarrow> send_tcp_internal E TCP_FLAG_ACK (tcp_seq s) (tcp_ack s) None 0x00 s;
            Some (s\<lparr>tcp_state := TCP_STATE_ESTABLISHED\<rparr>) }
          else Some s)
       else if tcp_state s = TCP_STATE_ESTABLISHED \<or> tcp_state s = TCP_STATE_FIN_WAIT then do {
         s \<leftarrow> tcp_take_payload p tcp_hlen payload_len s;
         s \<leftarrow> (if payload_len > 0 then do {
                let s = s\<lparr>tcp_seq := rx_ack, tcp_ack := ucast (ucast rx_seq + payload_len)\<rparr>;
                send_tcp_internal E TCP_FLAG_ACK (tcp_seq s) (tcp_ack s) None 0x00 s }
              else Some s);
         if flags AND ucast TCP_FLAG_FIN \<noteq> 0 then do {
           let s = s\<lparr>tcp_seq := rx_ack, tcp_ack := ucast (ucast rx_seq + payload_len + 0x01)\<rparr>;
           s \<leftarrow> send_tcp_internal E TCP_FLAG_FIN_ACK (tcp_seq s) (tcp_ack s) None 0x00 s;
           Some (s\<lparr>tcp_state := TCP_STATE_CLOSED_DONE\<rparr>) }
         else Some s }
       else Some s } }"

subsection \<open>Segments out\<close>

definition tcp_hdr_of :: "u16 \<Rightarrow> u16 \<Rightarrow> u32 \<Rightarrow> u32 \<Rightarrow> u8 \<Rightarrow> u16 \<Rightarrow> tcp_hdr" where
  "tcp_hdr_of src dst seq ack flags c =
     \<lparr>tcp_source = htons src, tcp_dest = htons dst, tcp_hseq = htonl seq, tcp_ack_seq = htonl ack,
      res1_doff_flags = htons (0x5000 OR ucast flags), tcp_window = htons 0x2000, tcp_check = c,
      tcp_urg_ptr = 0\<rparr>"

lemma tcp_hdr_fold:
  "\<lparr>tcp_source = htons src, tcp_dest = htons dst, tcp_hseq = htonl seq, tcp_ack_seq = htonl ack,
    res1_doff_flags = htons (0x5000 OR ucast flags), tcp_window = htons 0x2000, tcp_check = c,
    tcp_urg_ptr = 0\<rparr> = tcp_hdr_of src dst seq ack flags c"
  "tcp_hdr_of src dst seq ack flags c\<lparr>tcp_check := c'\<rparr> = tcp_hdr_of src dst seq ack flags c'"
  by (simp_all add: tcp_hdr_of_def)

definition tcp_segment :: "u32 \<Rightarrow> u32 \<Rightarrow> u16 \<Rightarrow> u16 \<Rightarrow> u32 \<Rightarrow> u32 \<Rightarrow> u8 \<Rightarrow> bytes \<Rightarrow> bytes" where
  "tcp_segment sa da src dst seq ack flags d =
     (let n = of_nat (20 + length d);
          c = pseudo_checksum sa da 6 (enc_tcp (tcp_hdr_of src dst seq ack flags 0) @ d) n
      in enc_tcp (tcp_hdr_of src dst seq ack flags c) @ d)"

definition tcp_frame :: "state \<Rightarrow> u16 \<Rightarrow> u8 \<Rightarrow> u32 \<Rightarrow> u32 \<Rightarrow> bytes \<Rightarrow> bytes" where
  "tcp_frame s i flags seq ack d =
     ipv4_frame (router_eth_hdr s) (out_ip_hdr 6 (my_ip s) (tcp_remote_ip s) i (20 + length d))
       (tcp_segment (my_ip s) (tcp_remote_ip s) (tcp_local_port s) (tcp_remote_port s) seq ack flags d)"

lemma length_tcp_segment [simp]: "length (tcp_segment sa da src dst seq ack flags d) = 20 + length d"
  by (simp add: tcp_segment_def Let_def tcp.length_enc)

lemma length_tcp_frame: "ready s \<Longrightarrow> length (tcp_frame s i flags seq ack d) = 54 + length d"
  by (simp add: tcp_frame_def length_ipv4_frame valid_router_eth)

text \<open>The data argument: a pointer to at least the payload, or null with no payload.\<close>

definition payload_arg :: "bytes option \<Rightarrow> bytes \<Rightarrow> bool" where
  "payload_arg data d \<longleftrightarrow>
     (case data of Some buf \<Rightarrow> length d \<le> length buf \<and> d = take (length d) buf | None \<Rightarrow> d = [])"

lemma send_tcp_eq:
  assumes r: "ready s" and n: "length d \<le> 1446" "payload_arg data d"
  shows "send_tcp_internal E flags seq ack data (of_nat (length d)) s =
    send_frame E (tcp_frame s (ucast (fst (get_u32 s) AND 0xFFFF)) flags seq ack d) (snd (get_u32 s))"
proof -
  obtain r1 where g1: "get_u32 s = (r1, s\<lparr>rng_seed := r1\<rparr>)"
    by (simp add: get_u32_def Let_def)
  define m where "m = length d"
  define h t zs where "h = unicast_head s 6 (tcp_remote_ip s) (ucast (r1 AND 0xFFFF)) (20 + m)"
    and "t = (\<lambda>c. enc_tcp (tcp_hdr_of (tcp_local_port s) (tcp_remote_port s) seq ack flags c))"
    and "zs = replicate (1446 - m) (0 :: u8)"
  have l: "length h = 34" "length (t c) = 20" for c
    using length_unicast_head [OF r] by (simp_all add: h_def t_def tcp.length_enc)
  have w: "(ucast (40 + of_nat m :: u64) :: u16) = of_nat (20 + (20 + m))"
    "(ucast (20 + of_nat m :: u64) :: u16) = of_nat (20 + m)"
    unfolding of_nat_add_numeral_64 by (simp_all only: ucast_of_nat_64_16) simp
  have v: "unat (54 + of_nat m :: u64) = 54 + m" "unat (of_nat m :: u64) = m"
    "unat (of_nat (20 + m) :: u16) = 20 + m"
    unfolding of_nat_add_numeral_64 using n(1)
    by (simp_all only: unat_of_nat_64 unat_of_nat_16 m_def)
  have s1: "store (h @ replicate 1466 0) 34 (t 0) = Some (h @ t 0 @ replicate 1446 0)"
    using store_next [of h 34 "t 0" 1466] by (simp add: l)
  have s2: "(case data of
        Some d \<Rightarrow> if (of_nat m :: u64) > 0 then local_mem_cpy (h @ t 0 @ replicate 1446 0) 54 d 0 (unat (of_nat m :: u64))
                  else Some (h @ t 0 @ replicate 1446 0)
      | None \<Rightarrow> Some (h @ t 0 @ replicate 1446 0)) = Some (h @ t 0 @ d @ zs)"
  proof (cases data)
    case None
    then show ?thesis using n(2) by (simp add: payload_arg_def m_def zs_def)
  next
    case (Some buf)
    then have "length d \<le> length buf" "d = take (length d) buf" using n(2) by (simp_all add: payload_arg_def)
    then have "local_mem_cpy (h @ t 0 @ replicate 1446 0) 54 buf 0 m = Some (h @ t 0 @ d @ zs)"
      using mem_cpy_next [of "h @ t 0" 54 m 1446 buf] n(1) by (simp add: l m_def zs_def)
    then show ?thesis using Some by (simp add: copy_if_pos v)
  qed
  have s3: "load (h @ t 0 @ d @ zs) 34 (20 + m) = Some (t 0 @ d)"
    by (simp add: load_def l m_def)
  have s4: "store (h @ t 0 @ d @ zs) 34 (t c) = Some (h @ t c @ d @ zs)" for c
    by (rule store_middle) (simp_all add: l)
  define c where "c = pseudo_checksum (my_ip s) (tcp_remote_ip s) 6 (t 0 @ d) (of_nat (20 + m))"
  have f: "h @ t c @ d = tcp_frame s (ucast (r1 AND 0xFFFF)) flags seq ack d"
    by (simp only: tcp_frame_def ipv4_frame_unicast h_def tcp_segment_def c_def t_def m_def Let_def)
  have "send_tcp_internal E flags seq ack data (of_nat m) s =
      transmit_frame E (h @ t c @ d @ zs) (54 + m) (s\<lparr>rng_seed := r1\<rparr>)"
    using s1 s2 s3 s4 w v unfolding send_tcp_internal_def c_def t_def
    by (simp add: const_vals g1 Let_def hdr_fold tcp_hdr_fold unicast_stores
        store_unicast_ip [where len = "20 + m" and zs = "[]", simplified] r split del: if_split option.split flip: h_def)
  moreover have "transmit_frame E (h @ t c @ d @ zs) (54 + m) (s\<lparr>rng_seed := r1\<rparr>) =
      send_frame E (h @ t c @ d) (s\<lparr>rng_seed := r1\<rparr>)"
    using transmit_prefix [of "54 + m" "h @ t c @ d" E zs] by (simp add: l m_def)
  ultimately show ?thesis unfolding f by (simp add: g1 m_def)
qed

lemma enc_tcp_hdr_of:
  "enc_tcp (tcp_hdr_of src dst seq ack flags c) @ d =
     (enc16 (htons src) @ enc16 (htons dst) @ enc32 (htonl seq) @ enc32 (htonl ack) @
      enc16 (htons (0x5000 OR ucast flags)) @ enc16 (htons 0x2000)) @ enc16 c @ (enc16 0 @ d)"
  by (simp add: enc_tcp_def tcp_hdr_of_def)

lemma tcp_frame_wf:
  assumes r: "ready s" and n: "length d \<le> 1446"
  shows "ipv4_wf (tcp_frame s i flags seq ack d) \<and> transport_wf (tcp_frame s i flags seq ack d)"
proof
  define sa da src dst where "sa = my_ip s" and "da = tcp_remote_ip s" and "src = tcp_local_port s"
    and "dst = tcp_remote_port s"
  have l: "length (tcp_segment sa da src dst seq ack flags d) = 20 + length d" by simp
  have f: "tcp_frame s i flags seq ack d = ipv4_frame (router_eth_hdr s) (out_ip_hdr 6 sa da i (20 + length d))
      (tcp_segment sa da src dst seq ack flags d)"
    by (simp only: tcp_frame_def sa_def da_def src_def dst_def)
  show "ipv4_wf (tcp_frame s i flags seq ack d)"
    unfolding f l [symmetric] by (rule router_frame_wf [OF r]) (use n in simp)
  define w c where "w = (of_nat (20 + length d) :: u16)"
    and "c = pseudo_checksum sa da 6 (enc_tcp (tcp_hdr_of src dst seq ack flags 0) @ d) w"
  have u: "tcp_segment sa da src dst seq ack flags d =
      (enc16 (htons src) @ enc16 (htons dst) @ enc32 (htonl seq) @ enc32 (htonl ack) @
       enc16 (htons (0x5000 OR ucast flags)) @ enc16 (htons 0x2000)) @ enc16 c @ (enc16 0 @ d)"
    by (simp only: tcp_segment_def Let_def w_def c_def enc_tcp_hdr_of)
  show "transport_wf (tcp_frame s i flags seq ack d)"
    unfolding f
  proof (rule ipv4_frame_transport [OF valid_router_eth [OF r] u])
    show "c = pseudo_checksum (ip_saddr (out_ip_hdr 6 sa da i (20 + length d)))
        (ip_daddr (out_ip_hdr 6 sa da i (20 + length d))) 6
        ((enc16 (htons src) @ enc16 (htons dst) @ enc32 (htonl seq) @ enc32 (htonl ack) @
          enc16 (htons (0x5000 OR ucast flags)) @ enc16 (htons 0x2000)) @ enc16 0 @ (enc16 0 @ d) @ [])
        (of_nat (length (tcp_segment sa da src dst seq ack flags d)))"
      by (simp only: l c_def enc_tcp_hdr_of out_ip_hdr_sel append_Nil2 w_def [symmetric])
  qed (use n in auto)
qed

lemma send_tcp_overflow:
  assumes "1446 < unat n"
  shows "send_tcp_internal E flags seq ack (Some buf) n s = None"
proof (rule ccontr)
  assume "send_tcp_internal E flags seq ack (Some buf) n s \<noteq> None"
  then obtain s' where "send_tcp_internal E flags seq ack (Some buf) n s = Some s'" by blast
  moreover have "0 < n" using assms by (cases "n = 0") (simp_all add: word_gt_0)
  ultimately show False using assms
    unfolding send_tcp_internal_def Let_def const_vals
    by (auto simp: bind_Some_iff case_prod_unfold mem_simps dest!: length_store split: if_splits)
qed

lemma send_tcp_ready:
  "ready s \<Longrightarrow> send_tcp_internal E flags seq ack data n s = Some s' \<Longrightarrow> ready s'"
  using transmit.op_ready [of "s\<lparr>rng_seed := fst (get_u32 s)\<rparr>"]
  unfolding send_tcp_internal_def Let_def
  by (auto simp: get_u32_def Let_def bind_Some_iff simp del: zero_hdr_fields)

text \<open>A segment without payload: exactly one frame, and only the generator and the history change.\<close>

lemma send_tcp_empty:
  assumes "ready s"
  obtains s' i r tx tr where "send_tcp_internal E flags seq ack None 0 s = Some s'"
    "s' = s\<lparr>rng_seed := r, tx_pkt := tx, trace := tr\<rparr>" "ready s'"
    "sent s' = tcp_frame s i flags seq ack [] # sent s"
proof -
  define i r where "i = (ucast (fst (get_u32 s) AND 0xFFFF) :: u16)" and "r = fst (get_u32 s)"
  have g: "snd (get_u32 s) = s\<lparr>rng_seed := r\<rparr>" by (simp add: r_def get_u32_def Let_def)
  have eq: "send_tcp_internal E flags seq ack None 0 s =
      send_frame E (tcp_frame s i flags seq ack []) (s\<lparr>rng_seed := r\<rparr>)"
    using send_tcp_eq [OF assms, of "[]" None E flags seq ack] by (simp add: payload_arg_def g i_def)
  obtain s' where s': "send_frame E (tcp_frame s i flags seq ack []) (s\<lparr>rng_seed := r\<rparr>) = Some s'"
    "sends (s\<lparr>rng_seed := r\<rparr>) (tcp_frame s i flags seq ack []) s'" "ready s'"
    using send_frame_ready [of "s\<lparr>rng_seed := r\<rparr>" "tcp_frame s i flags seq ack []" E] assms
    by (auto simp: length_tcp_frame)
  obtain tx tr where "s' = s\<lparr>rng_seed := r, tx_pkt := tx, trace := tr\<rparr>"
    using s'(2) by (rule sends_frame) simp
  moreover have "sent s' = tcp_frame s i flags seq ack [] # sent s"
    using sends_sent [OF s'(2)] by (simp add: sent_def)
  ultimately show thesis using that eq s'(1,3) by simp
qed

lemma tcp_take_payload_frame:
  assumes "tcp_take_payload p hl n s = Some s'"
  shows "s' = s\<lparr>tcp_rx_buffer := tcp_rx_buffer s', tcp_rx_current_len := tcp_rx_current_len s',
      tcp_rx_done := tcp_rx_done s'\<rparr>"
  using assms unfolding tcp_take_payload_def Let_def
  by (simp split: option.splits if_splits; (elim bind_Some_E)?; simp?; hypsubst?; simp)

lemma tcp_take_payload_ready: "ready s \<Longrightarrow> tcp_take_payload p hl n s = Some s' \<Longrightarrow> ready s'"
  by (drule tcp_take_payload_frame, erule ssubst) simp

lemma tcp_numbers_ready:
  "ready s \<Longrightarrow> send_tcp_internal E fl q a None 0 (s\<lparr>tcp_seq := q', tcp_ack := a'\<rparr>) = Some s' \<Longrightarrow> ready s'"
  by (rule send_tcp_ready [of "s\<lparr>tcp_seq := q', tcp_ack := a'\<rparr>"]) simp_all

lemma tcp_open_ready:
  assumes r: "ready s" and s1: "tcp_take_payload p hl n s = Some s1"
    and s2: "(if c1 then send_tcp_internal E f1 q1 a1 None 0 (s1\<lparr>tcp_seq := q1', tcp_ack := a1'\<rparr>) else Some s1) = Some s2"
    and s3: "(if c2 then send_tcp_internal E f2 q2 a2 None 0 (s2\<lparr>tcp_seq := q2', tcp_ack := a2'\<rparr>) \<bind>
        (\<lambda>s. Some (s\<lparr>tcp_state := x\<rparr>)) else Some s2) = Some s'"
  shows "ready s'"
proof -
  have "ready s1" by (rule tcp_take_payload_ready [OF r s1])
  then have "ready s2" using s2 tcp_numbers_ready by (cases c1) auto
  then show ?thesis using s3 tcp_numbers_ready by (cases c2) (auto elim!: bind_Some_E)
qed

interpretation tcp_handler: keeps_ready "handle_tcp E ip p data_len"
proof
  fix s s'
  assume r: "ready s" and h: "handle_tcp E ip p data_len s = Some s'"
  show "ready s'"
    using h r unfolding handle_tcp_def Let_def
    by (elim bind_Some_E) (simp only: split: if_split_asm;
        (elim bind_Some_E)?; (erule (3) tcp_open_ready | (use tcp_numbers_ready in force)))
qed

end
