(* ===== verification/Net_Tcp_Spec.thy ===== *)
theory Net_Tcp_Spec
  imports Net_Prelude
begin

text \<open>
  The abstract TCP client: the connection a user of the stack sees, as a step relation over the
  events of the API and of the wire.  It says nothing of packet layouts, buffers in memory or
  loops; that \<open>handle_tcp\<close> and the API operations implement it is proved in the theories that
  define them.  The relation has what the code promises: cumulative delivery into the posted
  buffer up to its capacity, an acknowledgement for every segment with payload, the phases of a
  client connection.
\<close>

datatype tcp_phase = Closed | Syn_Sent | Established | Fin_Wait | Closed_Done

text \<open>
  The phases in the order in which a connection goes through them.  It is the order of the numbers
  \<^verbatim>\<open>TCP_STATE_*\<close> (\<open>phase_word_mono\<close>).
\<close>

fun phase_rank :: "tcp_phase \<Rightarrow> nat" where
  "phase_rank Closed = 0"
| "phase_rank Syn_Sent = 1"
| "phase_rank Established = 2"
| "phase_rank Fin_Wait = 3"
| "phase_rank Closed_Done = 4"

instantiation tcp_phase :: linorder
begin

definition less_eq_tcp_phase :: "tcp_phase \<Rightarrow> tcp_phase \<Rightarrow> bool" where
  "a \<le> b \<longleftrightarrow> phase_rank a \<le> phase_rank b"

definition less_tcp_phase :: "tcp_phase \<Rightarrow> tcp_phase \<Rightarrow> bool" where
  "a < b \<longleftrightarrow> phase_rank a < phase_rank b"

instance
proof
  fix a b :: tcp_phase
  assume "a \<le> b" "b \<le> a"
  then show "a = b" by (cases a; cases b) (simp_all add: less_eq_tcp_phase_def)
qed (auto simp: less_eq_tcp_phase_def less_tcp_phase_def)

end

record conn =
  c_phase :: tcp_phase
  c_seq :: u32
  c_ack :: u32
  c_inbox :: "bytes option"
  c_cap :: nat
  c_signal :: bool

record segment =
  g_flags :: u16
  g_seq :: u32
  g_ack :: u32
  g_data :: bytes

definition is_fin :: "segment \<Rightarrow> bool" where "is_fin g \<longleftrightarrow> g_flags g AND 0x01 \<noteq> 0"
definition is_rst :: "segment \<Rightarrow> bool" where "is_rst g \<longleftrightarrow> g_flags g AND 0x04 \<noteq> 0"
definition is_syn_ack :: "segment \<Rightarrow> bool" where "is_syn_ack g \<longleftrightarrow> g_flags g AND 0x12 = 0x12"

datatype event =
    Connect u32
  | Syn
  | Segment segment
  | Post nat
  | Withdraw
  | Push bytes
  | Finish
  | Shut

text \<open>An outgoing segment: flags, sequence and acknowledgement numbers, payload.\<close>

type_synonym out_seg = "u8 \<times> u32 \<times> u32 \<times> bytes"

definition deliver :: "bytes \<Rightarrow> conn \<Rightarrow> conn" where
  "deliver d c =
     (case c_inbox c of
        Some x \<Rightarrow> if d \<noteq> [] \<and> length x < c_cap c
                  then c\<lparr>c_inbox := Some (take (c_cap c) (x @ d)), c_signal := True\<rparr> else c
      | None \<Rightarrow> c)"

definition transfer :: "segment \<Rightarrow> conn \<Rightarrow> conn" where
  "transfer g c =
     (if g_data g = [] then c
      else (deliver (g_data g) c)\<lparr>c_seq := g_ack g, c_ack := g_seq g + of_nat (length (g_data g))\<rparr>)"

definition acks :: "segment \<Rightarrow> out_seg list" where
  "acks g = (if g_data g = [] then [] else [(0x10, g_ack g, g_seq g + of_nat (length (g_data g)), [])])"

inductive tcp_step :: "conn \<Rightarrow> event \<Rightarrow> out_seg list \<Rightarrow> conn \<Rightarrow> bool" where
  connect: "tcp_step c (Connect isn) [] (c\<lparr>c_phase := Syn_Sent, c_seq := isn, c_ack := 0\<rparr>)"
| syn: "c_phase c = Syn_Sent \<Longrightarrow> tcp_step c Syn [(0x02, c_seq c, c_ack c, [])] c"
| reset: "is_rst g \<Longrightarrow> tcp_step c (Segment g) [] (c\<lparr>c_phase := Closed, c_signal := True\<rparr>)"
| establish: "\<not> is_rst g \<Longrightarrow> c_phase c = Syn_Sent \<Longrightarrow> is_syn_ack g \<Longrightarrow>
    tcp_step c (Segment g) [(0x10, g_ack g, g_seq g + 1, [])]
      (c\<lparr>c_phase := Established, c_seq := g_ack g, c_ack := g_seq g + 1\<rparr>)"
| wait: "\<not> is_rst g \<Longrightarrow> c_phase c = Syn_Sent \<Longrightarrow> \<not> is_syn_ack g \<Longrightarrow> tcp_step c (Segment g) [] c"
| data: "\<not> is_rst g \<Longrightarrow> c_phase c \<in> {Established, Fin_Wait} \<Longrightarrow> \<not> is_fin g \<Longrightarrow>
    tcp_step c (Segment g) (acks g) (transfer g c)"
| fin: "\<not> is_rst g \<Longrightarrow> c_phase c \<in> {Established, Fin_Wait} \<Longrightarrow> is_fin g \<Longrightarrow>
    tcp_step c (Segment g)
      (acks g @ [(0x11, g_ack g, g_seq g + of_nat (length (g_data g)) + 1, [])])
      ((transfer g c)\<lparr>c_phase := Closed_Done, c_seq := g_ack g,
         c_ack := g_seq g + of_nat (length (g_data g)) + 1\<rparr>)"
| ignore: "\<not> is_rst g \<Longrightarrow> c_phase c \<in> {Closed, Closed_Done} \<Longrightarrow> tcp_step c (Segment g) [] c"
| post: "tcp_step c (Post n) [] (c\<lparr>c_inbox := Some [], c_cap := n, c_signal := False\<rparr>)"
| withdraw: "tcp_step c Withdraw [] (c\<lparr>c_inbox := None\<rparr>)"
| push: "c_phase c = Established \<Longrightarrow>
    tcp_step c (Push d) [(0x18, c_seq c, c_ack c, d)] (c\<lparr>c_seq := c_seq c + of_nat (length d)\<rparr>)"
| finish: "c_phase c = Established \<Longrightarrow>
    tcp_step c Finish [(0x11, c_seq c, c_ack c, [])] (c\<lparr>c_phase := Fin_Wait\<rparr>)"
| shut: "tcp_step c Shut [] (c\<lparr>c_phase := Closed\<rparr>)"

inductive_cases tcp_segmentE: "tcp_step c (Segment g) out c'"

inductive_simps tcp_user_steps:
  "tcp_step c (Connect isn) out c'" "tcp_step c Syn out c'" "tcp_step c (Post n) out c'"
  "tcp_step c Withdraw out c'" "tcp_step c (Push d) out c'" "tcp_step c Finish out c'"
  "tcp_step c Shut out c'"

inductive tcp_run :: "conn \<Rightarrow> event list \<Rightarrow> out_seg list \<Rightarrow> conn \<Rightarrow> bool" where
  stop: "tcp_run c [] [] c"
| more: "tcp_step c e out c1 \<Longrightarrow> tcp_run c1 es outs c2 \<Longrightarrow> tcp_run c (e # es) (out @ outs) c2"

inductive_simps tcp_run_Nil: "tcp_run c [] outs c'"
inductive_cases tcp_run_ConsE: "tcp_run c (e # es) outs c'"

lemma tcp_run_single: "tcp_step c e out c' \<Longrightarrow> tcp_run c [e] out c'"
  using tcp_run.more [OF _ tcp_run.stop, of c e out c'] by simp

lemma tcp_run_append:
  "tcp_run c es outs c1 \<Longrightarrow> tcp_run c1 es' outs' c2 \<Longrightarrow> tcp_run c (es @ es') (outs @ outs') c2"
  by (induction rule: tcp_run.induct) (auto simp: append.assoc intro: tcp_run.more)

subsection \<open>Invariants\<close>

definition conn_inv :: "conn \<Rightarrow> bool" where
  "conn_inv c \<longleftrightarrow> (case c_inbox c of Some x \<Rightarrow> length x \<le> c_cap c | None \<Rightarrow> True)"

lemma deliver_simps [simp]:
  "c_phase (deliver d c) = c_phase c" "c_seq (deliver d c) = c_seq c" "c_ack (deliver d c) = c_ack c"
  "c_cap (deliver d c) = c_cap c"
  by (simp_all add: deliver_def split: option.splits)

lemma transfer_simps [simp]: "c_phase (transfer g c) = c_phase c" "c_cap (transfer g c) = c_cap c"
  by (simp_all add: transfer_def)

lemma conn_inv_simps [simp]:
  "conn_inv (c\<lparr>c_phase := ph\<rparr>) = conn_inv c" "conn_inv (c\<lparr>c_seq := n\<rparr>) = conn_inv c"
  "conn_inv (c\<lparr>c_ack := n\<rparr>) = conn_inv c" "conn_inv (c\<lparr>c_signal := b\<rparr>) = conn_inv c"
  "conn_inv (c\<lparr>c_inbox := None\<rparr>)" "conn_inv (c\<lparr>c_inbox := Some []\<rparr>)"
  "conn_inv (c\<lparr>c_inbox := Some [], c_cap := k\<rparr>)"
  by (simp_all add: conn_inv_def split: option.split)

lemma deliver_inv: "conn_inv c \<Longrightarrow> conn_inv (deliver d c)"
  by (auto simp: deliver_def conn_inv_def split: option.splits)

lemma transfer_inv: "conn_inv c \<Longrightarrow> conn_inv (transfer g c)"
  using deliver_inv [of c "g_data g"] by (simp add: transfer_def)

lemma tcp_step_inv: "tcp_step c e out c' \<Longrightarrow> conn_inv c \<Longrightarrow> conn_inv c'"
  by (induction rule: tcp_step.induct) (auto simp: transfer_inv)

lemma tcp_run_inv: "tcp_run c es outs c' \<Longrightarrow> conn_inv c \<Longrightarrow> conn_inv c'"
  by (induction rule: tcp_run.induct) (auto dest: tcp_step_inv)

text \<open>The phase graph.\<close>

fun edge :: "tcp_phase \<Rightarrow> event \<Rightarrow> tcp_phase \<Rightarrow> bool" where
  "edge a (Connect _) b = (b = Syn_Sent)"
| "edge a Finish b = (a = Established \<and> b = Fin_Wait)"
| "edge a Shut b = (b = Closed)"
| "edge a (Segment g) b =
     (if is_rst g then b = Closed
      else case a of
        Syn_Sent \<Rightarrow> b = (if is_syn_ack g then Established else Syn_Sent)
      | Closed \<Rightarrow> b = Closed
      | Closed_Done \<Rightarrow> b = Closed_Done
      | _ \<Rightarrow> b = (if is_fin g then Closed_Done else a))"
| "edge a _ b = (b = a)"

lemma tcp_step_edge: "tcp_step c e out c' \<Longrightarrow> edge (c_phase c) e (c_phase c')"
  by (induction rule: tcp_step.induct) auto

text \<open>A connection is established by a SYN and ACK answering ours, and by nothing else.\<close>

lemma established_only_by_syn_ack:
  assumes "tcp_step c e out c'" "c_phase c' = Established" "c_phase c \<noteq> Established"
  shows "\<exists>g. e = Segment g \<and> c_phase c = Syn_Sent \<and> is_syn_ack g \<and> \<not> is_rst g \<and>
    out = [(0x10, g_ack g, g_seq g + 1, [])] \<and> c_seq c' = g_ack g \<and> c_ack c' = g_seq g + 1"
  using assms by (induction rule: tcp_step.induct) auto

text \<open>
  What the wire can do to the phase: segments move it forward only, and a reset closes the
  connection; a closed connection stays closed until the user opens it.
\<close>

definition forward :: "tcp_phase \<Rightarrow> tcp_phase \<Rightarrow> bool" where
  "forward a b \<longleftrightarrow> b = Closed \<or> a \<noteq> Closed \<and> a \<le> b"

lemma forward_refl [simp]: "forward a a"
  by (simp add: forward_def)

lemma forward_trans: "forward a b \<Longrightarrow> forward b c \<Longrightarrow> forward a c"
  by (auto simp: forward_def)

lemma segment_step_forward:
  assumes "tcp_step c (Segment g) out c'"
  shows "if is_rst g then c_phase c' = Closed else c_phase c \<le> c_phase c' \<and> (c_phase c = Closed \<longrightarrow> c_phase c' = Closed)"
  using tcp_step_edge [OF assms] by (cases "c_phase c") (auto simp: less_eq_tcp_phase_def split: if_splits)

lemma segments_forward:
  assumes "tcp_run c es outs c'" "\<forall>e\<in>set es. \<exists>g. e = Segment g"
  shows "forward (c_phase c) (c_phase c')"
  using assms
proof (induction rule: tcp_run.induct)
  case (more c e out c1 es outs c2)
  then obtain g where "tcp_step c (Segment g) out c1" by auto
  then have "forward (c_phase c) (c_phase c1)"
    using segment_step_forward by (fastforce simp: forward_def split: if_splits)
  then show ?case using more by (auto intro: forward_trans)
qed simp

text \<open>Every event has a step, and a segment has exactly one.\<close>

lemma segment_step_total: "\<exists>out c'. tcp_step c (Segment g) out c'"
proof (cases "is_rst g")
  case True
  then show ?thesis using tcp_step.reset by blast
next
  case False
  note intros = tcp_step.establish [OF False] tcp_step.wait [OF False] tcp_step.data [OF False]
    tcp_step.fin [OF False] tcp_step.ignore [OF False]
  show ?thesis
    by (cases "c_phase c"; cases "is_syn_ack g"; cases "is_fin g")
      (use intros [of c] in \<open>simp_all, blast+\<close>)
qed

lemma segment_step_determ:
  assumes "tcp_step c (Segment g) out c'" "tcp_step c (Segment g) out2 c2"
  shows "out2 = out \<and> c2 = c'"
  using assms by (auto elim!: tcp_segmentE)

subsection \<open>The delivered stream\<close>

definition plain :: "segment \<Rightarrow> bool" where
  "plain g \<longleftrightarrow> \<not> is_rst g \<and> \<not> is_fin g"

fun in_order :: "u32 \<Rightarrow> segment list \<Rightarrow> bool" where
  "in_order n [] = True"
| "in_order n (g # gs) \<longleftrightarrow> g_seq g = n \<and> in_order (n + of_nat (length (g_data g))) gs"

definition stream :: "segment list \<Rightarrow> bytes" where
  "stream gs = concat (map g_data gs)"

lemma transfer_inbox:
  "c_inbox c = Some x \<Longrightarrow> length x \<le> c_cap c \<Longrightarrow> c_inbox (transfer g c) = Some (take (c_cap c) (x @ g_data g))"
  by (simp add: transfer_def deliver_def)

text \<open>
  While the connection is open, plain segments are delivered in the order of their arrival, cut off
  at the capacity; when they arrive in sequence the acknowledgement number counts every byte.
\<close>

lemma stream_delivered:
  assumes "tcp_run c (map Segment gs) outs c'" "list_all plain gs" "c_phase c \<in> {Established, Fin_Wait}"
    "c_inbox c = Some x" "length x \<le> c_cap c"
  shows "c_phase c' = c_phase c \<and> c_cap c' = c_cap c \<and> c_inbox c' = Some (take (c_cap c) (x @ stream gs)) \<and>
    outs = concat (map acks gs)"
  using assms
proof (induction gs arbitrary: c x outs)
  case Nil
  then show ?case by (auto simp: tcp_run_Nil stream_def)
next
  case (Cons g gs)
  from Cons.prems(1) obtain out c1 os where s: "tcp_step c (Segment g) out c1" "outs = out @ os"
    "tcp_run c1 (map Segment gs) os c'" by (auto elim: tcp_run_ConsE)
  have p: "\<not> is_rst g" "\<not> is_fin g" using Cons.prems(2) by (simp_all add: plain_def)
  have c1: "c1 = transfer g c" "out = acks g"
    using segment_step_determ [OF tcp_step.data [OF p(1) Cons.prems(3) p(2)] s(1)] by simp_all
  have ib: "c_inbox c1 = Some (take (c_cap c) (x @ g_data g))"
    using transfer_inbox Cons.prems(4,5) c1 by simp
  have "c_phase c' = c_phase c1 \<and> c_cap c' = c_cap c1 \<and>
      c_inbox c' = Some (take (c_cap c1) (take (c_cap c) (x @ g_data g) @ stream gs)) \<and> os = concat (map acks gs)"
    by (rule Cons.IH [OF s(3)]) (use Cons.prems ib c1 in auto)
  moreover have "take (c_cap c) (take (c_cap c) (x @ g_data g) @ stream gs) = take (c_cap c) (x @ stream (g # gs))"
    by (auto simp: stream_def take_Cons' min_def)
  ultimately show ?case using c1 s(2) by simp
qed

lemma in_order_ack:
  assumes "tcp_run c (map Segment gs) outs c'" "list_all plain gs" "c_phase c \<in> {Established, Fin_Wait}"
    "in_order (c_ack c) gs"
  shows "c_ack c' = c_ack c + of_nat (length (stream gs))"
  using assms
proof (induction gs arbitrary: c outs)
  case Nil
  then show ?case by (auto simp: tcp_run_Nil stream_def)
next
  case (Cons g gs)
  from Cons.prems(1) obtain out c1 os where s: "tcp_step c (Segment g) out c1" "outs = out @ os"
    "tcp_run c1 (map Segment gs) os c'" by (auto elim: tcp_run_ConsE)
  have p: "\<not> is_rst g" "\<not> is_fin g" using Cons.prems(2) by (simp_all add: plain_def)
  have c1: "c1 = transfer g c"
    using segment_step_determ [OF tcp_step.data [OF p(1) Cons.prems(3) p(2)] s(1)] by simp
  have a: "c_ack c1 = c_ack c + of_nat (length (g_data g))"
    using Cons.prems(4) c1 by (simp add: transfer_def)
  have "c_ack c' = c_ack c1 + of_nat (length (stream gs))"
    by (rule Cons.IH [OF s(3)]) (use Cons.prems a c1 in auto)
  then show ?case using a by (simp add: stream_def add.assoc)
qed

end
