(* ===== verification/Net_Tcp_Refine.thy ===== *)
theory Net_Tcp_Refine
  imports Net_Tcp Net_Tcp_Spec
begin

text \<open>
  \<open>handle_tcp\<close> implements the abstract client of \<open>Net_Tcp_Spec\<close>: on a well-formed segment for the
  local port it makes exactly the step of the relation, and the frames it hands to the interface
  are the step's outgoing segments.
\<close>

fun phase_word :: "tcp_phase \<Rightarrow> u32" where
  "phase_word Closed = 0"
| "phase_word Syn_Sent = 1"
| "phase_word Established = 2"
| "phase_word Fin_Wait = 3"
| "phase_word Closed_Done = 4"

lemma phase_word_inj [simp]: "phase_word a = phase_word b \<longleftrightarrow> a = b"
  by (cases a; cases b) simp_all

lemma phase_word_eqs [simp]:
  "phase_word a = 0 \<longleftrightarrow> a = Closed" "phase_word a = 1 \<longleftrightarrow> a = Syn_Sent" "phase_word a = 2 \<longleftrightarrow> a = Established"
  "phase_word a = 3 \<longleftrightarrow> a = Fin_Wait" "phase_word a = 4 \<longleftrightarrow> a = Closed_Done"
  by (cases a; simp)+

lemma phase_word_mono: "phase_word a \<le> phase_word b \<longleftrightarrow> a \<le> b"
  by (cases a; cases b) (simp_all add: less_eq_tcp_phase_def word_le_nat_alt)

definition inbox_rel :: "state \<Rightarrow> conn \<Rightarrow> bool" where
  "inbox_rel s c \<longleftrightarrow>
     (case tcp_rx_buffer s of
        None \<Rightarrow> c_inbox c = None
      | Some buf \<Rightarrow> c_cap c = unat (tcp_rx_max_len s) \<and>
          unat (tcp_rx_current_len s) \<le> unat (tcp_rx_max_len s) \<and> unat (tcp_rx_max_len s) \<le> length buf \<and>
          c_inbox c = Some (take (unat (tcp_rx_current_len s)) buf))"

definition tcp_rel :: "state \<Rightarrow> conn \<Rightarrow> bool" where
  "tcp_rel s c \<longleftrightarrow>
     tcp_state s = phase_word (c_phase c) \<and> tcp_seq s = c_seq c \<and> tcp_ack s = c_ack c \<and>
     tcp_rx_done s = c_signal c \<and> inbox_rel s c"

text \<open>The segment at position \<open>p\<close> of the receive page, and when its lengths are consistent.\<close>

definition tcp_hdr_len :: "bytes \<Rightarrow> nat \<Rightarrow> nat" where
  "tcp_hdr_len rx p =
     4 * unat (drop_bit 12 (ntohs (res1_doff_flags (dec_tcp (take 20 (drop p rx))))) AND 0x0F)"

definition ip_hdr_len :: "ip_hdr \<Rightarrow> nat" where
  "ip_hdr_len ip = 4 * unat (ihl_version ip AND 0x0F)"

definition tcp_data_len :: "ip_hdr \<Rightarrow> bytes \<Rightarrow> nat \<Rightarrow> nat" where
  "tcp_data_len ip rx p = unat (ntohs (ip_tot_len ip)) - ip_hdr_len ip - tcp_hdr_len rx p"

definition seg_of :: "ip_hdr \<Rightarrow> bytes \<Rightarrow> nat \<Rightarrow> segment" where
  "seg_of ip rx p =
     (let t = dec_tcp (take 20 (drop p rx))
      in \<lparr>g_flags = ntohs (res1_doff_flags t) AND 0x3F, g_seq = ntohl (tcp_hseq t),
          g_ack = ntohl (tcp_ack_seq t),
          g_data = take (tcp_data_len ip rx p) (drop (p + tcp_hdr_len rx p) rx)\<rparr>)"

definition seg_ok :: "ip_hdr \<Rightarrow> bytes \<Rightarrow> nat \<Rightarrow> bool" where
  "seg_ok ip rx p \<longleftrightarrow>
     p + 20 \<le> length rx \<and> ip_hdr_len ip + tcp_hdr_len rx p \<le> unat (ntohs (ip_tot_len ip)) \<and>
     p + tcp_hdr_len rx p + tcp_data_len ip rx p \<le> length rx"

definition tcp_local :: "state \<Rightarrow> nat \<Rightarrow> bool" where
  "tcp_local s p \<longleftrightarrow>
     ntohs (tcp_dest (dec_tcp (take 20 (drop p (rx_pkt s))))) = tcp_local_port s \<and> tcp_local_port s \<noteq> 0"

lemma unat_quad: "unat (ucast (x AND 0x0F :: u16) * 4 :: u64) = 4 * unat (x AND 0x0F)"
  "unat (ucast (y AND 0x0F :: u8) * 4 :: u64) = 4 * unat (y AND 0x0F)"
proof -
  have "unat (x AND 0x0F) \<le> unat (0x0F :: u16)" using word_and_le1 [of "x" "0x0F"] by (simp only: word_le_nat_alt)
  then show "unat (ucast (x AND 0x0F :: u16) * 4 :: u64) = 4 * unat (x AND 0x0F)"
    by (simp add: unat_word_ariths)
  have "unat (y AND 0x0F) \<le> unat (0x0F :: u8)" using word_and_le1 [of "y" "0x0F"] by (simp only: word_le_nat_alt)
  then show "unat (ucast (y AND 0x0F :: u8) * 4 :: u64) = 4 * unat (y AND 0x0F)"
    by (simp add: unat_word_ariths)
qed

lemma payload_len_ok:
  assumes "ip_hdr_len ip + tcp_hdr_len rx p \<le> unat (ntohs (ip_tot_len ip))"
  shows "unat (ucast (ntohs (ip_tot_len ip)) - ucast (ihl_version ip AND 0x0F) * 4 -
      ucast (drop_bit 12 (ntohs (res1_doff_flags (dec_tcp (take 20 (drop p rx))))) AND 0x0F) * 4 :: u64) =
    tcp_data_len ip rx p"
  using assms
  by (simp add: unat_sub_if' unat_quad tcp_data_len_def ip_hdr_len_def tcp_hdr_len_def)

subsection \<open>Taking the payload\<close>

lemma take_payload_rel:
  assumes r: "ready s" and c: "inbox_rel s c" "tcp_rx_done s = c_signal c" and b: "p + unat hl + unat n \<le> 4096"
    and d: "d = take (unat n) (drop (p + unat hl) (rx_pkt s))"
  shows "\<exists>bf k dn. tcp_take_payload p hl n s =
      Some (s\<lparr>tcp_rx_buffer := bf, tcp_rx_current_len := k, tcp_rx_done := dn\<rparr>) \<and>
    inbox_rel (s\<lparr>tcp_rx_buffer := bf, tcp_rx_current_len := k, tcp_rx_done := dn\<rparr>) (deliver d c) \<and>
    dn = c_signal (deliver d c)"
proof -
  have rx: "length (rx_pkt s) = 4096" using r by (simp add: ready_def)
  have ld: "length d = unat n" using b d rx by simp
  have same: ?thesis if "tcp_take_payload p hl n s = Some s" "deliver d c = c"
    using that c(1) c(2) [symmetric] by (intro exI [of _ "tcp_rx_buffer s"] exI [of _ "tcp_rx_current_len s"] exI [of _ "tcp_rx_done s"]) simp
  show ?thesis
  proof (cases "tcp_rx_buffer s")
    case None
    then show ?thesis using c(1) by (intro same) (simp_all add: tcp_take_payload_def deliver_def inbox_rel_def)
  next
    case (Some buf)
    define cur mx where "cur = unat (tcp_rx_current_len s)" and "mx = unat (tcp_rx_max_len s)"
    have le: "cur \<le> mx" "mx \<le> length buf" "c_cap c = mx" "c_inbox c = Some (take cur buf)"
      using c(1) Some by (simp_all add: inbox_rel_def cur_def mx_def)
    define space where "space = tcp_rx_max_len s - tcp_rx_current_len s"
    have sp: "unat space = mx - cur"
      using le(1) by (simp add: space_def unat_sub_if' cur_def mx_def)
    show ?thesis
    proof (cases "n = 0 \<or> space = 0")
      case True
      then have "d = [] \<or> \<not> cur < mx" using ld sp by auto
      then show ?thesis using Some True le
        by (intro same) (auto simp: tcp_take_payload_def deliver_def Let_def word_gt_0 simp flip: space_def)
    next
      case False
      define cl where "cl = (if n > space then space else n)"
      have cl: "unat cl = min (unat n) (mx - cur)" using sp by (auto simp: cl_def word_less_nat_alt)
      have pos: "0 < n" "0 < cl" using False by (auto simp: cl_def word_gt_0)
      define k buf' where "k = min (unat n) (mx - cur)" and "buf' = take cur buf @ take k d @ drop (cur + k) buf"
      have cpy: "local_mem_cpy buf cur (rx_pkt s) (p + unat hl) k = Some buf'"
        using le b rx d by (auto simp: mem_simps buf'_def k_def min_def)
      have cur': "unat (tcp_rx_current_len s + cl) = cur + k"
      proof -
        have "unat (tcp_rx_current_len s) + unat cl < 18446744073709551616"
          using cl le(1) unat_lt_2_64 [of "tcp_rx_max_len s"] unfolding cur_def mx_def by linarith
        then show ?thesis using cl by (simp add: unat_word_ariths k_def cur_def)
      qed
      have tk: "tcp_take_payload p hl n s = Some (s\<lparr>tcp_rx_buffer := Some buf',
          tcp_rx_current_len := tcp_rx_current_len s + cl, tcp_rx_done := True\<rparr>)"
        using pos Some cpy cl
        by (simp add: tcp_take_payload_def Let_def k_def cur_def flip: space_def cl_def)
      have "take (cur + k) buf' = take mx (take cur buf @ d)"
        using le ld by (simp add: buf'_def k_def min_def)
      moreover have "deliver d c = c\<lparr>c_inbox := Some (take mx (take cur buf @ d)), c_signal := True\<rparr>"
        using le ld False sp by (auto simp: deliver_def unsigned_eq_0_iff)
      moreover have "length buf' = length buf" using le ld by (simp add: buf'_def k_def)
      ultimately show ?thesis
        using tk le cur' by (intro exI conjI) (auto simp: inbox_rel_def mx_def [symmetric] k_def)
    qed
  qed
qed

subsection \<open>What goes out\<close>

definition endpoint :: "state \<Rightarrow> bytes \<times> bytes \<times> u32 \<times> u32 \<times> u16 \<times> u16" where
  "endpoint s = (router_mac s, my_mac s, my_ip s, tcp_remote_ip s, tcp_local_port s, tcp_remote_port s)"

lemma tcp_frame_endpoint: "endpoint s' = endpoint s \<Longrightarrow> tcp_frame s' = tcp_frame s"
  by (intro ext) (simp add: endpoint_def tcp_frame_def router_eth_hdr_def)

fun is_frame :: "state \<Rightarrow> bytes \<Rightarrow> out_seg \<Rightarrow> bool" where
  "is_frame s f (flags, seq, ack, d) \<longleftrightarrow> (\<exists>i. f = tcp_frame s i flags seq ack d)"

text \<open>\<open>s'\<close> has sent the segments \<open>out\<close> since \<open>s\<close>, in this order, and nothing else.\<close>

definition emits :: "state \<Rightarrow> out_seg list \<Rightarrow> state \<Rightarrow> bool" where
  "emits s out s' \<longleftrightarrow> endpoint s' = endpoint s \<and>
     (\<exists>new. sent s' = rev new @ sent s \<and> list_all2 (is_frame s) new out)"

lemma emits_none: "endpoint s' = endpoint s \<Longrightarrow> sent s' = sent s \<Longrightarrow> emits s [] s'"
  by (simp add: emits_def)

lemma emits_refl [simp]: "emits s [] s"
  by (simp add: emits_none)

lemma emits_one:
  "endpoint s' = endpoint s \<Longrightarrow> sent s' = tcp_frame s i fl q a d # sent s \<Longrightarrow> emits s [(fl, q, a, d)] s'"
  unfolding emits_def by (intro conjI exI [of _ "[tcp_frame s i fl q a d]"]) auto

lemma emits_append: "emits s o1 s1 \<Longrightarrow> emits s1 o2 s2 \<Longrightarrow> emits s (o1 @ o2) s2"
proof -
  assume a: "emits s o1 s1" "emits s1 o2 s2"
  then obtain n1 n2 where n: "sent s1 = rev n1 @ sent s" "list_all2 (is_frame s) n1 o1"
    "sent s2 = rev n2 @ sent s1" "list_all2 (is_frame s1) n2 o2" by (auto simp: emits_def)
  have e: "endpoint s1 = endpoint s" "endpoint s2 = endpoint s" using a by (simp_all add: emits_def)
  have "is_frame s1 = is_frame s"
    by (intro ext) (auto simp: tcp_frame_endpoint [OF e(1)] elim!: is_frame.elims)
  then show ?thesis
    using n e unfolding emits_def by (intro conjI exI [of _ "n1 @ n2"]) (auto intro: list_all2_appendI)
qed

lemma inbox_rel_cong:
  "tcp_rx_buffer s' = tcp_rx_buffer s \<Longrightarrow> tcp_rx_max_len s' = tcp_rx_max_len s \<Longrightarrow>
   tcp_rx_current_len s' = tcp_rx_current_len s \<Longrightarrow> c_inbox c' = c_inbox c \<Longrightarrow> c_cap c' = c_cap c \<Longrightarrow>
   inbox_rel s c \<Longrightarrow> inbox_rel s' c'"
  by (simp add: inbox_rel_def split: option.splits)

text \<open>Sending a segment without payload changes nothing the relation looks at.\<close>

lemma send_empty_rel:
  assumes "ready s" "tcp_rel s c"
  obtains s' where "send_tcp_internal E flags q a None 0 s = Some s'" "ready s'" "tcp_rel s' c"
    "emits s [(flags, q, a, [])] s'"
proof (rule send_tcp_empty [OF assms(1), of E flags q a])
  fix s' i r tx tr
  assume s: "send_tcp_internal E flags q a None 0 s = Some s'"
    "s' = s\<lparr>rng_seed := r, tx_pkt := tx, trace := tr\<rparr>" "ready s'"
    "sent s' = tcp_frame s i flags q a [] # sent s"
  have "tcp_rel s' c"
    using assms(2) by (auto simp: tcp_rel_def s(2) intro: inbox_rel_cong [of _ s _ c])
  moreover have "emits s [(flags, q, a, [])] s'"
    by (rule emits_one [OF _ s(4)]) (simp add: s(2) endpoint_def)
  ultimately show thesis using that s by blast
qed

definition set_nums :: "u32 \<Rightarrow> u32 \<Rightarrow> state \<Rightarrow> state" where
  "set_nums q a s = s\<lparr>tcp_seq := q, tcp_ack := a\<rparr>"

lemma set_nums_rel:
  "ready s \<Longrightarrow> tcp_rel s c \<Longrightarrow>
   ready (set_nums q a s) \<and> tcp_rel (set_nums q a s) (c\<lparr>c_seq := q, c_ack := a\<rparr>) \<and> emits s [] (set_nums q a s)"
  by (auto simp: set_nums_def tcp_rel_def ready_def emits_def endpoint_def sent_def intro: inbox_rel_cong [of _ s _ c])

lemma set_state_rel:
  "ready s \<Longrightarrow> tcp_rel s c \<Longrightarrow>
   ready (s\<lparr>tcp_state := phase_word ph\<rparr>) \<and> tcp_rel (s\<lparr>tcp_state := phase_word ph\<rparr>) (c\<lparr>c_phase := ph\<rparr>) \<and>
   emits s [] (s\<lparr>tcp_state := phase_word ph\<rparr>)"
  by (auto simp: tcp_rel_def ready_def emits_def endpoint_def sent_def intro: inbox_rel_cong [of _ s _ c])

text \<open>Set the numbers, then answer with them: the pattern of every reply of the handler.\<close>

definition reply :: "firmware \<Rightarrow> u8 \<Rightarrow> u32 \<Rightarrow> u32 \<Rightarrow> state \<Rightarrow> state option" where
  "reply E flags q a s = send_tcp_internal E flags q a None 0 (set_nums q a s)"

lemma reply_rel:
  assumes "ready s" "tcp_rel s c"
  obtains s' where "reply E flags q a s = Some s'" "ready s'" "tcp_rel s' (c\<lparr>c_seq := q, c_ack := a\<rparr>)"
    "emits s [(flags, q, a, [])] s'"
proof -
  from set_nums_rel [OF assms, of q a]
  have n: "ready (set_nums q a s)" "tcp_rel (set_nums q a s) (c\<lparr>c_seq := q, c_ack := a\<rparr>)"
    "emits s [] (set_nums q a s)" by simp_all
  obtain s' where "send_tcp_internal E flags q a None 0 (set_nums q a s) = Some s'" "ready s'"
    "tcp_rel s' (c\<lparr>c_seq := q, c_ack := a\<rparr>)" "emits (set_nums q a s) [(flags, q, a, [])] s'"
    by (rule send_empty_rel [OF n(1,2)])
  then show thesis using that emits_append [OF n(3)] by (simp add: reply_def)
qed

subsection \<open>The simulation\<close>

lemma ack_number: "(ucast (ucast (q :: u32) + n :: u64) :: u32) = q + of_nat (unat n)"
proof -
  have "(ucast q + n :: u64) = of_nat (unat q + unat n)" by simp
  then have "(ucast (ucast q + n :: u64) :: u32) = of_nat (unat q + unat n)"
    by (simp only:) (rule ucast_of_nat_down, simp)
  then show ?thesis by simp
qed

lemma fin_number: "(ucast (ucast (q :: u32) + n + 1 :: u64) :: u32) = q + of_nat (unat n) + 1"
proof -
  have "(ucast q + n + 1 :: u64) = of_nat (unat q + unat n + 1)" by simp
  then have "(ucast (ucast q + n + 1 :: u64) :: u32) = of_nat (unat q + unat n + 1)"
    by (simp only:) (rule ucast_of_nat_down, simp)
  then show ?thesis by simp
qed

text \<open>The handler on a consistent segment, in terms of the segment.\<close>

definition tcp_open_step :: "firmware \<Rightarrow> segment \<Rightarrow> nat \<Rightarrow> u64 \<Rightarrow> u64 \<Rightarrow> state \<Rightarrow> state option" where
  "tcp_open_step E g p hl n s = do {
     s \<leftarrow> tcp_take_payload p hl n s;
     s \<leftarrow> (if g_data g \<noteq> [] then reply E 0x10 (g_ack g) (g_seq g + of_nat (length (g_data g))) s else Some s);
     if is_fin g then do {
       s \<leftarrow> reply E 0x11 (g_ack g) (g_seq g + of_nat (length (g_data g)) + 1) s;
       Some (s\<lparr>tcp_state := 4\<rparr>) }
     else Some s }"

lemma handle_tcp_seg:
  assumes r: "ready s" and ok: "seg_ok ip (rx_pkt s) p" and loc: "tcp_local s p"
    and g: "g = seg_of ip (rx_pkt s) p"
  obtains hl n where "unat hl = tcp_hdr_len (rx_pkt s) p" "unat n = length (g_data g)"
    "handle_tcp E ip p dl s =
      (if is_rst g then Some (s\<lparr>tcp_state := 0, tcp_rx_done := True\<rparr>)
       else if tcp_state s = 1 then
         (if is_syn_ack g then do { s \<leftarrow> reply E 0x10 (g_ack g) (g_seq g + 1) s; Some (s\<lparr>tcp_state := 2\<rparr>) }
          else Some s)
       else if tcp_state s = 2 \<or> tcp_state s = 3 then tcp_open_step E g p hl n s
       else Some s)"
proof -
  define t where "t = dec_tcp (take 20 (drop p (rx_pkt s)))"
  define hl where "hl = (ucast (drop_bit 12 (ntohs (res1_doff_flags t)) AND 0x0F) * 4 :: u64)"
  define n where "n = (ucast (ntohs (ip_tot_len ip)) - ucast (ihl_version ip AND 0x0F) * 4 - hl :: u64)"
  have h: "unat hl = tcp_hdr_len (rx_pkt s) p" by (simp only: hl_def unat_quad tcp_hdr_len_def t_def)
  have n': "unat n = tcp_data_len ip (rx_pkt s) p"
    using ok payload_len_ok [of ip "rx_pkt s" p] by (simp add: seg_ok_def n_def hl_def t_def)
  then have n2: "unat n = length (g_data g)"
    using ok by (auto simp: g seg_of_def Let_def seg_ok_def min_def)
  then have z: "0 < n \<longleftrightarrow> g_data g \<noteq> []" by (auto simp: word_gt_0 unsigned_eq_0_iff)
  have un: "(ucast n :: u32) = of_nat (length (g_data g))" using n2 by (metis of_nat_unat)
  have gs: "g_flags g = ntohs (res1_doff_flags t) AND 0x3F" "g_seq g = ntohl (tcp_hseq t)"
    "g_ack g = ntohl (tcp_ack_seq t)"
    by (simp_all add: g seg_of_def Let_def t_def)
  have l: "load (rx_pkt s) p 20 = Some (take 20 (drop p (rx_pkt s)))"
    using ok by (simp add: load_def seg_ok_def)
  have "handle_tcp E ip p dl s =
      (if is_rst g then Some (s\<lparr>tcp_state := 0, tcp_rx_done := True\<rparr>)
       else if tcp_state s = 1 then
         (if is_syn_ack g then do { s \<leftarrow> reply E 0x10 (g_ack g) (g_seq g + 1) s; Some (s\<lparr>tcp_state := 2\<rparr>) }
          else Some s)
       else if tcp_state s = 2 \<or> tcp_state s = 3 then tcp_open_step E g p hl n s
       else Some s)"
    using loc
    by (simp add: handle_tcp_def l tcp_local_def const_vals Let_def tcp_open_step_def reply_def set_nums_def
        is_rst_def is_fin_def is_syn_ack_def gs z ack_number fin_number un
        flip: t_def hl_def n_def cong: if_cong)
  with h n2 that show thesis by blast
qed

lemma tcp_open_step_rel:
  assumes r: "ready s" and c: "tcp_rel s c" and ph: "c_phase c \<in> {Established, Fin_Wait}" and rst: "\<not> is_rst g"
    and b: "p + unat hl + unat n \<le> 4096" "unat n = length (g_data g)"
    and d: "g_data g = take (unat n) (drop (p + unat hl) (rx_pkt s))"
  shows "\<exists>s' c' out. tcp_open_step E g p hl n s = Some s' \<and> ready s' \<and>
    tcp_step c (Segment g) out c' \<and> tcp_rel s' c' \<and> emits s out s'"
proof -
  have ib: "inbox_rel s c" "tcp_rx_done s = c_signal c" using c by (simp_all add: tcp_rel_def)
  obtain s1 where s1: "tcp_take_payload p hl n s = Some s1" "ready s1" "tcp_rel s1 (deliver (g_data g) c)"
    "emits s [] s1"
  proof -
    from take_payload_rel [OF r ib b(1) d] obtain bf k dn where
      t: "tcp_take_payload p hl n s = Some (s\<lparr>tcp_rx_buffer := bf, tcp_rx_current_len := k, tcp_rx_done := dn\<rparr>)"
      "inbox_rel (s\<lparr>tcp_rx_buffer := bf, tcp_rx_current_len := k, tcp_rx_done := dn\<rparr>) (deliver (g_data g) c)"
      "dn = c_signal (deliver (g_data g) c)" by blast
    then show thesis
      using r c by (intro that [OF t(1)]) (simp_all add: ready_def tcp_rel_def emits_def endpoint_def sent_def)
  qed
  define q a where "q = g_ack g" and "a = g_seq g + of_nat (length (g_data g))"
  obtain s2 where s2: "(if g_data g \<noteq> [] then reply E 0x10 q a s1 else Some s1) = Some s2" "ready s2"
    "tcp_rel s2 (transfer g c)" "emits s (acks g) s2"
  proof (cases "g_data g = []")
    case True
    then show thesis using s1 by (intro that) (simp_all add: transfer_def acks_def deliver_def split: option.splits)
  next
    case False
    obtain s2 where "reply E 0x10 q a s1 = Some s2" "ready s2"
      "tcp_rel s2 ((deliver (g_data g) c)\<lparr>c_seq := q, c_ack := a\<rparr>)" "emits s1 [(0x10, q, a, [])] s2"
      by (rule reply_rel [OF s1(2,3)])
    then show thesis using False emits_append [OF s1(4)] that by (simp add: transfer_def acks_def q_def a_def)
  qed
  show ?thesis
  proof (cases "is_fin g")
    case False
    have "tcp_open_step E g p hl n s = Some s2"
      using s1(1) s2(1) False by (simp add: tcp_open_step_def q_def a_def split: if_splits)
    then show ?thesis using s2 tcp_step.data [OF rst ph False] by blast
  next
    case True
    obtain s3 where s3: "reply E 0x11 q (a + 1) s2 = Some s3" "ready s3"
      "tcp_rel s3 ((transfer g c)\<lparr>c_seq := q, c_ack := a + 1\<rparr>)" "emits s2 [(0x11, q, a + 1, [])] s3"
      by (rule reply_rel [OF s2(2,3)])
    have "(transfer g c)\<lparr>c_seq := q, c_ack := a + 1, c_phase := Closed_Done\<rparr> =
        (transfer g c)\<lparr>c_phase := Closed_Done, c_seq := q, c_ack := a + 1\<rparr>" by simp
    with set_state_rel [OF s3(2,3), of Closed_Done]
    have s4: "ready (s3\<lparr>tcp_state := 4\<rparr>)"
      "tcp_rel (s3\<lparr>tcp_state := 4\<rparr>) ((transfer g c)\<lparr>c_phase := Closed_Done, c_seq := q, c_ack := a + 1\<rparr>)"
      "emits s3 [] (s3\<lparr>tcp_state := 4\<rparr>)" by simp_all
    have "emits s (acks g @ [(0x11, q, a + 1, [])]) (s3\<lparr>tcp_state := 4\<rparr>)"
      using emits_append [OF s2(4) emits_append [OF s3(4) s4(3)]] by simp
    moreover have "tcp_open_step E g p hl n s = Some (s3\<lparr>tcp_state := 4\<rparr>)"
      using s1(1) s2(1) s3(1) True by (simp add: tcp_open_step_def flip: q_def a_def split: if_splits)
    moreover have "tcp_step c (Segment g) (acks g @ [(0x11, q, a + 1, [])])
        ((transfer g c)\<lparr>c_phase := Closed_Done, c_seq := q, c_ack := a + 1\<rparr>)"
      using tcp_step.fin [OF rst ph True] by (simp add: q_def a_def)
    ultimately show ?thesis using s4 by blast
  qed
qed

lemma handle_tcp_refines:
  assumes r: "ready s" and c: "tcp_rel s c" and ok: "seg_ok ip (rx_pkt s) p" and loc: "tcp_local s p"
  shows "\<exists>s' c' out. handle_tcp E ip p dl s = Some s' \<and> ready s' \<and>
    tcp_step c (Segment (seg_of ip (rx_pkt s) p)) out c' \<and> tcp_rel s' c' \<and> emits s out s'"
proof -
  define g where "g = seg_of ip (rx_pkt s) p"
  obtain hl n where hn: "unat hl = tcp_hdr_len (rx_pkt s) p" "unat n = length (g_data g)"
    and eq: "handle_tcp E ip p dl s =
      (if is_rst g then Some (s\<lparr>tcp_state := 0, tcp_rx_done := True\<rparr>)
       else if tcp_state s = 1 then
         (if is_syn_ack g then do { s \<leftarrow> reply E 0x10 (g_ack g) (g_seq g + 1) s; Some (s\<lparr>tcp_state := 2\<rparr>) }
          else Some s)
       else if tcp_state s = 2 \<or> tcp_state s = 3 then tcp_open_step E g p hl n s
       else Some s)"
    by (rule handle_tcp_seg [OF r ok loc g_def])
  have ts: "tcp_state s = phase_word (c_phase c)" using c by (simp add: tcp_rel_def)
  have "\<exists>s' c' out. handle_tcp E ip p dl s = Some s' \<and> ready s' \<and>
    tcp_step c (Segment g) out c' \<and> tcp_rel s' c' \<and> emits s out s'"
  proof (cases "is_rst g")
    case True
    moreover have "tcp_rel (s\<lparr>tcp_state := 0, tcp_rx_done := True\<rparr>) (c\<lparr>c_phase := Closed, c_signal := True\<rparr>)"
      using c by (auto simp: tcp_rel_def intro: inbox_rel_cong [of _ s _ c])
    ultimately show ?thesis using r eq tcp_step.reset [OF True]
      by (intro exI conjI) (auto simp: ready_def emits_def endpoint_def sent_def)
  next
    case rst: False
    consider "c_phase c = Syn_Sent" "is_syn_ack g" | "c_phase c = Syn_Sent" "\<not> is_syn_ack g"
      | "c_phase c \<in> {Established, Fin_Wait}" | "c_phase c \<in> {Closed, Closed_Done}"
      by (cases "c_phase c") auto
    then show ?thesis
    proof cases
      case 1
      obtain s1 where s1: "reply E 0x10 (g_ack g) (g_seq g + 1) s = Some s1" "ready s1"
        "tcp_rel s1 (c\<lparr>c_seq := g_ack g, c_ack := g_seq g + 1\<rparr>)" "emits s [(0x10, g_ack g, g_seq g + 1, [])] s1"
        by (rule reply_rel [OF r c])
      have "c\<lparr>c_seq := g_ack g, c_ack := g_seq g + 1, c_phase := Established\<rparr> =
          c\<lparr>c_phase := Established, c_seq := g_ack g, c_ack := g_seq g + 1\<rparr>" by simp
      with set_state_rel [OF s1(2,3), of Established]
      have s2: "ready (s1\<lparr>tcp_state := 2\<rparr>)"
        "tcp_rel (s1\<lparr>tcp_state := 2\<rparr>) (c\<lparr>c_phase := Established, c_seq := g_ack g, c_ack := g_seq g + 1\<rparr>)"
        "emits s1 [] (s1\<lparr>tcp_state := 2\<rparr>)" by simp_all
      show ?thesis
        using 1 s1 s2 rst eq ts tcp_step.establish [OF rst 1] emits_append [OF s1(4) s2(3)]
        by (intro exI [of _ "s1\<lparr>tcp_state := 2\<rparr>"] exI conjI) simp_all
    next
      case 2
      then show ?thesis using rst eq ts r c tcp_step.wait [OF rst 2]
        by (intro exI [of _ s] exI [of _ c] exI [of _ "[]"] conjI) simp_all
    next
      case 3
      have "length (rx_pkt s) = 4096" using r by (simp add: ready_def)
      then have "p + unat hl + unat n \<le> 4096" "g_data g = take (unat n) (drop (p + unat hl) (rx_pkt s))"
        using ok hn by (auto simp: g_def seg_of_def seg_ok_def Let_def min_def)
      then show ?thesis
        using tcp_open_step_rel [OF r c 3 rst _ hn(2), of p hl E] 3 eq rst ts by auto
    next
      case 4
      then show ?thesis using rst eq ts r c tcp_step.ignore [OF rst 4]
        by (intro exI [of _ s] exI [of _ c] exI [of _ "[]"] conjI) auto
    qed
  qed
  then show ?thesis by (simp add: g_def)
qed

lemma handle_tcp_foreign:
  assumes "ready s" "p + 20 \<le> 4096" "\<not> tcp_local s p"
  shows "handle_tcp E ip p dl s = Some s"
  using assms by (simp add: handle_tcp_def load_def ready_def tcp_local_def)

subsection \<open>A length that wraps\<close>

text \<open>
  The payload length is a difference in 64 bits.  A segment whose IP total length is below its two
  header lengths has a huge one: what follows the header in the receive page, whatever it is, fills
  the posted buffer, and the copy leaves the page when the buffer has more room than the page has
  bytes behind the header.
\<close>

lemma take_payload_fills:
  assumes r: "ready s" and buf: "tcp_rx_buffer s = Some buf" "unat (tcp_rx_max_len s) \<le> length buf"
    and k: "k = unat (tcp_rx_max_len s) - unat (tcp_rx_current_len s)" "0 < k" "k \<le> unat n"
  shows "tcp_take_payload p hl n s =
    (if p + unat hl + k \<le> 4096
     then Some (s\<lparr>tcp_rx_buffer := Some (take (unat (tcp_rx_current_len s)) buf @
         take k (drop (p + unat hl) (rx_pkt s)) @ drop (unat (tcp_rx_max_len s)) buf),
       tcp_rx_current_len := tcp_rx_max_len s, tcp_rx_done := True\<rparr>)
     else None)"
proof -
  define space where "space = tcp_rx_max_len s - tcp_rx_current_len s"
  have le: "unat (tcp_rx_current_len s) < unat (tcp_rx_max_len s)" using k by simp
  then have sp: "unat space = k" by (simp add: space_def k unat_sub_if')
  have z: "0 < n" "0 < space" using sp k by (simp_all add: word_less_nat_alt)
  have c: "(if n > space then space else n) = space"
    using sp k(3) by (auto simp: word_less_nat_alt word_unat_eq_iff)
  have cur: "tcp_rx_current_len s + space = tcp_rx_max_len s" by (simp add: space_def)
  have "local_mem_cpy buf (unat (tcp_rx_current_len s)) (rx_pkt s) (p + unat hl) k =
      (if p + unat hl + k \<le> 4096
       then Some (take (unat (tcp_rx_current_len s)) buf @ take k (drop (p + unat hl) (rx_pkt s)) @
         drop (unat (tcp_rx_max_len s)) buf) else None)"
    using r buf(2) le k by (simp add: mem_simps ready_def)
  then show ?thesis using buf z k
    by (simp add: tcp_take_payload_def Let_def c sp cur flip: space_def cong: if_cong split del: if_split)
      simp
qed


lemma reply_keeps:
  assumes "ready s"
  obtains s' where "reply E flags q a s = Some s'" "ready s'" "tcp_rx_done s' = tcp_rx_done s"
    "tcp_rx_current_len s' = tcp_rx_current_len s" "tcp_rx_buffer s' = tcp_rx_buffer s"
proof -
  have "ready (set_nums q a s)" using assms by (simp add: set_nums_def ready_def)
  then obtain s' i r tx tr where s': "send_tcp_internal E flags q a None 0 (set_nums q a s) = Some s'"
    "s' = set_nums q a s\<lparr>rng_seed := r, tx_pkt := tx, trace := tr\<rparr>" "ready s'"
    by (rule send_tcp_empty)
  show thesis by (rule that [of s']) (use s' in \<open>simp_all add: reply_def set_nums_def\<close>)
qed

lemma nibble_small: "unat (x AND 0x0F :: u16) \<le> 15" "unat (y AND 0x0F :: u8) \<le> 15"
  using word_and_le1 [of x "0x0F"] word_and_le1 [of y "0x0F"] by (simp_all add: word_le_nat_alt)

lemma tcp_length_underflow:
  assumes r: "ready s" and p: "p + 20 \<le> 4096" and loc: "tcp_local s p" and opn: "tcp_state s = 2 \<or> tcp_state s = 3"
    and t: "t = dec_tcp (take 20 (drop p (rx_pkt s)))" and rst: "ntohs (res1_doff_flags t) AND 0x04 = 0"
    and len: "unat (ntohs (ip_tot_len ip)) < ip_hdr_len ip + tcp_hdr_len (rx_pkt s) p"
    and buf: "tcp_rx_buffer s = Some buf" "unat (tcp_rx_max_len s) \<le> length buf"  "unat (tcp_rx_max_len s) < 2 ^ 63"
    and k: "k = unat (tcp_rx_max_len s) - unat (tcp_rx_current_len s)" "0 < k"
  shows "if p + tcp_hdr_len (rx_pkt s) p + k \<le> 4096
    then \<exists>s'. handle_tcp E ip p dl s = Some s' \<and> tcp_rx_done s' \<and> tcp_rx_current_len s' = tcp_rx_max_len s \<and>
      tcp_rx_buffer s' = Some (take (unat (tcp_rx_current_len s)) buf @
        take k (drop (p + tcp_hdr_len (rx_pkt s) p) (rx_pkt s)) @ drop (unat (tcp_rx_max_len s)) buf)
    else handle_tcp E ip p dl s = None"
proof -
  define hl where "hl = (ucast (drop_bit 12 (ntohs (res1_doff_flags t)) AND 0x0F) * 4 :: u64)"
  define il where "il = (ucast (ihl_version ip AND 0x0F) * 4 :: u64)"
  define n where "n = (ucast (ntohs (ip_tot_len ip)) - il - hl :: u64)"
  have h: "unat hl = tcp_hdr_len (rx_pkt s) p" "unat il = ip_hdr_len ip"
    by (simp_all only: hl_def il_def unat_quad tcp_hdr_len_def ip_hdr_len_def t)
  have l: "load (rx_pkt s) p 20 = Some (take 20 (drop p (rx_pkt s)))"
    using r p by (simp add: load_def ready_def)
  have small: "unat hl \<le> 60" "unat il \<le> 60"
    unfolding hl_def il_def unat_quad using nibble_small by simp_all
  have n63: "2 ^ 63 \<le> unat n"
    using len small unfolding h [symmetric] n_def by (simp add: unat_sub_if') linarith
  have kn: "k \<le> unat n" "0 < n" using n63 buf(3) k by (simp_all add: word_less_nat_alt)
  have not1: "tcp_state s \<noteq> 1" using opn by auto
  note f = take_payload_fills [OF r buf(1,2) k kn(1), of p hl, unfolded h]
  obtain q a rest where eq: "handle_tcp E ip p dl s = do {
      s \<leftarrow> tcp_take_payload p hl n s;
      s \<leftarrow> reply E 0x10 q a s;
      rest s }" and rest: "rest = (\<lambda>s. if ntohs (res1_doff_flags t) AND 0x3F AND 0x01 \<noteq> 0 then do {
        s \<leftarrow> reply E 0x11 q (a + 1) s; Some (s\<lparr>tcp_state := 4\<rparr>) } else Some s)"
  proof (rule that)
    show "handle_tcp E ip p dl s = do {
      s \<leftarrow> tcp_take_payload p hl n s;
      s \<leftarrow> reply E 0x10 (ntohl (tcp_ack_seq t)) (ucast (ucast (ntohl (tcp_hseq t)) + n)) s;
      (\<lambda>s. if ntohs (res1_doff_flags t) AND 0x3F AND 0x01 \<noteq> 0 then do {
        s \<leftarrow> reply E 0x11 (ntohl (tcp_ack_seq t)) (ucast (ucast (ntohl (tcp_hseq t)) + n) + 1) s; Some (s\<lparr>tcp_state := 4\<rparr>) } else Some s) s }"
      using loc opn not1 rst kn(2)
      by (simp add: handle_tcp_def l tcp_local_def const_vals Let_def reply_def set_nums_def ack_number fin_number and.assoc
        flip: t hl_def il_def n_def cong: if_cong)
  qed (rule refl)
  show ?thesis
  proof (cases "p + unat hl + k \<le> 4096")
    case False
    then show ?thesis using f eq h by simp
  next
    case True
    define s1 where "s1 = s\<lparr>tcp_rx_buffer := Some (take (unat (tcp_rx_current_len s)) buf @
         take k (drop (p + unat hl) (rx_pkt s)) @ drop (unat (tcp_rx_max_len s)) buf),
       tcp_rx_current_len := tcp_rx_max_len s, tcp_rx_done := True\<rparr>"
    have s1: "tcp_take_payload p hl n s = Some s1" "ready s1" 
      using f True r h by (simp_all add: s1_def ready_def)
    obtain s2 where s2: "reply E 0x10 q a s1 = Some s2" "ready s2" "tcp_rx_done s2 = tcp_rx_done s1"
      "tcp_rx_current_len s2 = tcp_rx_current_len s1" "tcp_rx_buffer s2 = tcp_rx_buffer s1"
      by (rule reply_keeps [OF s1(2)])
    obtain s3 where s3: "reply E 0x11 q (a + 1) s2 = Some s3" "ready s3" "tcp_rx_done s3 = tcp_rx_done s2"
      "tcp_rx_current_len s3 = tcp_rx_current_len s2" "tcp_rx_buffer s3 = tcp_rx_buffer s2"
      by (rule reply_keeps [OF s2(2)])
    show ?thesis using True s1(1) s2 s3 eq h by (auto simp: rest s1_def)
  qed
qed

end
