(* ===== verification/Net_Poll.thy ===== *)
theory Net_Poll
  imports Net_Handle_Arp Net_Icmp Net_Udp Net_Tcp_Refine
begin

text \<open>
  \<open>core::poll\<close> of \<^verbatim>\<open>core.hpp\<close>: one frame is received into the receive page and dispatched on its
  Ethernet type and IP protocol; an error other than \<open>EFI_NOT_READY\<close> resets the interface.  The
  lemmas give the dispatch table, the preservation of the invariant, and what a poll can mean to
  the TCP connection.
\<close>

definition rx_filters :: u32 where
  "rx_filters = SNP_FILTER_UNICAST OR SNP_FILTER_BROADCAST OR SNP_FILTER_ALL_MULTI"

definition dispatch_ipv4 :: "firmware \<Rightarrow> state \<Rightarrow> state option" where
  "dispatch_ipv4 E s = do {
     b \<leftarrow> load (rx_pkt s) 14 20;
     let ip = dec_ip b;
     let ip_hlen = (ucast (ihl_version ip AND 0x0F) * 0x04 :: u64);
     let ip_hlen = (if ip_hlen < IP_HDR_MIN_LEN then IP_HDR_MIN_LEN else ip_hlen);
     let p = 14 + unat ip_hlen;
     let len = ucast (ntohs (ip_tot_len ip)) - ip_hlen;
     if ip_protocol ip = IP_PROTO_ICMP then handle_icmp E ip p len s
     else if ip_protocol ip = IP_PROTO_UDP then handle_udp ip p len s
     else if ip_protocol ip = IP_PROTO_TCP then handle_tcp E ip p len s
     else Some s }"

definition dispatch :: "firmware \<Rightarrow> state \<Rightarrow> state option" where
  "dispatch E s = do {
     b \<leftarrow> load (rx_pkt s) 0 14;
     let eth = dec_eth b;
     if eth_type eth = htons ETHERTYPE_ARP then handle_arp E 14 s
     else if eth_type eth = htons ETHERTYPE_IPV4 then dispatch_ipv4 E s
     else Some s }"

definition poll :: "firmware \<Rightarrow> state \<Rightarrow> state option" where
  "poll E s = do {
     (status, s) \<leftarrow> snp_receive E PKT_BUF_SIZE s;
     if \<not> EFI_ERROR status then dispatch E s
     else if status \<noteq> EFI_NOT_READY then do {
       s \<leftarrow> snp_call SnpReset s;
       s \<leftarrow> snp_call (ReceiveFilters rx_filters) s;
       stall STALL_10MS s }
     else Some s }"

subsection \<open>Dispatch\<close>

text \<open>The IP header of the received page, and the clamped header length.\<close>

definition rx_ip :: "state \<Rightarrow> ip_hdr" where
  "rx_ip s = dec_ip (take 20 (drop 14 (rx_pkt s)))"

definition rx_hlen :: "state \<Rightarrow> nat" where
  "rx_hlen s = max 20 (ip_hdr_len (rx_ip s))"

definition rx_type :: "state \<Rightarrow> u16" where
  "rx_type s = ntohs (eth_type (dec_eth (take 14 (rx_pkt s))))"

lemma ip_hdr_len_le: "ip_hdr_len ip \<le> 60"
proof -
  have "unat (ihl_version ip AND 0x0F) \<le> unat (0x0F :: u8)"
    using word_and_le1 [of "ihl_version ip" "0x0F"] by (simp only: word_le_nat_alt)
  then show ?thesis by (simp add: ip_hdr_len_def)
qed

lemma rx_hlen_le: "20 \<le> rx_hlen s" "rx_hlen s \<le> 60"
  using ip_hdr_len_le [of "rx_ip s"] by (simp_all add: rx_hlen_def)

lemma dispatch_ipv4_eq:
  assumes r: "ready s"
  shows "dispatch_ipv4 E s =
    (let p = 14 + rx_hlen s; len = (ucast (ntohs (ip_tot_len (rx_ip s))) - of_nat (rx_hlen s) :: u64)
     in if ip_protocol (rx_ip s) = 1 then handle_icmp E (rx_ip s) p len s
        else if ip_protocol (rx_ip s) = 17 then handle_udp (rx_ip s) p len s
        else if ip_protocol (rx_ip s) = 6 then handle_tcp E (rx_ip s) p len s
        else Some s)"
proof -
  define h where "h = (ucast (ihl_version (rx_ip s) AND 0x0F) * 4 :: u64)"
  have u: "unat h = ip_hdr_len (rx_ip s)" by (simp only: h_def unat_quad ip_hdr_len_def)
  have k: "h < 0x14 \<Longrightarrow> rx_hlen s = 20" "\<not> h < 0x14 \<Longrightarrow> unat h = rx_hlen s"
    using u by (simp_all add: rx_hlen_def word_less_nat_alt)
  then have "\<not> h < 0x14 \<Longrightarrow> h = of_nat (rx_hlen s)" by (metis of_nat_unat ucast_id)
  then show ?thesis
    using r k load_hdr [OF r, of 14 20]
    by (cases "h < 0x14") (simp_all add: dispatch_ipv4_def const_vals Let_def flip: rx_ip_def h_def)
qed

lemma dispatch_eq:
  assumes r: "ready s"
  shows "dispatch E s =
    (if rx_type s = 0x0806 then handle_arp E 14 s
     else if rx_type s = 0x0800 then dispatch_ipv4 E s else Some s)"
  using load_hdr [OF r, of 0 14] net16.to_net_eq_host [of _ "eth_type (dec_eth (take 14 (rx_pkt s)))"]
  by (auto simp: dispatch_def const_vals Let_def rx_type_def net16.eq_to_net_host)

interpretation dispatch_op: keeps_ready "dispatch E"
proof
  fix s s'
  assume r: "ready s" and d: "dispatch E s = Some s'"
  show "ready s'"
    using d handle_arp_total [OF r, of 14 E] icmp_handler.op_ready [OF r] udp_handler.op_ready [OF r]
      tcp_handler.op_ready [OF r] r
    by (auto simp: dispatch_eq [OF r] dispatch_ipv4_eq [OF r] Let_def split: if_splits)
qed

interpretation poll_op: keeps_ready "poll E"
proof
  fix s s'
  assume r: "ready s" and h: "poll E s = Some s'"
  from h obtain st s1 where s1: "snp_receive E PKT_BUF_SIZE s = Some (st, s1)"
    and s2: "(if \<not> EFI_ERROR st then dispatch E s1
      else if st \<noteq> EFI_NOT_READY then do {
       s \<leftarrow> snp_call SnpReset s1; s \<leftarrow> snp_call (ReceiveFilters rx_filters) s; stall STALL_10MS s }
      else Some s1) = Some s'"
    by (auto simp: poll_def elim!: bind_Some_E)
  have r1: "ready s1" by (rule ready_receive [OF r s1])
  then show "ready s'"
    using s2 dispatch_op.op_ready [OF r1]
    by (auto simp: snp_call_def stall_def ready_def call_def split: if_splits)
qed

subsection \<open>What a poll can mean to the connection\<close>

definition tcp_view :: "state \<Rightarrow> u32 \<times> u32 \<times> u32 \<times> bool \<times> bytes option \<times> u64 \<times> u64 \<times> u16 \<times> u16 \<times> u32" where
  "tcp_view s = (tcp_state s, tcp_seq s, tcp_ack s, tcp_rx_done s, tcp_rx_buffer s, tcp_rx_max_len s,
     tcp_rx_current_len s, tcp_local_port s, tcp_remote_port s, tcp_remote_ip s)"

lemma tcp_rel_view: "tcp_view s' = tcp_view s \<Longrightarrow> tcp_rel s' c = tcp_rel s c"
  by (simp add: tcp_view_def tcp_rel_def inbox_rel_def split: option.split)

text \<open>An operation the connection does not notice.\<close>

locale keeps_tcp = keeps_ready op for op :: "state \<Rightarrow> state option" +
  assumes op_view: "ready s \<Longrightarrow> op s = Some s' \<Longrightarrow> tcp_view s' = tcp_view s"
begin

lemma op_rel: "ready s \<Longrightarrow> tcp_rel s c \<Longrightarrow> op s = Some s' \<Longrightarrow> ready s' \<and> tcp_rel s' c"
  using op_ready op_view tcp_rel_view by blast

end

lemma sends_view: "sends s f s' \<Longrightarrow> tcp_view s' = tcp_view s"
  by (auto simp: sends_def tcp_view_def)

lemma get_u32_view [simp]: "tcp_view (s\<lparr>rng_seed := r\<rparr>) = tcp_view s"
  by (simp add: tcp_view_def)

interpretation transmit_tcp: keeps_tcp "transmit_frame E pkt len"
  by unfold_locales (use transmit_frame_defined sends_view in blast)

interpretation stall_tcp: keeps_tcp "stall us"
  by unfold_locales (auto simp: stall_def call_def tcp_view_def split: if_splits)

interpretation arp_tcp: keeps_tcp "handle_arp E 14"
proof
  fix s s'
  assume r: "ready s" and h: "handle_arp E 14 s = Some s'"
  show "ready s'" using handle_arp_total [OF r, of 14 E] h by auto
  show "tcp_view s' = tcp_view s"
    by (rule handle_arp_cases [OF r _ refl, of 14 E])
      (use h in \<open>auto simp: arp_learn_def tcp_view_def dest: sends_view [unfolded tcp_view_def]\<close>)
qed

lemma icmp_reply_view:
  "ready s \<Longrightarrow> icmp_reply E pkt0 ip p len s = Some s' \<Longrightarrow> tcp_view s' = tcp_view s"
  using transmit_tcp.op_view [of "s\<lparr>rng_seed := fst (get_u32 s)\<rparr>"]
  by (auto simp: icmp_reply_def Let_def get_u32_def bind_Some_iff split: if_splits)

interpretation icmp_tcp: keeps_tcp "handle_icmp E ip p len"
proof
  fix s s'
  assume r: "ready s" and h: "handle_icmp E ip p len s = Some s'"
  show "tcp_view s' = tcp_view s"
    using h icmp_reply_view [OF r] by (auto simp: handle_icmp_def Let_def bind_Some_iff tcp_view_def split: if_splits)
qed

lemma user_datagram_view: "handle_user_datagram p u s = Some s' \<Longrightarrow> tcp_view s' = tcp_view s"
  by (drule handle_user_datagram_frame, erule conjE, erule ssubst) (simp add: tcp_view_def)

lemma dns_response_view: "handle_dns_response p s = Some s' \<Longrightarrow> tcp_view s' = tcp_view s"
  by (drule handle_dns_response_frame, erule conjE, erule ssubst) (simp add: tcp_view_def)

interpretation udp_tcp: keeps_tcp "handle_udp ip p len"
proof
  fix s s'
  assume r: "ready s" and h: "handle_udp ip p len s = Some s'"
  show "tcp_view s' = tcp_view s"
    using h by (auto simp: handle_udp_def Let_def bind_Some_iff split: if_splits
        dest!: user_datagram_view dns_response_view)
qed

text \<open>A received page whose TCP segment, if it is one for us, has consistent lengths.\<close>

definition tcp_sound :: "state \<Rightarrow> bool" where
  "tcp_sound s \<longleftrightarrow>
     (rx_type s = 0x0800 \<and> ip_protocol (rx_ip s) = 6 \<and> tcp_local s (14 + rx_hlen s) \<longrightarrow>
      seg_ok (rx_ip s) (rx_pkt s) (14 + rx_hlen s))"

lemma dispatch_tcp:
  assumes r: "ready s" and c: "tcp_rel s c" and snd: "tcp_sound s" and d: "dispatch E s = Some s'"
  shows "tcp_rel s' c \<or> (\<exists>out c'. tcp_rel s' c' \<and>
    tcp_step c (Segment (seg_of (rx_ip s) (rx_pkt s) (14 + rx_hlen s))) out c')"
proof (cases "rx_type s = 0x0800 \<and> ip_protocol (rx_ip s) = 6 \<and> tcp_local s (14 + rx_hlen s)")
  case True
  then show ?thesis
    using handle_tcp_refines [OF r c _ conjunct2 [OF conjunct2 [OF True]], of "rx_ip s" E
        "ucast (ntohs (ip_tot_len (rx_ip s))) - of_nat (rx_hlen s)"] snd d
    by (auto simp: tcp_sound_def dispatch_eq [OF r] dispatch_ipv4_eq [OF r] Let_def)
next
  case False
  have p: "14 + rx_hlen s + 20 \<le> 4096" using rx_hlen_le [of s] by simp
  have "tcp_rel s' c"
    using d False handle_tcp_foreign [OF r p] arp_tcp.op_rel [OF r c] icmp_tcp.op_rel [OF r c]
      udp_tcp.op_rel [OF r c] c
    by (auto simp: dispatch_eq [OF r] dispatch_ipv4_eq [OF r] Let_def split: if_splits)
  then show ?thesis ..
qed

lemma receive_view: "snp_receive E n s = Some (st, s') \<Longrightarrow> tcp_view s' = tcp_view s"
  by (auto simp: snp_receive_def snp_call_def call_def tcp_view_def Let_def split: prod.splits if_splits)

text \<open>The network delivers only such pages.\<close>

definition net_sound :: "firmware \<Rightarrow> bool" where
  "net_sound E \<longleftrightarrow>
     (\<forall>s st s1. ready s \<longrightarrow> snp_receive E 4096 s = Some (st, s1) \<longrightarrow> \<not> EFI_ERROR st \<longrightarrow> tcp_sound s1)"

lemma poll_tcp:
  assumes r: "ready s" and c: "tcp_rel s c" and n: "net_sound E" and d: "poll E s = Some s'"
  shows "ready s' \<and> (\<exists>es outs c'. tcp_rel s' c' \<and> tcp_run c es outs c' \<and> (\<forall>e\<in>set es. \<exists>g. e = Segment g) \<and> length es \<le> 1)"
proof
  show "ready s'" by (rule poll_op.op_ready [OF r d])
  from d obtain st s1 where s1: "snp_receive E 4096 s = Some (st, s1)"
    and s2: "(if \<not> EFI_ERROR st then dispatch E s1
      else if st \<noteq> EFI_NOT_READY then do {
       s \<leftarrow> snp_call SnpReset s1; s \<leftarrow> snp_call (ReceiveFilters rx_filters) s; stall STALL_10MS s }
      else Some s1) = Some s'"
    by (auto simp: poll_def PKT_BUF_SIZE_def elim!: bind_Some_E)
  have r1: "ready s1" by (rule ready_receive [OF r s1])
  have c1: "tcp_rel s1 c" using tcp_rel_view [OF receive_view [OF s1]] c by simp
  show "\<exists>es outs c'. tcp_rel s' c' \<and> tcp_run c es outs c' \<and> (\<forall>e\<in>set es. \<exists>g. e = Segment g) \<and> length es \<le> 1"
  proof (cases "EFI_ERROR st")
    case False
    then have "tcp_sound s1" using n r s1 by (auto simp: net_sound_def)
    moreover have "dispatch E s1 = Some s'" using s2 False by simp
    ultimately have "tcp_rel s' c \<or> (\<exists>out c'. tcp_rel s' c' \<and>
        tcp_step c (Segment (seg_of (rx_ip s1) (rx_pkt s1) (14 + rx_hlen s1))) out c')"
      by (rule dispatch_tcp [OF r1 c1])
    then show ?thesis
    proof (elim disjE exE conjE)
      assume "tcp_rel s' c"
      then show ?thesis by (intro exI [of _ "[]"] exI [of _ c]) (simp add: tcp_run.stop)
    next
      fix out c'
      assume "tcp_rel s' c'" "tcp_step c (Segment (seg_of (rx_ip s1) (rx_pkt s1) (14 + rx_hlen s1))) out c'"
      then show ?thesis
        using tcp_run_single [of c "Segment (seg_of (rx_ip s1) (rx_pkt s1) (14 + rx_hlen s1))" out c'] by fastforce
    qed
  next
    case True
    then have "tcp_view s' = tcp_view s1"
      using s2 by (auto simp: snp_call_def stall_def call_def tcp_view_def split: if_splits)
    then have "tcp_rel s' c" using tcp_rel_view c1 by blast
    then show ?thesis by (intro exI [of _ "[]"] exI [of _ c]) (simp add: tcp_run.stop)
  qed
qed

end
