(* ===== verification/Net_Samples.thy ===== *)
theory Net_Samples
  imports Net_Poll
begin

text \<open>
  Concrete inputs: an initialised stack, a silent network, and the received pages the witnesses
  use.  Nothing here models code.
\<close>

definition sample_state :: state where
  "sample_state = initial_state\<lparr>bs_ptr := True, rt_ptr := True, st_ptr := True, snp_ptr := True,
     rx_pkt := replicate 4096 0, tx_pkt := replicate 4096 0,
     my_mac := [0x52, 0x54, 0, 0x12, 0x34, 0x56] @ replicate 26 0, my_ip := 0x0F02000A,
     router_ip := 0x0202000A, router_mac := [0x52, 0x55, 0x0A, 0, 2, 2],
     dns_server_ip := 0x0302000A\<rparr>"

text \<open>A firmware whose interface never has a frame and completes every transmission at once.\<close>

definition silent_net :: firmware where
  "silent_net = \<lparr>fw_time = (\<lambda>_. \<lparr>Year = 2024, Month = 1, Day = 2, Hour = 3, Minute = 4, Second = 5\<rparr>),
     fw_allocate = (\<lambda>_. (EFI_SUCCESS, \<lambda>_. 0)), fw_locate = (\<lambda>_. (EFI_SUCCESS, 1)),
     fw_open = (\<lambda>_. EFI_SUCCESS), fw_started = (\<lambda>_. True), fw_address = (\<lambda>_. of_nat),
     fw_tx_status = (\<lambda>_. (EFI_SUCCESS, True)), fw_transmit = (\<lambda>_. EFI_SUCCESS),
     fw_receive = (\<lambda>_. (EFI_NOT_READY, [])), fw_con_out = True\<rparr>"

definition page_of :: "bytes \<Rightarrow> bytes" where
  "page_of b = b @ replicate (4096 - length b) 0"

lemma length_page_of [simp]: "length b \<le> 4096 \<Longrightarrow> length (page_of b) = 4096"
  by (simp add: page_of_def)

lemma ready_sample [simp]: "ready sample_state"
  by (simp add: ready_def sample_state_def initial_state_def empty_cache_inv)

lemma ready_sample_page [simp]: "length b \<le> 4096 \<Longrightarrow> ready (sample_state\<lparr>rx_pkt := page_of b\<rparr>)"
  by (simp add: ready_def sample_state_def initial_state_def empty_cache_inv)

subsection \<open>A connection with a posted buffer, and a data segment for it\<close>

definition sample_ip :: ip_hdr where
  "sample_ip = \<lparr>ihl_version = 0x45, ip_tos = 0, ip_tot_len = htons 43, ip_id = 0, ip_frag_off = 0,
     ip_ttl = 64, ip_protocol = 6, ip_check = 0, ip_saddr = 0x0101A8C0, ip_daddr = 0x0F02000A\<rparr>"

definition sample_tcp :: "u8 \<Rightarrow> tcp_hdr" where
  "sample_tcp flags = \<lparr>tcp_source = htons 80, tcp_dest = htons 50000, tcp_hseq = htonl 1000,
     tcp_ack_seq = htonl 500, res1_doff_flags = htons (0x5000 OR ucast flags), tcp_window = htons 1024,
     tcp_check = 0, tcp_urg_ptr = 0\<rparr>"

definition sample_eth :: eth_hdr where
  "sample_eth = \<lparr>eth_dst = replicate 6 0, eth_src = replicate 6 1, eth_type = htons 0x0800\<rparr>"

definition sample_tcp_frame :: "u8 \<Rightarrow> bytes" where
  "sample_tcp_frame flags = enc_eth sample_eth @ enc_ip sample_ip @ enc_tcp (sample_tcp flags) @ [1, 2, 3]"

definition sample_conn_state :: "u8 \<Rightarrow> state" where
  "sample_conn_state flags =
     sample_state\<lparr>rx_pkt := page_of (sample_tcp_frame flags), tcp_local_port := 50000, tcp_remote_port := 80,
       tcp_remote_ip := 0x0101A8C0, tcp_seq := 500, tcp_ack := 1000, tcp_state := 2,
       tcp_rx_buffer := Some (replicate 8 0), tcp_rx_max_len := 8\<rparr>"

definition sample_conn :: conn where
  "sample_conn = \<lparr>c_phase = Established, c_seq = 500, c_ack = 1000, c_inbox = Some [], c_cap = 8,
     c_signal = False\<rparr>"

lemma length_sample_tcp_frame [simp]: "length (sample_tcp_frame flags) = 57"
  by (simp add: sample_tcp_frame_def hdr_lengths sample_eth_def)

lemma ready_sample_conn [simp]: "ready (sample_conn_state flags)"
  by (simp add: ready_def sample_conn_state_def sample_state_def initial_state_def empty_cache_inv)

lemma rel_sample_conn [simp]: "tcp_rel (sample_conn_state flags) sample_conn"
  by (simp add: tcp_rel_def inbox_rel_def sample_conn_state_def sample_conn_def sample_state_def initial_state_def)

lemma rx_sample_conn: "rx_pkt (sample_conn_state flags) =
    enc_eth sample_eth @ enc_ip sample_ip @ enc_tcp (sample_tcp flags) @ [1, 2, 3] @ replicate 4039 0"
  by (simp add: sample_conn_state_def page_of_def) (simp add: sample_tcp_frame_def)

lemma dec_sample_tcp:
  "dec_tcp (take 20 (drop 34 (rx_pkt (sample_conn_state flags)))) = sample_tcp flags"
  "drop 54 (rx_pkt (sample_conn_state flags)) = [1, 2, 3] @ replicate 4039 0"
  using tcp.dec_enc [of "sample_tcp flags" "[]"]
  by (simp_all add: rx_sample_conn hdr_lengths sample_eth_def)

lemma sample_lengths:
  "ip_hdr_len sample_ip = 20" "tcp_hdr_len (rx_pkt (sample_conn_state flags)) 34 = 20"
  "tcp_data_len sample_ip (rx_pkt (sample_conn_state flags)) 34 = 3"
  by (simp_all add: ip_hdr_len_def sample_ip_def tcp_hdr_len_def tcp_data_len_def dec_sample_tcp sample_tcp_def
      ntohs_def htons_htons)

lemma sample_seg_ok [simp]: "seg_ok sample_ip (rx_pkt (sample_conn_state flags)) 34"
  using ready_sample_conn [of flags]
  by (simp add: seg_ok_def sample_lengths ready_def) (simp add: sample_ip_def ntohs_def htons_htons)

lemma sample_local [simp]: "tcp_local (sample_conn_state flags) 34"
  by (simp add: tcp_local_def dec_sample_tcp) (simp add: sample_tcp_def ntohs_def htons_htons sample_conn_state_def)

end
