(* ===== verification/Net_Console.thy ===== *)
theory Net_Console
  imports Net_Globals
begin

text \<open>
  \<^verbatim>\<open>io.hpp\<close>: the console helpers.  A wide string is the list of its characters before the
  terminating zero; the local arrays of the integer printers are lists whose length is checked
  against the declared size at every write.  \<open>console\<close> is the text the firmware has been given;
  the lemmas say what each helper adds to it.
\<close>

type_synonym wide = "u16 list"

definition wstr :: "string \<Rightarrow> wide" where
  "wstr cs = map of_char cs"

abbreviation crlf :: wide where "crlf \<equiv> [0x0D, 0x0A]"

definition print_str :: "firmware \<Rightarrow> wide \<Rightarrow> state \<Rightarrow> state" where
  "print_str E str s = (if st_ptr s \<and> fw_con_out E then call (OutputString str) s else s)"

lemma unat_pos: "(w :: 'a::len word) \<noteq> 0 \<Longrightarrow> 0 < unat w"
  by (metis gr0I unsigned_eq_0_iff)

function dec_loop :: "u64 \<Rightarrow> wide \<Rightarrow> wide option" where
  "dec_loop val tmp =
     (if val > 0
      then if length tmp < 0x16
           then dec_loop (val div 0x0A) (tmp @ [ucast (0x30 + val mod 0x0A)])
           else None
      else Some tmp)"
  by pat_completeness auto
termination
  by (relation "measure (\<lambda>(val, tmp). unat val)") (auto simp: word_gt_0 unat_div unat_pos intro!: div_less_dividend)

declare dec_loop.simps [simp del]

definition print_dec :: "firmware \<Rightarrow> u64 \<Rightarrow> state \<Rightarrow> state option" where
  "print_dec E val s =
     (if val = 0 then Some (print_str E (wstr ''0'') s)
      else do {
        tmp \<leftarrow> dec_loop val [];
        if length tmp < 0x16 then Some (print_str E (rev tmp) s) else None })"

definition hex_digit :: "u64 \<Rightarrow> u16" where
  "hex_digit d = ucast (if d < 0x0A then 0x30 + d else 0x41 + d - 0x0A)"

function hex_loop :: "u64 \<Rightarrow> wide \<Rightarrow> wide option" where
  "hex_loop val tmp =
     (if val > 0
      then if length tmp < 0x14
           then hex_loop (drop_bit 0x04 val) (tmp @ [hex_digit (val AND 0x0F)])
           else None
      else Some tmp)"
  by pat_completeness auto
termination
  by (relation "measure (\<lambda>(val, tmp). unat val)")
    (auto simp: word_gt_0 unat_drop_bit_eq drop_bit_eq_div unat_pos unat_div intro!: div_less_dividend)

declare hex_loop.simps [simp del]

definition print_hex :: "firmware \<Rightarrow> u64 \<Rightarrow> state \<Rightarrow> state option" where
  "print_hex E val s =
     (if val = 0 then Some (print_str E (wstr ''0x0'') s)
      else do {
        tmp \<leftarrow> hex_loop val [];
        if 0x02 + length tmp < 0x14 then Some (print_str E (wstr ''0x'' @ rev tmp) s) else None })"

definition print_ip :: "firmware \<Rightarrow> u32 \<Rightarrow> state \<Rightarrow> state option" where
  "print_ip E ip s = do {
     s \<leftarrow> print_dec E (ucast (ip AND 0xFF)) s;
     let s = print_str E (wstr ''.'') s;
     s \<leftarrow> print_dec E (ucast (drop_bit 0x08 ip AND 0xFF)) s;
     let s = print_str E (wstr ''.'') s;
     s \<leftarrow> print_dec E (ucast (drop_bit 0x10 ip AND 0xFF)) s;
     let s = print_str E (wstr ''.'') s;
     print_dec E (ucast (drop_bit 0x18 ip AND 0xFF)) s }"

definition mac_digit :: "u8 \<Rightarrow> u16" where
  "mac_digit d = ucast (if d < 0x0A then 0x30 + d else 0x41 + d - 0x0A)"

fun mac_loop :: "firmware \<Rightarrow> bytes \<Rightarrow> nat \<Rightarrow> nat \<Rightarrow> state \<Rightarrow> state option" where
  "mac_loop E mac i 0 s = Some s"
| "mac_loop E mac i (Suc n) s = do {
     let s = (if i > 0 then print_str E (wstr '':'') s else s);
     b \<leftarrow> rd mac i;
     let hi = drop_bit 0x04 b AND 0x0F;
     let lo = b AND 0x0F;
     let s = print_str E [mac_digit hi, mac_digit lo] s;
     mac_loop E mac (i + 1) n s }"

definition print_mac :: "firmware \<Rightarrow> bytes \<Rightarrow> state \<Rightarrow> state option" where
  "print_mac E mac s = mac_loop E mac 0 ETH_ALEN s"

definition print_status :: "firmware \<Rightarrow> wide \<Rightarrow> efi_status \<Rightarrow> state \<Rightarrow> state option" where
  "print_status E label status s = do {
     let s = print_str E label s;
     let s = print_str E (wstr '' Status: '') s;
     s \<leftarrow> print_hex E status s;
     Some (print_str E crlf s) }"

text \<open>\<open>CHAR8\<close> is a signed character: a byte from 0x80 on is sign-extended to 16 bits.\<close>

fun ascii_loop :: "firmware \<Rightarrow> bytes \<Rightarrow> nat \<Rightarrow> nat \<Rightarrow> state \<Rightarrow> state option" where
  "ascii_loop E str i 0 s = Some s"
| "ascii_loop E str i (Suc n) s = do {
     b \<leftarrow> rd str i;
     let c = (scast b :: u16);
     s \<leftarrow> (if c = 0x0A
          then do {
            bare \<leftarrow> (if i = 0 then Some True
                     else do { q \<leftarrow> rd str (i - 1); Some (q \<noteq> 0x0D) });
            Some (if bare then print_str E [0x0D] s else s) }
          else Some s);
     let s = print_str E (if c = 0 then [] else [c]) s;
     ascii_loop E str (i + 1) n s }"

definition print_ascii_n :: "firmware \<Rightarrow> bytes option \<Rightarrow> u64 \<Rightarrow> state \<Rightarrow> state option" where
  "print_ascii_n E str len s =
     (case str of None \<Rightarrow> Some s | Some b \<Rightarrow> ascii_loop E b 0 (unat len) s)"

subsection \<open>What is on the console\<close>

fun console :: "fw_call list \<Rightarrow> wide" where
  "console [] = []"
| "console (OutputString w # tr) = console tr @ w"
| "console (_ # tr) = console tr"

text \<open>
  \<open>shows_text E w s s'\<close>: from \<open>s\<close> to \<open>s'\<close> the console gained exactly \<open>w\<close> (nothing where there is
  no console), and nothing but the history changed.
\<close>

definition shows_text :: "firmware \<Rightarrow> wide \<Rightarrow> state \<Rightarrow> state \<Rightarrow> bool" where
  "shows_text E w s s' \<longleftrightarrow>
     (\<exists>ev. s' = s\<lparr>trace := ev @ trace s\<rparr> \<and> list_all (\<lambda>c. \<exists>x. c = OutputString x) ev \<and>
        console ev = (if st_ptr s \<and> fw_con_out E then w else []))"

lemma console_append: "console (a @ b) = console b @ console a"
  by (induction a rule: console.induct) auto

lemma shows_text_console:
  "shows_text E w s s' \<Longrightarrow> console (trace s') = console (trace s) @ (if st_ptr s \<and> fw_con_out E then w else [])"
  by (auto simp: shows_text_def console_append)

lemma shows_text_refl [simp]: "shows_text E [] s s"
  unfolding shows_text_def by (intro exI [of _ "[]"]) simp

lemma shows_text_trans:
  assumes "shows_text E a s s1" "shows_text E b s1 s2"
  shows "shows_text E (a @ b) s s2"
proof -
  obtain e1 e2 where "s1 = s\<lparr>trace := e1 @ trace s\<rparr>" "list_all (\<lambda>c. \<exists>x. c = OutputString x) e1"
    "console e1 = (if st_ptr s \<and> fw_con_out E then a else [])"
    "s2 = s1\<lparr>trace := e2 @ trace s1\<rparr>" "list_all (\<lambda>c. \<exists>x. c = OutputString x) e2"
    "console e2 = (if st_ptr s1 \<and> fw_con_out E then b else [])"
    using assms by (auto simp: shows_text_def)
  then show ?thesis
    unfolding shows_text_def by (intro exI [of _ "e2 @ e1"]) (simp add: console_append)
qed

lemma print_str_shows: "shows_text E w s (print_str E w s)"
proof (cases "st_ptr s \<and> fw_con_out E")
  case True
  then show ?thesis
    unfolding shows_text_def by (intro exI [of _ "[OutputString w]"]) (simp add: print_str_def call_def)
next
  case False
  then show ?thesis
    unfolding shows_text_def by (intro exI [of _ "[]"]) (auto simp: print_str_def)
qed

lemma shows_text_ready: "shows_text E w s s' \<Longrightarrow> ready s' = ready s"
  by (auto simp: shows_text_def)

subsection \<open>Integers\<close>

text \<open>The digits of a number, least significant first, and the number digits denote.\<close>

function digits :: "nat \<Rightarrow> nat \<Rightarrow> nat list" where
  "digits base n = (if n = 0 \<or> base < 2 then [] else n mod base # digits base (n div base))"
  by pat_completeness auto
termination
  by (relation "measure (\<lambda>(base, n). n)") auto

declare digits.simps [simp del]

definition digits_value :: "nat \<Rightarrow> nat list \<Rightarrow> nat" where
  "digits_value base ds = foldr (\<lambda>d a. d + base * a) ds 0"

lemma digits_value_digits: "1 < base \<Longrightarrow> digits_value base (digits base n) = n"
proof (induction base n rule: digits.induct)
  case (1 base n)
  then show ?case by (subst digits.simps) (auto simp: digits_value_def)
qed

lemma digits_less: "1 < base \<Longrightarrow> d \<in> set (digits base n) \<Longrightarrow> d < base"
proof (induction base n rule: digits.induct)
  case (1 base n)
  then show ?case by (subst (asm) (2) digits.simps) (auto split: if_splits)
qed

lemma digits_zero [simp]: "digits base 0 = []"
  by (subst digits.simps) simp

lemma digits_pos: "1 < base \<Longrightarrow> 0 < n \<Longrightarrow> digits base n = n mod base # digits base (n div base)"
  by (subst digits.simps) simp

lemma digits_last: "1 < base \<Longrightarrow> 0 < n \<Longrightarrow> digits base n \<noteq> [] \<and> last (digits base n) \<noteq> 0"
proof (induction base n rule: digits.induct)
  case (1 base n)
  have d: "digits base n = n mod base # digits base (n div base)" using "1.prems" by (rule digits_pos)
  show ?case
  proof (cases "n div base = 0")
    case True
    then have "n mod base \<noteq> 0" using "1.prems" by (metis div_mult_mod_eq mult_zero_left add_0 less_irrefl)
    then show ?thesis unfolding d True by simp
  next
    case False
    then have "digits base (n div base) \<noteq> [] \<and> last (digits base (n div base)) \<noteq> 0"
      using "1.IH" "1.prems" by simp
    then show ?thesis unfolding d by simp
  qed
qed

lemma length_digits: "1 < base \<Longrightarrow> n < base ^ k \<Longrightarrow> length (digits base n) \<le> k"
proof (induction k arbitrary: n)
  case 0
  then show ?case by (subst digits.simps) simp
next
  case (Suc k)
  then have "n div base < base ^ k" by (simp add: less_mult_imp_div_less mult.commute)
  then show ?case using Suc by (subst digits.simps) simp
qed

text \<open>
  What the two printers share: a loop that divides by the base and appends the characters of the
  remainders to an array of \<open>cap\<close> characters.
\<close>

locale digit_loop =
  fixes base cap :: nat and chr :: "nat \<Rightarrow> u16" and num :: "u16 \<Rightarrow> nat"
    and loop :: "u64 \<Rightarrow> wide \<Rightarrow> wide option"
  assumes base: "1 < base"
    and num_chr: "d < base \<Longrightarrow> num (chr d) = d"
    and loop_zero: "loop 0 tmp = Some tmp"
    and loop_step: "0 < unat v \<Longrightarrow> length tmp < cap \<Longrightarrow>
      \<exists>v'. loop v tmp = loop v' (tmp @ [chr (unat v mod base)]) \<and> unat v' = unat v div base"
begin

lemma loop_digits:
  "length tmp + length (digits base (unat v)) \<le> cap \<Longrightarrow> loop v tmp = Some (tmp @ map chr (digits base (unat v)))"
proof (induction "unat v" arbitrary: v tmp rule: less_induct)
  case less
  show ?case
  proof (cases "unat v = 0")
    case True
    moreover have "v = 0" using True by (simp add: unsigned_eq_0_iff)
    ultimately show ?thesis by (simp add: loop_zero)
  next
    case False
    have d: "digits base (unat v) = unat v mod base # digits base (unat v div base)"
      using False base by (intro digits_pos) simp_all
    obtain v' where v': "loop v tmp = loop v' (tmp @ [chr (unat v mod base)])" "unat v' = unat v div base"
      using loop_step [of v tmp] False less.prems unfolding d by auto
    have "loop v' (tmp @ [chr (unat v mod base)]) =
        Some ((tmp @ [chr (unat v mod base)]) @ map chr (digits base (unat v')))"
      using False base less.prems v'(2) unfolding d by (intro less.hyps) simp_all
    then show ?thesis unfolding v'(1) d v'(2) by simp
  qed
qed

lemma map_num: "map num (map chr (digits base n)) = digits base n"
  using digits_less [OF base] by (simp add: map_idI num_chr o_def cong: map_cong)

lemma value_of_text: "digits_value base (rev (map num (rev (map chr (digits base n))))) = n"
  using map_num [of n] digits_value_digits [OF base, of n] by (simp add: rev_map)

end

definition dec_chr :: "nat \<Rightarrow> u16" where "dec_chr d = of_nat (0x30 + d)"
definition hex_chr :: "nat \<Rightarrow> u16" where "hex_chr d = of_nat (if d < 10 then 0x30 + d else 0x37 + d)"
definition dec_num :: "u16 \<Rightarrow> nat" where "dec_num c = unat c - 0x30"
definition hex_num :: "u16 \<Rightarrow> nat" where "hex_num c = (if c < 0x41 then unat c - 0x30 else unat c - 0x37)"

lemma ucast_add_small: "(ucast (numeral k + w :: u64) :: u16) = of_nat (numeral k + unat w)"
proof -
  have "(numeral k + w :: u64) = of_nat (numeral k + unat w)" by simp
  then show ?thesis by (simp only: ucast_of_nat_64_16)
qed

lemma unat_nibble: "unat (v AND 0x0F :: u64) = unat v mod 16"
proof -
  have "(0x0F :: u64) = mask 4" by (simp add: mask_eq_exp_minus_1)
  then have "v AND 0x0F = take_bit 4 v" by (simp add: take_bit_eq_mask)
  then show ?thesis by (simp add: take_bit_eq_mod unat_mod)
qed

lemma dec_loop_step:
  assumes "0 < unat v" "length tmp < 0x16"
  shows "dec_loop v tmp = dec_loop (v div 10) (tmp @ [dec_chr (unat v mod 10)]) \<and> unat (v div 10) = unat v div 10"
proof -
  have "0 < v" using assms(1) by (simp add: word_less_nat_alt)
  moreover have "unat (v mod 10) = unat v mod 10" by (simp add: unat_mod)
  ultimately show ?thesis
    using assms(2) by (subst dec_loop.simps) (simp add: ucast_add_small dec_chr_def unat_div)
qed

lemma hex_digit_chr: "hex_digit (v AND 0x0F) = hex_chr (unat v mod 16)"
proof -
  let ?d = "v AND 0x0F"
  have e: "0x41 + ?d - 0x0A = 0x37 + ?d" by simp
  have "?d < 0x0A \<longleftrightarrow> unat v mod 16 < 10" by (simp add: word_less_nat_alt unat_nibble)
  then show ?thesis
    unfolding hex_digit_def e by (simp add: hex_chr_def ucast_add_small unat_nibble)
qed

lemma hex_loop_step:
  assumes "0 < unat v" "length tmp < 0x14"
  shows "hex_loop v tmp = hex_loop (drop_bit 4 v) (tmp @ [hex_chr (unat v mod 16)]) \<and>
    unat (drop_bit 4 v) = unat v div 16"
proof -
  have "0 < v" using assms(1) by (simp add: word_less_nat_alt)
  then show ?thesis
    using assms(2) by (subst hex_loop.simps) (simp add: hex_digit_chr unat_drop_bit_eq drop_bit_eq_div unat_div)
qed

interpretation dec: digit_loop 10 22 dec_chr dec_num dec_loop
proof
  show "dec_num (dec_chr d) = d" if "d < 10" for d
    using that unat_of_nat_16 [of "0x30 + d"] by (simp add: dec_num_def dec_chr_def)
  show "dec_loop 0 tmp = Some tmp" for tmp by (subst dec_loop.simps) simp
  show "\<exists>v'. dec_loop v tmp = dec_loop v' (tmp @ [dec_chr (unat v mod 10)]) \<and> unat v' = unat v div 10"
    if "0 < unat v" "length tmp < 0x16" for v tmp
    using dec_loop_step [OF that] by blast
qed simp

interpretation hex: digit_loop 16 20 hex_chr hex_num hex_loop
proof
  show "hex_num (hex_chr d) = d" if "d < 16" for d
  proof -
    have "unat (of_nat (0x30 + d) :: u16) = 0x30 + d" "unat (of_nat (0x37 + d) :: u16) = 0x37 + d"
      using that by (simp_all only: unat_of_nat_16)
    then show ?thesis by (auto simp: hex_num_def hex_chr_def word_less_nat_alt)
  qed
  show "hex_loop 0 tmp = Some tmp" for tmp by (subst hex_loop.simps) simp
  show "\<exists>v'. hex_loop v tmp = hex_loop v' (tmp @ [hex_chr (unat v mod 16)]) \<and> unat v' = unat v div 16"
    if "0 < unat v" "length tmp < 0x14" for v tmp
    using hex_loop_step [OF that] by blast
qed simp

definition decimal :: "nat \<Rightarrow> wide" where
  "decimal n = (if n = 0 then [0x30] else rev (map dec_chr (digits 10 n)))"

definition hexadecimal :: "nat \<Rightarrow> wide" where
  "hexadecimal n = [0x30, 0x78] @ (if n = 0 then [0x30] else rev (map hex_chr (digits 16 n)))"

text \<open>The arrays are large enough for every 64-bit value, and the text is the number's.\<close>

lemma print_dec_eq: "print_dec E val s = Some (print_str E (decimal (unat val)) s)"
proof (cases "val = 0")
  case True
  then show ?thesis by (simp add: print_dec_def decimal_def wstr_def)
next
  case False
  have "length (digits 10 (unat val)) \<le> 20"
    using unat_lt_2_64 [of val] by (intro length_digits) simp_all
  then show ?thesis
    using False dec.loop_digits [of "[]" val]
    by (simp add: print_dec_def decimal_def unsigned_eq_0_iff)
qed

lemma print_hex_eq: "print_hex E val s = Some (print_str E (hexadecimal (unat val)) s)"
proof (cases "val = 0")
  case True
  then show ?thesis by (simp add: print_hex_def hexadecimal_def wstr_def)
next
  case False
  have "length (digits 16 (unat val)) \<le> 16"
    using unat_lt_2_64 [of val] by (intro length_digits) simp_all
  then show ?thesis
    using False hex.loop_digits [of "[]" val]
    by (simp add: print_hex_def hexadecimal_def unsigned_eq_0_iff wstr_def)
qed

lemma decimal_value: "digits_value 10 (rev (map dec_num (decimal n))) = n"
  using dec.value_of_text [of n] by (simp add: decimal_def dec_num_def digits_value_def)

lemma hexadecimal_value: "digits_value 16 (rev (map hex_num (drop 2 (hexadecimal n)))) = n"
  using hex.value_of_text [of n] by (simp add: hexadecimal_def hex_num_def digits_value_def)

lemma decimal_digits: "\<forall>c \<in> set (decimal n). 0x30 \<le> unat c \<and> unat c \<le> 0x39"
proof
  fix c assume c: "c \<in> set (decimal n)"
  have "\<exists>d < 10. c = dec_chr d"
    using c digits_less [of 10 _ n] by (auto simp: decimal_def dec_chr_def intro: exI [of _ "0 :: nat"] split: if_splits)
  then obtain d where "d < 10" "c = dec_chr d" by blast
  then show "0x30 \<le> unat c \<and> unat c \<le> 0x39"
    using unat_of_nat_16 [of "0x30 + d"] by (simp add: dec_chr_def)
qed

lemma decimal_inj: "decimal m = decimal n \<longleftrightarrow> m = n"
  by (metis decimal_value)

subsection \<open>Addresses\<close>

definition dotted :: "u8 \<Rightarrow> u8 \<Rightarrow> u8 \<Rightarrow> u8 \<Rightarrow> wide" where
  "dotted a b c d =
     decimal (unat a) @ [0x2E] @ decimal (unat b) @ [0x2E] @ decimal (unat c) @ [0x2E] @ decimal (unat d)"

lemma unat_octet: "unat (ucast (x AND 0xFF :: u32) :: u64) = unat (ucast x :: u8)"
proof -
  have "x AND 0xFF = x AND mask 8" by (simp add: mask_eq_exp_minus_1)
  also have "\<dots> = take_bit 8 x" by (simp only: take_bit_eq_mask)
  finally have "unat (x AND 0xFF) = unat x mod 256" by (simp add: take_bit_eq_mod unat_mod)
  then show ?thesis by (simp add: unsigned_ucast_eq take_bit_eq_mod)
qed

lemma print_dec_shows: "\<exists>s'. print_dec E val s = Some s' \<and> shows_text E (decimal (unat val)) s s'"
  using print_str_shows by (simp add: print_dec_eq)

text \<open>The octets come out in memory order, the lowest byte of the word first.\<close>

lemma print_ip_shows:
  "\<exists>s'. print_ip E ip s = Some s' \<and>
    shows_text E (dotted (ucast ip) (ucast (drop_bit 8 ip)) (ucast (drop_bit 16 ip)) (ucast (drop_bit 24 ip))) s s'"
proof -
  let ?a = "decimal (unat (ucast ip :: u8))" and ?b = "decimal (unat (ucast (drop_bit 8 ip) :: u8))"
    and ?c = "decimal (unat (ucast (drop_bit 16 ip) :: u8))" and ?d = "decimal (unat (ucast (drop_bit 24 ip) :: u8))"
  let ?p = "print_str E" and ?o = "[0x2E] :: wide"
  have "print_ip E ip s = Some (?p ?d (?p ?o (?p ?c (?p ?o (?p ?b (?p ?o (?p ?a s)))))))"
    by (simp add: print_ip_def print_dec_eq unat_octet wstr_def)
  moreover have "shows_text E (?a @ ?o @ ?b @ ?o @ ?c @ ?o @ ?d) s
      (?p ?d (?p ?o (?p ?c (?p ?o (?p ?b (?p ?o (?p ?a s)))))))"
    by ((rule shows_text_trans, rule print_str_shows)+, rule print_str_shows)
  ultimately show ?thesis unfolding dotted_def by blast
qed

subsection \<open>Text\<close>

definition two_hex :: "u8 \<Rightarrow> wide" where
  "two_hex b = [hex_chr (unat b div 16), hex_chr (unat b mod 16)]"

fun mac_text :: "bytes \<Rightarrow> wide" where
  "mac_text [] = []"
| "mac_text [b] = two_hex b"
| "mac_text (b # c # r) = two_hex b @ [0x3A] @ mac_text (c # r)"

lemma mac_digit_chr: "unat d < 16 \<Longrightarrow> mac_digit d = hex_chr (unat d)"
proof -
  assume d: "unat d < 16"
  have e: "0x41 + d - 0x0A = 0x37 + d" by simp
  have "unat (0x30 + d) = 0x30 + unat d" "unat (0x37 + d) = 0x37 + unat d"
    using d by (simp_all add: unat_word_ariths)
  moreover have "ucast w = (of_nat (unat w) :: u16)" for w :: u8 by simp
  ultimately show ?thesis
    unfolding mac_digit_def e by (simp add: hex_chr_def word_less_nat_alt del: of_nat_unat)
qed

lemma nibbles: "unat (drop_bit 4 b AND 0x0F :: u8) = unat b div 16" "unat (b AND 0x0F :: u8) = unat b mod 16"
proof -
  have m: "(0x0F :: u8) = mask 4" by (simp add: mask_eq_exp_minus_1)
  have "b AND 0x0F = b mod 16" for b :: u8 unfolding m by (simp flip: take_bit_eq_mask add: take_bit_eq_mod)
  moreover have "unat b div 16 < 16" using unat_lt_256 [of b] by simp
  ultimately show "unat (drop_bit 4 b AND 0x0F) = unat b div 16" "unat (b AND 0x0F) = unat b mod 16"
    by (simp_all add: unat_mod drop_bit_eq_div unat_div)
qed

lemma mac_digits: "[mac_digit (drop_bit 4 b AND 0x0F), mac_digit (b AND 0x0F)] = two_hex b"
  using nibbles [of b] unat_lt_256 [of b] mac_digit_chr [of "drop_bit 4 b AND 0x0F"] mac_digit_chr [of "b AND 0x0F"]
  by (simp add: two_hex_def)

lemma mac_loop_shows:
  "i + n \<le> length mac \<Longrightarrow> \<exists>s'. mac_loop E mac i n s = Some s' \<and>
    shows_text E (if i = 0 \<or> n = 0 then mac_text (take n (drop i mac)) else [0x3A] @ mac_text (take n (drop i mac))) s s'"
proof (induction n arbitrary: i s)
  case (Suc n)
  define s1 where "s1 = (if i > 0 then print_str E [0x3A] s else s)"
  define s2 where "s2 = print_str E (two_hex (mac ! i)) s1"
  have s1: "shows_text E (if i = 0 then [] else [0x3A]) s s1" by (simp add: s1_def print_str_shows)
  have s2: "shows_text E (two_hex (mac ! i)) s1 s2" by (simp add: s2_def print_str_shows)
  obtain s3 where s3: "mac_loop E mac (i + 1) n s2 = Some s3"
    "shows_text E (if n = 0 then mac_text (take n (drop (i + 1) mac)) else [0x3A] @ mac_text (take n (drop (i + 1) mac))) s2 s3"
    using Suc.IH [of "i + 1" s2] Suc.prems by auto
  have eq: "mac_loop E mac i (Suc n) s = Some s3"
    using s3(1) Suc.prems by (simp add: s2_def s1_def wstr_def Let_def mac_digits cong: if_cong)
  have d: "take (Suc n) (drop i mac) = mac ! i # take n (drop (i + 1) mac)"
    using Suc.prems by (simp add: Cons_nth_drop_Suc [symmetric])
  have "two_hex (mac ! i) @ (if n = 0 then mac_text (take n (drop (i + 1) mac)) else [0x3A] @ mac_text (take n (drop (i + 1) mac)))
      = mac_text (take (Suc n) (drop i mac))"
    unfolding d using Suc.prems by (cases "take n (drop (i + 1) mac)") (auto simp: take_eq_Nil neq_Nil_conv intro: gr0I)
  with shows_text_trans [OF s1 shows_text_trans [OF s2 s3(2)]] eq show ?case by auto
qed simp

lemma print_mac_shows:
  "6 \<le> length mac \<Longrightarrow> \<exists>s'. print_mac E mac s = Some s' \<and> shows_text E (mac_text (take 6 mac)) s s'"
  using mac_loop_shows [of 0 6 mac E s] by (simp add: print_mac_def const_vals)

text \<open>The text of an ASCII buffer: bare line feeds get a carriage return, zero bytes print nothing.\<close>

fun expand :: "u8 \<Rightarrow> bytes \<Rightarrow> wide" where
  "expand q [] = []"
| "expand q (b # r) =
     (if b = 0x0A \<and> q \<noteq> 0x0D then [0x0D] else []) @ (if b = 0 then [] else [scast b]) @ expand b r"

lemma scast_eq_iff: "(scast (b :: u8) :: u16) = scast c \<longleftrightarrow> b = c"
proof
  assume h: "(scast b :: u16) = scast c"
  show "b = c"
  proof (rule bit_word_eqI)
    fix n assume "n < LENGTH(8)"
    then show "bit b n \<longleftrightarrow> bit c n"
      using arg_cong [OF h, of "\<lambda>w. bit w n"] by (simp add: bit_simps)
  qed
qed simp

lemma ascii_loop_shows:
  "i + n \<le> length str \<Longrightarrow> \<exists>s'. ascii_loop E str i n s = Some s' \<and>
    shows_text E (expand (if i = 0 then 0 else str ! (i - 1)) (take n (drop i str))) s s'"
proof (induction n arbitrary: i s)
  case (Suc n)
  define b q where "b = str ! i" and "q = (if i = 0 then 0 else str ! (i - 1))"
  define s1 where "s1 = (if b = 0x0A \<and> q \<noteq> 0x0D then print_str E [0x0D] s else s)"
  define s2 where "s2 = print_str E (if b = 0 then [] else [scast b]) s1"
  have s1: "shows_text E (if b = 0x0A \<and> q \<noteq> 0x0D then [0x0D] else []) s s1"
    by (simp add: s1_def print_str_shows)
  have s2: "shows_text E (if b = 0 then [] else [scast b]) s1 s2"
    by (simp add: s2_def print_str_shows)
  obtain s3 where s3: "ascii_loop E str (i + 1) n s2 = Some s3"
    "shows_text E (expand b (take n (drop (i + 1) str))) s2 s3"
    using Suc.IH [of "i + 1" s2] Suc.prems by (auto simp: b_def)
  have c: "(scast b :: u16) = 0x0A \<longleftrightarrow> b = 0x0A" "(scast b :: u16) = 0 \<longleftrightarrow> b = 0"
    using scast_eq_iff [of b "0x0A"] scast_eq_iff [of b 0] by simp_all
  have "ascii_loop E str i (Suc n) s = Some s3"
    using s3(1) Suc.prems c by (auto simp: s2_def s1_def q_def simp flip: b_def)
  moreover have "take (Suc n) (drop i str) = b # take n (drop (i + 1) str)"
    using Suc.prems by (simp add: Cons_nth_drop_Suc [symmetric] b_def)
  ultimately show ?case
    using shows_text_trans [OF s1 shows_text_trans [OF s2 s3(2)]] by (auto simp: q_def)
qed simp

lemma print_ascii_shows:
  "unat len \<le> length b \<Longrightarrow> \<exists>s'. print_ascii_n E (Some b) len s = Some s' \<and>
    shows_text E (expand 0 (take (unat len) b)) s s'"
  using ascii_loop_shows [of 0 "unat len" b E s] by (simp add: print_ascii_n_def)

text \<open>On the console every line feed is preceded by a carriage return.\<close>

fun lf_ok :: "u16 \<Rightarrow> wide \<Rightarrow> bool" where
  "lf_ok q [] = True"
| "lf_ok q (c # r) \<longleftrightarrow> (c = 0x0A \<longrightarrow> q = 0x0D) \<and> lf_ok c r"

lemma expand_lf_ok: "0 \<notin> set bs \<Longrightarrow> lf_ok (scast q) (expand q bs)"
proof (induction bs arbitrary: q)
  case (Cons b r)
  have c: "(scast b :: u16) = 0x0A \<longleftrightarrow> b = 0x0A" "(scast q :: u16) = 0x0D \<longleftrightarrow> q = 0x0D"
    using scast_eq_iff [of b "0x0A"] scast_eq_iff [of q "0x0D"] by simp_all
  have "lf_ok (scast b) (expand b r)" using Cons by simp
  moreover have "(scast (0x0A :: u8) :: u16) = 0x0A" by simp
  ultimately show ?case using c Cons.prems by (auto simp del: signed_take_bit_numeral_bit0)
qed simp

lemma hexadecimal_prefix: "[0x30, 0x78] @ drop 2 (hexadecimal n) = hexadecimal n"
  by (simp add: hexadecimal_def)

end
