(* ===== verification/Net_Effects.thy ===== *)
theory Net_Effects
  imports Net_Poll
begin

text \<open>
  What a received frame can change.  \<open>config\<close> are the fields of \<^verbatim>\<open>globals.hpp\<close> that only the API
  writes; \<open>handled s s'\<close> says that they are untouched, that no frame was received, that the posted
  buffers keep their place and size, that a flag an API call waits for is never taken back, and that
  the length of a received datagram stays within the posted size.
  Every handler of \<^verbatim>\<open>core.hpp\<close> has this effect, so a poll has it too, but for the one frame it
  receives.
\<close>

definition config_of :: "state \<Rightarrow> (bool \<times> bool \<times> bool \<times> bool \<times> u64) \<times> (bytes \<times> u32 \<times> u32 \<times> u32 \<times> u32 \<times> u32 \<times> u32) \<times>
    (u32 \<times> u16 \<times> u16 \<times> u16 \<times> u16 \<times> u32 \<times> u16 \<times> u16 \<times> u16) \<times> (u64 \<times> nat option \<times> u64 \<times> nat option)" where
  "config_of s =
     ((bs_ptr s, rt_ptr s, st_ptr s, snp_ptr s, image_handle s),
      (my_mac s, my_ip s, subnet_mask s, router_ip s, dhcp_server_ip s, dns_server_ip s, dhcp_lease_time s),
      (arp_target_ip s, dns_current_id s, dns_local_port s, tcp_local_port s, tcp_remote_port s,
       tcp_remote_ip s, udp_local_port s, ping_id s, ping_seq s),
      (tcp_rx_max_len s, map_option length (tcp_rx_buffer s), udp_rx_max_len s, map_option length (udp_rx_buffer s)))"

fun receptions :: "fw_call list \<Rightarrow> nat" where
  "receptions [] = 0"
| "receptions (Receive n # tr) = Suc (receptions tr)"
| "receptions (_ # tr) = receptions tr"

lemma receptions_append: "receptions (a @ b) = receptions a + receptions b"
  by (induction a rule: receptions.induct) auto

lemma receptions_quiet: "list_all quiet a \<Longrightarrow> receptions a = 0"
  by (induction a) (auto simp: quiet_def)

definition polls :: "state \<Rightarrow> nat" where
  "polls s = receptions (trace s)"

lemma polls_call [simp]: "polls (call c s) = (case c of Receive n \<Rightarrow> Suc (polls s) | _ \<Rightarrow> polls s)"
  by (cases c) (simp_all add: polls_def call_def)

definition udp_len_ok :: "state \<Rightarrow> bool" where
  "udp_len_ok s \<longleftrightarrow> udp_rx_current_len s \<le> udp_rx_max_len s"

lemma udp_len_ok_updates [simp]:
  "udp_len_ok (s\<lparr>trace := tr\<rparr>) = udp_len_ok s" "udp_len_ok (s\<lparr>rx_pkt := x\<rparr>) = udp_len_ok s"
  "udp_len_ok (call c s) = udp_len_ok s"
  by (simp_all add: udp_len_ok_def call_def)

definition flags_kept :: "state \<Rightarrow> state \<Rightarrow> bool" where
  "flags_kept s s' \<longleftrightarrow> (arp_resolved s \<longrightarrow> arp_resolved s') \<and> (dns_resolved s \<longrightarrow> dns_resolved s') \<and>
     (ping_reply_received s \<longrightarrow> ping_reply_received s') \<and> (udp_rx_done s \<longrightarrow> udp_rx_done s') \<and>
     (tcp_rx_done s \<longrightarrow> tcp_rx_done s') \<and>
     (udp_len_ok s \<longrightarrow> udp_len_ok s')"

definition handled :: "state \<Rightarrow> state \<Rightarrow> bool" where
  "handled s s' \<longleftrightarrow> config_of s' = config_of s \<and> polls s' = polls s \<and> flags_kept s s'"

lemma handled_refl [simp]: "handled s s"
  by (simp add: handled_def flags_kept_def)

lemma handled_trans: "handled a b \<Longrightarrow> handled b c \<Longrightarrow> handled a c"
  by (simp add: handled_def flags_kept_def)

lemma sends_handled: "sends s f s' \<Longrightarrow> handled s s'"
  by (auto simp: sends_def handled_def flags_kept_def udp_len_ok_def config_of_def polls_def receptions_append receptions_quiet)

lemma handled_updates [simp]:
  "handled a (s\<lparr>rng_seed := r\<rparr>) = handled a s"
  "handled a (s\<lparr>tcp_seq := q\<rparr>) = handled a s"
  "handled a (s\<lparr>tcp_ack := q\<rparr>) = handled a s"
  "handled a (s\<lparr>tcp_state := t\<rparr>) = handled a s"
  by (simp_all add: handled_def flags_kept_def udp_len_ok_def config_of_def polls_def)

text \<open>The contract, and the handlers that fulfil it.\<close>

locale handles = keeps_ready op for op :: "state \<Rightarrow> state option" +
  assumes op_handled: "ready s \<Longrightarrow> op s = Some s' \<Longrightarrow> handled s s'"
begin

lemma op_from: "handled a s \<Longrightarrow> ready s \<Longrightarrow> op s = Some s' \<Longrightarrow> handled a s' \<and> ready s'"
  using op_handled op_ready handled_trans by blast

end

interpretation transmit_eff: handles "transmit_frame E pkt len"
  by unfold_locales (use transmit_frame_defined sends_handled in blast)

interpretation arp_eff: handles "handle_arp E 14"
proof
  fix s s'
  assume r: "ready s" and h: "handle_arp E 14 s = Some s'"
  show "handled s s'"
    by (rule handle_arp_cases [OF r _ refl, of 14 E])
      (use h in \<open>auto simp: arp_learn_def handled_def config_of_def udp_len_ok_def flags_kept_def polls_def
         dest: sends_handled [unfolded handled_def config_of_def udp_len_ok_def flags_kept_def polls_def]\<close>)
qed

lemma icmp_reply_handled: "ready s \<Longrightarrow> icmp_reply E pkt0 ip p len s = Some s' \<Longrightarrow> handled s s'"
  using transmit_eff.op_from [of s "s\<lparr>rng_seed := fst (get_u32 s)\<rparr>"]
  by (auto simp: icmp_reply_def Let_def get_u32_def bind_Some_iff split: if_splits)

interpretation icmp_eff: handles "handle_icmp E ip p len"
proof
  fix s s'
  assume r: "ready s" and h: "handle_icmp E ip p len s = Some s'"
  have "handled s (s\<lparr>ping_reply_received := True\<rparr>)"
    by (simp add: handled_def config_of_def udp_len_ok_def flags_kept_def polls_def)
  then show "handled s s'"
    using h icmp_reply_handled [OF r] by (auto simp: handle_icmp_def Let_def bind_Some_iff split: if_splits)
qed

lemma user_datagram_handled: "handle_user_datagram p u s = Some s' \<Longrightarrow> handled s s'"
  unfolding handle_user_datagram_def Let_def
  by (auto simp: handled_def flags_kept_def udp_len_ok_def config_of_def polls_def bind_Some_iff length_local_mem_cpy
      split: option.splits if_splits)

lemma dns_response_handled: "handle_dns_response p s = Some s' \<Longrightarrow> handled s s'"
  unfolding handle_dns_response_def Let_def
  by (auto simp: handled_def flags_kept_def udp_len_ok_def config_of_def polls_def bind_Some_iff split: option.splits if_splits)

interpretation udp_eff: handles "handle_udp ip p len"
proof
  fix s s'
  assume r: "ready s" and h: "handle_udp ip p len s = Some s'"
  show "handled s s'"
    using h by (auto simp: handle_udp_def Let_def bind_Some_iff split: if_splits
        intro: handled_trans dest!: user_datagram_handled dns_response_handled)
qed

lemma send_tcp_handled:
  "ready s \<Longrightarrow> send_tcp_internal E flags seq ack data n s = Some s' \<Longrightarrow> handled s s' \<and> ready s'"
  using transmit_eff.op_from [of s "s\<lparr>rng_seed := fst (get_u32 s)\<rparr>"]
  unfolding send_tcp_internal_def Let_def
  by (auto simp: get_u32_def Let_def bind_Some_iff simp del: zero_hdr_fields)

lemma tcp_numbers_handled:
  "handled a s \<Longrightarrow> ready s \<Longrightarrow> send_tcp_internal E fl q k None 0 (s\<lparr>tcp_seq := q', tcp_ack := k'\<rparr>) = Some s' \<Longrightarrow>
   handled a s' \<and> ready s'"
  using send_tcp_handled [of "s\<lparr>tcp_seq := q', tcp_ack := k'\<rparr>"] handled_trans [of a "s\<lparr>tcp_seq := q', tcp_ack := k'\<rparr>" s']
  by simp

lemma tcp_take_payload_handled: "tcp_take_payload p hl n s = Some s' \<Longrightarrow> handled s s'"
  unfolding tcp_take_payload_def Let_def
  by (auto simp: handled_def flags_kept_def udp_len_ok_def config_of_def polls_def bind_Some_iff length_local_mem_cpy
      split: option.splits if_splits)

lemma may_reply_handled:
  assumes "handled a s" "ready s"
    "(if c then send_tcp_internal E fl q k None 0 (s\<lparr>tcp_seq := q', tcp_ack := k'\<rparr>) else Some s) = Some s'"
  shows "handled a s' \<and> ready s'"
proof (cases c)
  case True
  with assms(3) have "send_tcp_internal E fl q k None 0 (s\<lparr>tcp_seq := q', tcp_ack := k'\<rparr>) = Some s'"
    by (simp only: if_True)
  then show ?thesis by (rule tcp_numbers_handled [OF assms(1,2)])
next
  case False
  with assms show ?thesis by (simp only: if_False option.inject)
qed

lemma may_close_handled:
  assumes "handled a s" "ready s"
    "(if c then send_tcp_internal E fl q k None 0 (s\<lparr>tcp_seq := q', tcp_ack := k'\<rparr>) \<bind>
       (\<lambda>s. Some (s\<lparr>tcp_state := x\<rparr>)) else Some s) = Some s'"
  shows "handled a s'"
proof (cases c)
  case True
  with assms(3) obtain s1 where
    "send_tcp_internal E fl q k None 0 (s\<lparr>tcp_seq := q', tcp_ack := k'\<rparr>) = Some s1" "s' = s1\<lparr>tcp_state := x\<rparr>"
    by (auto simp only: if_True elim!: bind_Some_E)
  then show ?thesis using tcp_numbers_handled [OF assms(1,2)] by (simp only: handled_updates)
next
  case False
  with assms show ?thesis by (simp only: if_False option.inject)
qed

lemma tcp_open_handled:
  assumes "ready s" "tcp_take_payload p hl n s = Some s1"
    and "(if c1 then send_tcp_internal E f1 q1 a1 None 0 (s1\<lparr>tcp_seq := q1', tcp_ack := a1'\<rparr>) else Some s1) = Some s2"
    and "(if c2 then send_tcp_internal E f2 q2 a2 None 0 (s2\<lparr>tcp_seq := q2', tcp_ack := a2'\<rparr>) \<bind>
        (\<lambda>s. Some (s\<lparr>tcp_state := x\<rparr>)) else Some s2) = Some s'"
  shows "handled s s'"
  using may_reply_handled [OF tcp_take_payload_handled [OF assms(2)] tcp_take_payload_ready [OF assms(1,2)] assms(3)]
    may_close_handled [OF _ _ assms(4)] by blast

lemma reset_handled: "handled s (s\<lparr>tcp_state := x, tcp_rx_done := True\<rparr>)"
  by (simp add: handled_def config_of_def udp_len_ok_def flags_kept_def polls_def)

interpretation tcp_eff: handles "handle_tcp E ip p data_len"
proof
  fix s s'
  assume r: "ready s" and h: "handle_tcp E ip p data_len s = Some s'"
  show "handled s s'"
    using h r unfolding handle_tcp_def Let_def
    by (elim bind_Some_E) (simp only: split: if_split_asm; (elim bind_Some_E)?;
        (erule (3) tcp_open_handled
         | (simp only: option.inject, hypsubst, rule reset_handled)
         | (drule (1) tcp_numbers_handled [OF handled_refl], simp only: option.inject, hypsubst, simp only: handled_updates)
         | simp))
qed

interpretation dispatch_eff: handles "dispatch E"
proof
  fix s s'
  assume r: "ready s" and d: "dispatch E s = Some s'"
  show "handled s s'"
    using d arp_eff.op_handled [OF r] icmp_eff.op_handled [OF r] udp_eff.op_handled [OF r] tcp_eff.op_handled [OF r]
    by (auto simp: dispatch_eq [OF r] dispatch_ipv4_eq [OF r] Let_def split: if_splits)
qed

subsection \<open>Polls\<close>

lemma receive_effect:
  "snp_receive E n s = Some (st, s') \<Longrightarrow>
   config_of s' = config_of s \<and> polls s' = Suc (polls s) \<and> flags_kept s s' \<and> tcp_view s' = tcp_view s"
  by (auto simp: snp_receive_def snp_call_def call_def config_of_def polls_def flags_kept_def tcp_view_def Let_def
      split: prod.splits if_splits)

text \<open>A poll receives exactly one frame, leaves the configuration alone and takes no flag back.\<close>

lemma poll_effect:
  assumes r: "ready s" and p: "poll E s = Some s'"
  shows "config_of s' = config_of s \<and> polls s' = Suc (polls s) \<and> flags_kept s s'"
proof -
  from p obtain st s1 where s1: "snp_receive E PKT_BUF_SIZE s = Some (st, s1)"
    and s2: "(if \<not> EFI_ERROR st then dispatch E s1
      else if st \<noteq> EFI_NOT_READY then do {
       s \<leftarrow> snp_call SnpReset s1; s \<leftarrow> snp_call (ReceiveFilters rx_filters) s; stall STALL_10MS s }
      else Some s1) = Some s'"
    by (auto simp: poll_def elim!: bind_Some_E)
  have "handled s1 s'"
    using s2 dispatch_eff.op_handled [OF ready_receive [OF r s1]]
    by (auto simp: snp_call_def stall_def call_def handled_def config_of_def polls_def flags_kept_def split: if_splits)
  then show ?thesis using receive_effect [OF s1] by (simp add: handled_def flags_kept_def)
qed

end
