(* ===== verification/Net_Wait.thy ===== *)
theory Net_Wait
  imports Net_Effects
begin

text \<open>
  The wait loops of \<^verbatim>\<open>api.hpp\<close>.  Every blocking call of the API is one of two loops around
  \<open>core::poll\<close>: a plain wait, and a wait that repeats a transmission whenever its retransmission
  counter has run down.  The loop counters are 32-bit words, as in the code; both loops terminate
  because the counter of iterations is compared with its bound before every iteration.

  The lemmas are what the clients need: an invariant of \<open>poll\<close> is one of the loops, a loop ends
  with its condition, with its abort condition or with its counter, it polls at most as often as
  the counter allows, and it returns whenever every poll does.
\<close>

function wait_loop ::
  "firmware \<Rightarrow> u32 \<Rightarrow> (state \<Rightarrow> bool) \<Rightarrow> (state \<Rightarrow> bool) \<Rightarrow> u32 \<Rightarrow> u32 \<Rightarrow> state \<Rightarrow> state option" where
  "wait_loop E us finished give_up max_loops loops s =
     (if finished s then Some s
      else if loops \<ge> max_loops then Some s
      else if give_up s then Some s
      else do {
        s \<leftarrow> poll E s;
        s \<leftarrow> stall us s;
        wait_loop E us finished give_up max_loops (loops + 1) s })"
  by pat_completeness auto
termination
  by (relation "measure (\<lambda>(E, us, finished, give_up, max_loops, loops, s). unat max_loops - unat loops)")
    (auto simp: not_le unat_add_one_less word_less_nat_alt)

function retry_loop ::
  "firmware \<Rightarrow> (state \<Rightarrow> state option) \<Rightarrow> (state \<Rightarrow> bool) \<Rightarrow> (state \<Rightarrow> bool) \<Rightarrow> u32 \<Rightarrow> u32 \<Rightarrow> u32 \<Rightarrow> state \<Rightarrow> state option" where
  "retry_loop E transmission finished give_up max_loops timeout loops s =
     (if finished s then Some s
      else if loops \<ge> max_loops then Some s
      else if give_up s then Some s
      else do {
        s \<leftarrow> (if timeout = 0x00 then transmission s else Some s);
        let timeout = (if timeout = 0x00 then TIMEOUT_RETRANSMIT else timeout);
        s \<leftarrow> poll E s;
        s \<leftarrow> stall STALL_1MS s;
        let timeout = (if timeout > 0x00 then timeout - 1 else timeout);
        retry_loop E transmission finished give_up max_loops timeout (loops + 1) s })"
  by pat_completeness auto
termination
  by (relation "measure (\<lambda>(E, transmission, finished, give_up, max_loops, timeout, loops, s).
        unat max_loops - unat loops)")
    (auto simp: not_le unat_add_one_less word_less_nat_alt)

declare wait_loop.simps [simp del] retry_loop.simps [simp del]

abbreviation never :: "state \<Rightarrow> bool" where "never \<equiv> \<lambda>_. False"

subsection \<open>Induction over the counter\<close>

lemma counter_induct [case_names step]:
  fixes max_loops :: u32
  assumes "\<And>loops x. (\<And>y. loops < max_loops \<Longrightarrow> P (loops + 1) y) \<Longrightarrow> P loops x"
  shows "P loops x"
proof (induction "unat max_loops - unat loops" arbitrary: loops x rule: less_induct)
  case less
  show ?case
  proof (rule assms)
    fix y assume l: "loops < max_loops"
    then have "unat loops < unat max_loops" by (simp add: word_less_nat_alt)
    then show "P (loops + 1) y"
      by (intro less) (simp add: unat_add_one_less [OF l])
  qed
qed

text \<open>One round of each loop.\<close>

definition round_of :: "firmware \<Rightarrow> u32 \<Rightarrow> state \<Rightarrow> state option" where
  "round_of E us s = do { s \<leftarrow> poll E s; stall us s }"

definition may_send :: "(state \<Rightarrow> state option) \<Rightarrow> u32 \<Rightarrow> state \<Rightarrow> state option" where
  "may_send transmission timeout s = (if timeout = 0 then transmission s else Some s)"

definition stops :: "(state \<Rightarrow> bool) \<Rightarrow> (state \<Rightarrow> bool) \<Rightarrow> u32 \<Rightarrow> u32 \<Rightarrow> state \<Rightarrow> bool" where
  "stops finished give_up max_loops loops s \<longleftrightarrow> finished s \<or> max_loops \<le> loops \<or> give_up s"

lemma wait_loop_stop:
  "stops finished give_up max_loops loops s \<Longrightarrow> wait_loop E us finished give_up max_loops loops s = Some s"
  by (subst wait_loop.simps) (auto simp: stops_def)

lemma wait_loop_round:
  "\<not> stops finished give_up max_loops loops s \<Longrightarrow> wait_loop E us finished give_up max_loops loops s =
    round_of E us s \<bind> wait_loop E us finished give_up max_loops (loops + 1)"
  by (subst wait_loop.simps) (simp add: round_of_def stops_def)

lemma retry_loop_stop:
  "stops finished give_up max_loops loops s \<Longrightarrow> retry_loop E tx finished give_up max_loops timeout loops s = Some s"
  by (subst retry_loop.simps) (auto simp: stops_def)

lemma retry_loop_round:
  "\<not> stops finished give_up max_loops loops s \<Longrightarrow> retry_loop E tx finished give_up max_loops timeout loops s =
    may_send tx timeout s \<bind> (\<lambda>s. round_of E STALL_1MS s \<bind>
      retry_loop E tx finished give_up max_loops ((if timeout = 0 then TIMEOUT_RETRANSMIT else timeout) - 1) (loops + 1))"
  by (subst retry_loop.simps) (auto simp: round_of_def may_send_def Let_def word_gt_0 const_vals stops_def)

lemma stops_counter:
  assumes "\<not> stops finished give_up max_loops loops s"
  shows "loops < max_loops" "unat (loops + 1) = unat loops + 1" "unat loops < unat max_loops" "loops + 1 \<le> max_loops"
proof -
  show l: "loops < max_loops" using assms by (simp add: stops_def not_le)
  show u: "unat (loops + 1) = unat loops + 1" by (rule unat_add_one_less [OF l])
  show v: "unat loops < unat max_loops" using l by (simp add: word_less_nat_alt)
  show "loops + 1 \<le> max_loops" using u v by (simp add: word_le_nat_alt)
qed

lemma wait_loop_SomeE:
  assumes "wait_loop E us finished give_up max_loops loops s = Some s'"
  obtains (stop) "stops finished give_up max_loops loops s" "s' = s"
    | (again) s1 where "\<not> stops finished give_up max_loops loops s" "round_of E us s = Some s1"
        "wait_loop E us finished give_up max_loops (loops + 1) s1 = Some s'"
proof (cases "stops finished give_up max_loops loops s")
  case True
  then show thesis using stop assms by (simp add: wait_loop_stop)
next
  case False
  then show thesis using again assms by (auto simp: wait_loop_round bind_Some_iff)
qed

lemma retry_loop_SomeE:
  assumes "retry_loop E tx finished give_up max_loops timeout loops s = Some s'"
  obtains (stop) "stops finished give_up max_loops loops s" "s' = s"
    | (again) s1 s2 t where "\<not> stops finished give_up max_loops loops s" "may_send tx timeout s = Some s1"
        "round_of E STALL_1MS s1 = Some s2"
        "retry_loop E tx finished give_up max_loops t (loops + 1) s2 = Some s'"
proof (cases "stops finished give_up max_loops loops s")
  case True
  then show thesis using stop assms by (simp add: retry_loop_stop)
next
  case False
  with assms obtain s1 s2 where "may_send tx timeout s = Some s1" "round_of E STALL_1MS s1 = Some s2"
    "retry_loop E tx finished give_up max_loops ((if timeout = 0 then TIMEOUT_RETRANSMIT else timeout) - 1) (loops + 1) s2 = Some s'"
    unfolding retry_loop_round [OF False] bind_Some_iff by blast
  with False show thesis by (rule again)
qed

subsection \<open>What a client can rely on\<close>

text \<open>A property of the state that a poll and a delay keep.\<close>

locale poll_inv =
  fixes E :: firmware and I :: "state \<Rightarrow> bool"
  assumes poll_I: "I s \<Longrightarrow> poll E s = Some s' \<Longrightarrow> I s'"
    and stall_I: "I s \<Longrightarrow> stall us s = Some s' \<Longrightarrow> I s'"
begin

lemma round_I: "I s \<Longrightarrow> round_of E us s = Some s' \<Longrightarrow> I s'"
  unfolding round_of_def by (elim bind_Some_E) (blast intro: poll_I stall_I)

lemma wait_loop_I:
  "I s \<Longrightarrow> wait_loop E us finished give_up max_loops loops s = Some s' \<Longrightarrow> I s'"
proof (induction loops s rule: counter_induct [where max_loops = max_loops])
  case (step loops s)
  from step.prems(2) show ?case
  proof (cases rule: wait_loop_SomeE)
    case (again s1)
    then show ?thesis using step.IH [OF stops_counter(1)] round_I step.prems(1) by blast
  qed (use step.prems(1) in simp)
qed

lemma may_send_I:
  "(\<And>s s'. I s \<Longrightarrow> tx s = Some s' \<Longrightarrow> I s') \<Longrightarrow> I s \<Longrightarrow> may_send tx t s = Some s' \<Longrightarrow> I s'"
  by (auto simp: may_send_def split: if_splits)

lemma retry_loop_I:
  assumes tx: "\<And>s s'. I s \<Longrightarrow> tx s = Some s' \<Longrightarrow> I s'"
  shows "I s \<Longrightarrow> retry_loop E tx finished give_up max_loops timeout loops s = Some s' \<Longrightarrow> I s'"
proof (induction loops "(timeout, s)" arbitrary: timeout s rule: counter_induct [where max_loops = max_loops])
  case (step loops timeout s)
  from step.prems(2) show ?case
  proof (cases rule: retry_loop_SomeE)
    case (again s1 s2 t)
    have "I s2" by (rule round_I [OF may_send_I [OF tx step.prems(1) again(2)] again(3)])
    then show ?thesis using step(1) [OF stops_counter(1) [OF again(1)]] again(4) by blast
  qed (use step.prems(1) in simp)
qed

end

text \<open>The rule with the guard: an invariant of the rounds that are made.\<close>

lemma retry_loop_rule:
  assumes "\<And>s s1 s2 t. J s \<Longrightarrow> \<not> finished s \<Longrightarrow> \<not> give_up s \<Longrightarrow> may_send tx t s = Some s1 \<Longrightarrow>
      round_of E STALL_1MS s1 = Some s2 \<Longrightarrow> J s2"
  shows "J s \<Longrightarrow> retry_loop E tx finished give_up max_loops timeout loops s = Some s' \<Longrightarrow> J s'"
proof (induction loops "(timeout, s)" arbitrary: timeout s rule: counter_induct [where max_loops = max_loops])
  case (step loops timeout s)
  from step.prems(2) show ?case
  proof (cases rule: retry_loop_SomeE)
    case (again s1 s2 t)
    have "J s2" by (rule assms [OF step.prems(1) _ _ again(2,3)]) (use again(1) in \<open>simp_all add: stops_def\<close>)
    then show ?thesis using step(1) [OF stops_counter(1) [OF again(1)]] again(4) by blast
  qed (use step.prems(1) in simp)
qed

interpretation ready_inv: poll_inv E ready
  by unfold_locales (auto intro: poll_op.op_ready stall_op.op_ready)

lemma round_effect:
  assumes "ready s" "round_of E us s = Some s'"
  shows "ready s' \<and> polls s' = Suc (polls s) \<and> config_of s' = config_of s \<and> flags_kept s s'"
proof -
  obtain s1 where s1: "poll E s = Some s1" "stall us s1 = Some s'"
    using assms(2) by (auto simp: round_of_def bind_Some_iff)
  have "ready s1" by (rule poll_op.op_ready [OF assms(1) s1(1)])
  then have "s' = call (Stall us) s1" using s1(2) by (simp add: stall_ready)
  then show ?thesis using \<open>ready s1\<close> poll_effect [OF assms(1) s1(1)]
    by (simp add: config_of_def flags_kept_def) (simp add: call_def)
qed

text \<open>
  \<open>waited n\<close>: the loop polled at most \<open>n\<close> times, and fewer only where a condition ended it; the
  configuration is that of the start.
\<close>

definition waited :: "(state \<Rightarrow> bool) \<Rightarrow> (state \<Rightarrow> bool) \<Rightarrow> nat \<Rightarrow> state \<Rightarrow> state \<Rightarrow> bool" where
  "waited finished give_up n s s' \<longleftrightarrow> ready s' \<and> flags_kept s s' \<and> 
     polls s \<le> polls s' \<and> polls s' \<le> polls s + n \<and> (finished s' \<or> give_up s' \<or> polls s' = polls s + n)"

lemma waited_step:
  "polls s1 = Suc (polls s) \<Longrightarrow> flags_kept s s1 \<Longrightarrow> waited finished give_up n s1 s' \<Longrightarrow>
   waited finished give_up (Suc n) s s'"
  by (auto simp: waited_def flags_kept_def)

lemma waited_refl: "ready s \<Longrightarrow> finished s \<or> give_up s \<or> n = 0 \<Longrightarrow> waited finished give_up n s s"
  by (auto simp: waited_def flags_kept_def)

lemma wait_loop_waited:
  "ready s \<Longrightarrow> wait_loop E us finished give_up max_loops loops s = Some s' \<Longrightarrow> loops \<le> max_loops \<Longrightarrow>
   waited finished give_up (unat max_loops - unat loops) s s' \<and> config_of s' = config_of s"
proof (induction loops s rule: counter_induct [where max_loops = max_loops])
  case (step loops s)
  from step.prems(2) show ?case
  proof (cases rule: wait_loop_SomeE)
    case stop
    then have "finished s \<or> give_up s \<or> unat max_loops - unat loops = 0"
      using step.prems(3) by (auto simp: stops_def word_le_nat_alt)
    then show ?thesis using stop waited_refl [OF step.prems(1)] by blast
  next
    case (again s1)
    note c = stops_counter [OF again(1)]
    note r = round_effect [OF step.prems(1) again(2)]
    have "waited finished give_up (unat max_loops - unat (loops + 1)) s1 s' \<and> config_of s' = config_of s1"
      by (rule step.IH [OF c(1) _ again(3) c(4)]) (use r in blast)
    moreover have "unat max_loops - unat loops = Suc (unat max_loops - unat (loops + 1))"
      using c(2,3) by simp
    ultimately show ?thesis using r waited_step [of s1 s] by metis
  qed
qed

text \<open>A transmission inside a retry loop: anything a handler may do.\<close>

lemma may_send_handled:
  assumes "\<And>s s'. ready s \<Longrightarrow> tx s = Some s' \<Longrightarrow> ready s' \<and> polls s' = polls s \<and> flags_kept s s'"
    and "ready s" "may_send tx t s = Some s'"
  shows "ready s' \<and> polls s' = polls s \<and> flags_kept s s'"
proof (cases "t = 0")
  case True
  then show ?thesis using assms(1) [OF assms(2)] assms(3) by (simp add: may_send_def)
next
  case False
  then show ?thesis using assms(2,3) by (simp add: may_send_def flags_kept_def)
qed

lemma retry_loop_waited:
  assumes tx: "\<And>s s'. ready s \<Longrightarrow> tx s = Some s' \<Longrightarrow> ready s' \<and> polls s' = polls s \<and> flags_kept s s'"
  shows "ready s \<Longrightarrow> retry_loop E tx finished give_up max_loops timeout loops s = Some s' \<Longrightarrow> loops \<le> max_loops \<Longrightarrow>
    waited finished give_up (unat max_loops - unat loops) s s'"
proof (induction loops "(timeout, s)" arbitrary: timeout s rule: counter_induct [where max_loops = max_loops])
  case (step loops timeout s)
  from step.prems(2) show ?case
  proof (cases rule: retry_loop_SomeE)
    case stop
    then have "finished s \<or> give_up s \<or> unat max_loops - unat loops = 0"
      using step.prems(3) by (auto simp: stops_def word_le_nat_alt)
    then show ?thesis using stop waited_refl [OF step.prems(1)] by blast
  next
    case (again s1 s2 t)
    note c = stops_counter [OF again(1)]
    note m = may_send_handled [of tx, OF tx step.prems(1) again(2)]
    note r = round_effect [OF conjunct1 [OF m] again(3)]
    have "waited finished give_up (unat max_loops - unat (loops + 1)) s2 s'"
      by (rule step(1) [OF c(1) _ again(4) c(4)]) (use r in blast)
    moreover have "unat max_loops - unat loops = Suc (unat max_loops - unat (loops + 1))"
      using c(2,3) by simp
    moreover have "polls s2 = Suc (polls s)" "flags_kept s s2" using m r by (auto simp: flags_kept_def)
    ultimately show ?thesis using waited_step [of s2 s] by metis
  qed
qed

end
