(* ===== verification/Net_Safe.thy ===== *)
theory Net_Safe
  imports Net_Wait
begin

text \<open>
  When a poll is defined.  The handlers trust the length fields of a received frame, so whether a
  poll returns depends on the frame: \<open>page_safe\<close> is what the length fields and the DNS message of
  the received page must satisfy for every access to stay inside its buffer, and under it
  \<open>poll\<close> is total and keeps the stack \<open>sane\<close>.  The converse is proved where it is interesting (an
  echo request whose IP length is too short, in \<open>Net_Icmp\<close>).
\<close>

definition udp_inbox_ok :: "state \<Rightarrow> bool" where
  "udp_inbox_ok s \<longleftrightarrow> (case udp_rx_buffer s of Some b \<Rightarrow> unat (udp_rx_max_len s) \<le> length b | None \<Rightarrow> True)"

definition sane :: "state \<Rightarrow> bool" where
  "sane s \<longleftrightarrow> ready s \<and> (\<exists>c. tcp_rel s c) \<and> udp_inbox_ok s"

text \<open>A DNS message the parser rejects by its header, or one that is well formed.\<close>

definition dns_safe :: "bytes \<Rightarrow> u16 \<Rightarrow> nat \<Rightarrow> bool" where
  "dns_safe rx ident p \<longleftrightarrow> p + 12 \<le> length rx \<and>
     (let d = dec_dns (take 12 (drop p rx))
      in dns_id d \<noteq> htons ident \<or> ntohs (dns_flags d) AND 0x8000 = 0 \<or> ntohs (dns_ancount d) = 0 \<or>
        (\<exists>flags qs rs ns ar b. drop p rx = enc_response ident flags qs rs ns ar @ b \<and> flags AND 0x8000 \<noteq> 0 \<and>
           list_all question_ok qs \<and> length qs < 65536 \<and> list_all rr_ok rs \<and> length rs < 65536))"

definition udp_safe :: "state \<Rightarrow> nat \<Rightarrow> bool" where
  "udp_safe s p \<longleftrightarrow>
     (let u = dec_udp (take 8 (drop p (rx_pkt s)))
      in (ntohs (udp_dest u) = udp_local_port s \<and> udp_local_port s \<noteq> 0 \<longrightarrow>
            8 \<le> unat (ntohs (udp_len u)) \<and> p + unat (ntohs (udp_len u)) \<le> 4096) \<and>
         (ntohs (udp_dest u) = dns_local_port s \<and> dns_local_port s \<noteq> 0 \<and> ntohs (udp_source u) = 53 \<longrightarrow>
            dns_safe (rx_pkt s) (dns_current_id s) (p + 8)))"

definition icmp_safe :: "state \<Rightarrow> nat \<Rightarrow> bool" where
  "icmp_safe s p \<longleftrightarrow>
     (rx_pkt s ! p = 8 \<and> rx_pkt s ! (p + 1) = 0 \<longrightarrow> rx_hlen s + 8 \<le> unat (ntohs (ip_tot_len (rx_ip s))))"

definition page_safe :: "state \<Rightarrow> bool" where
  "page_safe s \<longleftrightarrow> tcp_sound s \<and>
     (rx_type s = 0x0800 \<longrightarrow>
        (ip_protocol (rx_ip s) = 1 \<longrightarrow> icmp_safe s (14 + rx_hlen s)) \<and>
        (ip_protocol (rx_ip s) = 17 \<longrightarrow> udp_safe s (14 + rx_hlen s)))"

text \<open>The network delivers only such frames.\<close>

definition net_safe :: "firmware \<Rightarrow> bool" where
  "net_safe E \<longleftrightarrow>
     (\<forall>s st s1. ready s \<longrightarrow> snp_receive E 4096 s = Some (st, s1) \<longrightarrow> \<not> EFI_ERROR st \<longrightarrow> page_safe s1)"

lemma net_safe_sound: "net_safe E \<Longrightarrow> net_sound E"
  unfolding net_safe_def net_sound_def page_safe_def by blast

subsection \<open>The handlers are total\<close>

lemma dns_total:
  assumes "dns_safe (rx_pkt s) (dns_current_id s) p"
  shows "\<exists>s'. handle_dns_response p s = Some s'"
proof -
  let ?d = "dec_dns (take 12 (drop p (rx_pkt s)))"
  have l: "load (rx_pkt s) p 12 = Some (take 12 (drop p (rx_pkt s)))" "p + 12 \<le> length (rx_pkt s)"
    using assms by (simp_all add: dns_safe_def load_def)
  consider "dns_id ?d \<noteq> htons (dns_current_id s) \<or> ntohs (dns_flags ?d) AND 0x8000 = 0 \<or> ntohs (dns_ancount ?d) = 0"
    | flags qs rs ns ar b where "drop p (rx_pkt s) = enc_response (dns_current_id s) flags qs rs ns ar @ b"
      "flags AND 0x8000 \<noteq> 0" "list_all question_ok qs" "length qs < 65536" "list_all rr_ok rs" "length rs < 65536"
    using assms unfolding dns_safe_def Let_def by blast
  then show ?thesis
  proof cases
    case 1
    then show ?thesis using handle_dns_response_rejects [OF l(1)] by blast
  next
    case 2
    have "rx_pkt s = take p (rx_pkt s) @ enc_response (dns_current_id s) flags qs rs ns ar @ b"
      using 2(1) by (metis append_take_drop_id)
    moreover have "p = length (take p (rx_pkt s))" using l(2) by simp
    ultimately show ?thesis using handle_dns_response_enc 2(2-6) by blast
  qed
qed

lemma if_total: "(b \<Longrightarrow> \<exists>x. f = Some x) \<Longrightarrow> \<exists>x. (if b then f else Some s) = Some x"
  by (cases b) simp_all

lemma user_datagram_total:
  assumes r: "ready s" and b: "udp_inbox_ok s"
    and u: "8 \<le> unat (ntohs (udp_len u))" "p + unat (ntohs (udp_len u)) \<le> 4096"
  shows "\<exists>s'. handle_user_datagram p u s = Some s'"
proof (cases "udp_rx_buffer s")
  case None
  then show ?thesis by (simp add: handle_user_datagram_def)
next
  case (Some buf)
  show ?thesis
  proof (cases "unat (ntohs (udp_len u)) = 8")
    case True
    then have "(ucast (ntohs (udp_len u)) :: u64) = 8" by (metis unat_ucast_16_64 of_nat_numeral of_nat_unat ucast_id)
    then show ?thesis using Some by (simp add: handle_user_datagram_def)
  next
    case False
    then have "unat (ntohs (udp_len u)) = 8 + (unat (ntohs (udp_len u)) - 8)" "0 < unat (ntohs (udp_len u)) - 8"
      "p + 8 + (unat (ntohs (udp_len u)) - 8) \<le> 4096" using u by simp_all
    moreover have "unat (udp_rx_max_len s) \<le> length buf" using b Some by (simp add: udp_inbox_ok_def)
    ultimately show ?thesis using handle_user_datagram_eq [OF r _ _ _ Some _ refl] by blast
  qed
qed

lemma udp_total:
  assumes r: "ready s" and b: "udp_inbox_ok s" and p: "p + 8 \<le> 4096" and ok: "udp_safe s p"
  shows "\<exists>s'. handle_udp ip p n s = Some s'"
proof -
  define u where "u = dec_udp (take 8 (drop p (rx_pkt s)))"
  let ?mine = "ntohs (udp_dest u) = udp_local_port s \<and> udp_local_port s \<noteq> 0"
  let ?dns = "ntohs (udp_dest u) = dns_local_port s \<and> dns_local_port s \<noteq> 0 \<and> ntohs (udp_source u) = 53"
  have ok': "?mine \<longrightarrow> 8 \<le> unat (ntohs (udp_len u)) \<and> p + unat (ntohs (udp_len u)) \<le> 4096"
    "?dns \<longrightarrow> dns_safe (rx_pkt s) (dns_current_id s) (p + 8)"
    using ok by (simp_all add: udp_safe_def Let_def u_def)
  obtain s1 where s1: "(if ?mine then handle_user_datagram p u s else Some s) = Some s1"
    using user_datagram_total [OF r b, of u p] ok'(1) by (cases ?mine) auto
  have e: "s1 = s\<lparr>udp_rx_buffer := udp_rx_buffer s1, udp_rx_current_len := udp_rx_current_len s1,
      udp_rx_done := udp_rx_done s1\<rparr>"
  proof (cases ?mine)
    case True
    then have "handle_user_datagram p u s = Some s1" using s1 by simp
    from conjunct1 [OF handle_user_datagram_frame [OF this]] show ?thesis .
  next
    case False
    with s1 have "s1 = s" by (simp only: if_False option.inject)
    then show ?thesis by simp
  qed
  have f: "rx_pkt s1 = rx_pkt s" "dns_current_id s1 = dns_current_id s" "dns_local_port s1 = dns_local_port s"
    using arg_cong [OF e, of rx_pkt] arg_cong [OF e, of dns_current_id] arg_cong [OF e, of dns_local_port] by simp_all
  have "\<exists>s'. (if ?dns then handle_dns_response (p + 8) s1 else Some s1) = Some s'"
    by (rule if_total) (use dns_total [of s1 "p + 8"] ok'(2) f in metis)
  then show ?thesis unfolding handle_udp_cases [OF r p u_def] s1 using f(3) by simp
qed

lemma icmp_request_total:
  assumes r: "ready s" and n: "8 \<le> n" "n \<le> 65535" and p: "p \<le> 74"
    and h: "rx_pkt s ! p = 8" "rx_pkt s ! (p + 1) = 0"
  shows "\<exists>s'. handle_icmp E ip p (of_nat n) s = Some s'"
proof (cases "n \<le> 1466")
  case True
  let ?f = "icmp_reply_frame s (ucast (fst (get_u32 s) AND 0xFFFF)) (ip_saddr ip) (take n (drop p (rx_pkt s)))"
  have rx: "length (rx_pkt s) = 4096" using r by (simp add: ready_def)
  have pn: "p + n \<le> 4096" using p True by simp
  have "length ?f \<le> 4096" using length_icmp_reply_frame [OF r] n(1) True pn rx by simp
  moreover have "handle_icmp E ip p (of_nat n) s = send_frame E ?f (snd (get_u32 s))"
    by (rule handle_icmp_request [OF r n(1) True pn h])
  ultimately show ?thesis using send_frame_ready [of "snd (get_u32 s)" ?f E] r by auto
next
  case False
  have "icmp_reply E (replicate MAX_PKT_SIZE 0) ip p (of_nat n) s = Some s"
    by (rule icmp_reply_too_long) (use n False in simp_all)
  moreover have "icmp_type (dec_icmp (take 8 (drop p (rx_pkt s)))) = 8" "icmp_code (dec_icmp (take 8 (drop p (rx_pkt s)))) = 0"
    using h p r by (simp_all add: dec_icmp_def ready_def)
  ultimately show ?thesis using p load_hdr [OF r, of p 8] by (simp add: handle_icmp_def const_vals Let_def)
qed

lemma icmp_total:
  assumes r: "ready s" and ok: "icmp_safe s (14 + rx_hlen s)"
  shows "\<exists>s'. handle_icmp E ip (14 + rx_hlen s) (ucast (ntohs (ip_tot_len (rx_ip s))) - of_nat (rx_hlen s)) s = Some s'"
proof -
  define p t where "p = 14 + rx_hlen s" and "t = unat (ntohs (ip_tot_len (rx_ip s)))"
  have p: "p \<le> 74" "p + 8 \<le> 4096" using rx_hlen_le [of s] by (simp_all add: p_def)
  define h where "h = dec_icmp (take 8 (drop p (rx_pkt s)))"
  have h: "icmp_type h = rx_pkt s ! p" "icmp_code h = rx_pkt s ! (p + 1)"
    using p r by (simp_all add: h_def dec_icmp_def ready_def)
  have l: "(ucast (ntohs (ip_tot_len (rx_ip s))) :: u64) = of_nat t"
    unfolding t_def by (metis of_nat_unat ucast_id unat_ucast_16_64)
  have "\<exists>s'. handle_icmp E ip p (of_nat t - of_nat (rx_hlen s)) s = Some s'"
  proof (cases "icmp_type h = 8 \<and> icmp_code h = 0")
    case True
    then have n: "rx_hlen s + 8 \<le> t" using ok h by (simp add: icmp_safe_def t_def p_def)
    then have "(of_nat t - of_nat (rx_hlen s) :: u64) = of_nat (t - rx_hlen s)" by (simp add: of_nat_diff)
    moreover have "8 \<le> t - rx_hlen s" "t - rx_hlen s \<le> 65535"
      using n unat_lt_65536 [of "ntohs (ip_tot_len (rx_ip s))"] by (simp_all add: t_def)
    ultimately show ?thesis using icmp_request_total [OF r _ _ p(1)] True h by metis
  next
    case False
    then show ?thesis
      using handle_icmp_reply [OF r p(2) h_def] handle_icmp_other [OF r p(2) h_def]
      by (cases "icmp_type h = 0") blast+
  qed
  then show ?thesis by (simp only: l p_def)
qed

lemma tcp_total:
  assumes r: "ready s" and c: "tcp_rel s c" and ok: "tcp_sound s" "rx_type s = 0x0800" "ip_protocol (rx_ip s) = 6"
  shows "\<exists>s'. handle_tcp E (rx_ip s) (14 + rx_hlen s) n s = Some s'"
proof (cases "tcp_local s (14 + rx_hlen s)")
  case True
  then show ?thesis using handle_tcp_refines [OF r c _ True, of "rx_ip s" E n] ok by (auto simp: tcp_sound_def)
next
  case False
  then show ?thesis using handle_tcp_foreign [OF r _ False] rx_hlen_le [of s] by simp
qed

subsection \<open>Polls are total\<close>

lemma udp_inbox_ok_config: "config_of s' = config_of s \<Longrightarrow> udp_inbox_ok s' = udp_inbox_ok s"
  by (auto simp: config_of_def udp_inbox_ok_def split: option.split)

lemma dispatch_total:
  assumes s: "sane s" and ok: "page_safe s"
  shows "\<exists>s'. dispatch E s = Some s' \<and> sane s'"
proof -
  obtain c where r: "ready s" and c: "tcp_rel s c" and b: "udp_inbox_ok s" using s by (auto simp: sane_def)
  have p: "14 + rx_hlen s + 8 \<le> 4096" using rx_hlen_le [of s] by simp
  have "\<exists>s'. dispatch E s = Some s'"
    using handle_arp_total [OF r, of 14 E] icmp_total [OF r, of E "rx_ip s"] udp_total [OF r b p] tcp_total [OF r c] ok
    by (auto simp: dispatch_eq [OF r] dispatch_ipv4_eq [OF r] Let_def page_safe_def)
  then obtain s' where d: "dispatch E s = Some s'" by blast
  have "\<exists>c. tcp_rel s' c" using dispatch_tcp [OF r c _ d] ok by (auto simp: page_safe_def)
  then show ?thesis
    using d dispatch_op.op_ready [OF r d] dispatch_eff.op_handled [OF r d] udp_inbox_ok_config [of s' s] b
    by (auto simp: sane_def handled_def)
qed

lemma sane_view: "tcp_view s' = tcp_view s \<Longrightarrow> config_of s' = config_of s \<Longrightarrow> ready s' \<Longrightarrow> sane s \<Longrightarrow> sane s'"
  unfolding sane_def by (metis tcp_rel_view udp_inbox_ok_config)

lemma receive_total: "ready s \<Longrightarrow> \<exists>st s1. snp_receive E n s = Some (st, s1)"
  by (cases "fw_receive E (trace (call (Receive n) s))") (simp add: snp_receive_def snp_call_def ready_def Let_def)

lemma recover_eq:
  assumes "ready s"
  shows "do { s \<leftarrow> snp_call SnpReset s; s \<leftarrow> snp_call (ReceiveFilters rx_filters) s; stall STALL_10MS s } =
    Some (call (Stall STALL_10MS) (call (ReceiveFilters rx_filters) (call SnpReset s)))"
  using assms by (simp add: snp_call_def stall_def ready_def call_def)

lemma call_views: "tcp_view (call k s) = tcp_view s" "config_of (call k s) = config_of s"
  by (simp_all add: tcp_view_def config_of_def call_def)

lemma sane_call: "sane s \<Longrightarrow> sane (call k s)"
  using sane_view [OF call_views(1) call_views(2), of k s] by (simp add: sane_def)

lemma poll_total:
  assumes s: "sane s" and n: "net_safe E"
  shows "\<exists>s'. poll E s = Some s' \<and> sane s'"
proof -
  have r: "ready s" using s by (simp add: sane_def)
  obtain st s1 where s1: "snp_receive E 4096 s = Some (st, s1)" using receive_total [OF r] by blast
  have r1: "ready s1" by (rule ready_receive [OF r s1])
  have sane1: "sane s1" by (rule sane_view [OF _ _ r1 s]) (simp_all add: receive_effect [OF s1])
  have p: "poll E s = (if \<not> EFI_ERROR st then dispatch E s1
      else if st \<noteq> EFI_NOT_READY then Some (call (Stall STALL_10MS) (call (ReceiveFilters rx_filters) (call SnpReset s1)))
      else Some s1)"
    unfolding poll_def PKT_BUF_SIZE_def s1 bind.bind_lunit prod.case recover_eq [OF r1] ..
  show ?thesis
  proof (cases "EFI_ERROR st")
    case False
    then have "page_safe s1" using n r s1 unfolding net_safe_def by blast
    then show ?thesis using dispatch_total [OF sane1] False by (simp only: p if_True not_False_eq_True)
  next
    case True
    then show ?thesis unfolding p using sane1 sane_call by (cases "st = EFI_NOT_READY") simp_all
  qed
qed

text \<open>The client's side: a wait on a safe network returns.\<close>

interpretation sane_inv: poll_inv E "\<lambda>s. sane s \<and> net_safe E"
proof
  show "sane s' \<and> net_safe E" if "sane s \<and> net_safe E" "poll E s = Some s'" for s s'
    using that poll_total [of s E] by auto
  show "sane s' \<and> net_safe E" if "sane s \<and> net_safe E" "stall us s = Some s'" for s s' us
    using that sane_call [of s "Stall us"] by (auto simp: stall_def split: if_splits)
qed

lemma round_total: "sane s \<Longrightarrow> net_safe E \<Longrightarrow> \<exists>s'. round_of E us s = Some s' \<and> sane s'"
proof -
  assume a: "sane s" "net_safe E"
  obtain s1 where "poll E s = Some s1" "sane s1" using poll_total [OF a] by blast
  then show ?thesis using sane_call [of s1 "Stall us"] stall_ready [of s1 us] by (auto simp: round_of_def sane_def)
qed

lemma wait_loop_total:
  "sane s \<Longrightarrow> net_safe E \<Longrightarrow> \<exists>s'. wait_loop E us finished give_up max_loops loops s = Some s' \<and> sane s'"
proof (induction loops s rule: counter_induct [where max_loops = max_loops])
  case (step loops s)
  show ?case
  proof (cases "stops finished give_up max_loops loops s")
    case True
    then show ?thesis using step.prems by (simp add: wait_loop_stop)
  next
    case False
    obtain s1 where "round_of E us s = Some s1" "sane s1" using round_total [OF step.prems] by blast
    then show ?thesis using step.IH [OF stops_counter(1) [OF False]] step.prems(2) by (simp add: wait_loop_round [OF False])
  qed
qed

lemma retry_loop_total:
  assumes tx: "\<And>s. sane s \<Longrightarrow> \<exists>s'. tx s = Some s' \<and> sane s'"
  shows "sane s \<Longrightarrow> net_safe E \<Longrightarrow>
    \<exists>s'. retry_loop E tx finished give_up max_loops timeout loops s = Some s' \<and> sane s'"
proof (induction loops "(timeout, s)" arbitrary: timeout s rule: counter_induct [where max_loops = max_loops])
  case (step loops timeout s)
  show ?case
  proof (cases "stops finished give_up max_loops loops s")
    case True
    then show ?thesis using step.prems by (simp add: retry_loop_stop)
  next
    case False
    obtain s1 where s1: "may_send tx timeout s = Some s1" "sane s1"
      using tx [OF step.prems(1)] step.prems(1) by (cases "timeout = 0") (auto simp: may_send_def)
    obtain s2 where "round_of E STALL_1MS s1 = Some s2" "sane s2" using round_total [OF s1(2) step.prems(2)] by blast
    then show ?thesis
      using step(1) [OF stops_counter(1) [OF False]] step.prems(2) s1(1) by (simp add: retry_loop_round [OF False])
  qed
qed

end
