(* ===== verification/Net_Api_Tcp.thy ===== *)
theory Net_Api_Tcp
  imports Net_Safe
begin

text \<open>
  The TCP client of \<^verbatim>\<open>api.hpp\<close>: \<open>tcp_connect\<close>, \<open>tcp_send\<close>, \<open>tcp_receive\<close>, \<open>tcp_close\<close>.  Each
  operation is shown to be a run of the abstract client of \<open>Net_Tcp_Spec\<close>: its own events, with the
  segments that arrived while it waited.  From the abstract runs follow the results a caller sees:
  when a connection counts as established, and which bytes of the stream are in the buffer.
\<close>

definition tcp_connect :: "firmware \<Rightarrow> u32 \<Rightarrow> u16 \<Rightarrow> state \<Rightarrow> (efi_status \<times> state) option" where
  "tcp_connect E ip port s = do {
     let s = s\<lparr>tcp_remote_ip := ip, tcp_remote_port := port\<rparr>;
     let (p, s) = get_ephemeral_port s;
     let s = s\<lparr>tcp_local_port := p\<rparr>;
     let (q, s) = get_u32 s;
     let s = s\<lparr>tcp_seq := q, tcp_ack := 0x00, tcp_state := TCP_STATE_SYN_SENT\<rparr>;
     s \<leftarrow> retry_loop E (\<lambda>s. send_tcp_internal E TCP_FLAG_SYN (tcp_seq s) (tcp_ack s) None 0x00 s)
            (\<lambda>s. tcp_state s = TCP_STATE_ESTABLISHED) (\<lambda>s. tcp_state s = TCP_STATE_CLOSED)
            TIMEOUT_TCP_LOOPS 0x00 0x00 s;
     Some (if tcp_state s = TCP_STATE_ESTABLISHED then EFI_SUCCESS else EFI_TIMEOUT, s) }"

definition tcp_send :: "firmware \<Rightarrow> bytes option \<Rightarrow> u64 \<Rightarrow> state \<Rightarrow> (efi_status \<times> state) option" where
  "tcp_send E data len s =
     (if tcp_state s \<noteq> TCP_STATE_ESTABLISHED then Some (EFI_NOT_READY, s)
      else do {
        s \<leftarrow> send_tcp_internal E TCP_FLAG_PSH_ACK (tcp_seq s) (tcp_ack s) data len s;
        Some (EFI_SUCCESS, s\<lparr>tcp_seq := tcp_seq s + ucast len\<rparr>) })"

text \<open>The buffer is the caller's: it comes back with the status and the length.\<close>

definition tcp_receive ::
  "firmware \<Rightarrow> bytes option \<Rightarrow> u64 \<Rightarrow> u32 \<Rightarrow> state \<Rightarrow> (efi_status \<times> bytes option \<times> u64 \<times> state) option" where
  "tcp_receive E buffer max_len timeout_ms s = do {
     let s = s\<lparr>tcp_rx_buffer := buffer, tcp_rx_max_len := max_len, tcp_rx_current_len := 0x00,
               tcp_rx_done := False\<rparr>;
     let max_loops = timeout_ms * 0x0A;
     s \<leftarrow> wait_loop E STALL_100US tcp_rx_done
            (\<lambda>s. tcp_state s = TCP_STATE_CLOSED \<or> tcp_state s = TCP_STATE_CLOSED_DONE) max_loops 0x00 s;
     let buffer = tcp_rx_buffer s;
     let s = s\<lparr>tcp_rx_buffer := None\<rparr>;
     Some (if tcp_rx_done s then EFI_SUCCESS else EFI_TIMEOUT, buffer, tcp_rx_current_len s, s) }"

definition tcp_close :: "firmware \<Rightarrow> state \<Rightarrow> (efi_status \<times> state) option" where
  "tcp_close E s = do {
     s \<leftarrow> (if tcp_state s = TCP_STATE_ESTABLISHED
          then do {
            s \<leftarrow> send_tcp_internal E TCP_FLAG_FIN_ACK (tcp_seq s) (tcp_ack s) None 0x00 s;
            let s = s\<lparr>tcp_state := TCP_STATE_FIN_WAIT\<rparr>;
            wait_loop E STALL_1MS (\<lambda>s. tcp_state s = TCP_STATE_CLOSED_DONE) never TIMEOUT_CLOSE_LOOPS 0x00 s }
          else Some s);
     Some (EFI_SUCCESS, s\<lparr>tcp_local_port := 0x00, tcp_state := TCP_STATE_CLOSED\<rparr>) }"

subsection \<open>Abstract runs as loop invariants\<close>

text \<open>From \<open>c\<close> the stack has made a run of segments and of events in \<open>K\<close>.\<close>

definition tcp_runs :: "firmware \<Rightarrow> (event \<Rightarrow> bool) \<Rightarrow> conn \<Rightarrow> state \<Rightarrow> bool" where
  "tcp_runs E K c s \<longleftrightarrow> ready s \<and> net_sound E \<and>
     (\<exists>es outs c'. tcp_run c es outs c' \<and> tcp_rel s c' \<and> (\<forall>e\<in>set es. (\<exists>g. e = Segment g) \<or> K e))"

lemma tcp_runs_start: "ready s \<Longrightarrow> net_sound E \<Longrightarrow> tcp_rel s c \<Longrightarrow> tcp_runs E K c s"
  unfolding tcp_runs_def using tcp_run.stop by fastforce

lemma tcp_runs_step:
  assumes "tcp_runs E K c s" "\<And>c'. tcp_rel s c' \<Longrightarrow> \<exists>es outs c2. tcp_run c' es outs c2 \<and> tcp_rel s' c2 \<and>
     (\<forall>e\<in>set es. (\<exists>g. e = Segment g) \<or> K e)" "ready s'"
  shows "tcp_runs E K c s'"
proof -
  obtain es outs c' where a: "net_sound E" "tcp_run c es outs c'" "tcp_rel s c'"
    "\<forall>e\<in>set es. (\<exists>g. e = Segment g) \<or> K e" using assms(1) by (auto simp: tcp_runs_def)
  obtain es2 outs2 c2 where b: "tcp_run c' es2 outs2 c2" "tcp_rel s' c2" "\<forall>e\<in>set es2. (\<exists>g. e = Segment g) \<or> K e"
    using assms(2) [OF a(3)] by blast
  show ?thesis
    unfolding tcp_runs_def using a b assms(3) tcp_run_append [OF a(2) b(1)]
    by (intro conjI exI [of _ "es @ es2"] exI [of _ "outs @ outs2"] exI [of _ c2]) auto
qed

lemma tcp_runs_view:
  assumes "tcp_runs E K c s" "tcp_view s' = tcp_view s" "ready s'"
  shows "tcp_runs E K c s'"
  using assms(1) tcp_rel_view [OF assms(2)] assms(3) by (simp add: tcp_runs_def)

interpretation tcp_wait: poll_inv E "tcp_runs E K c"
proof
  show "tcp_runs E K c s'" if "tcp_runs E K c s" "poll E s = Some s'" for s s'
  proof -
    have r: "ready s" "net_sound E" using that(1) by (simp_all add: tcp_runs_def)
    show ?thesis
    proof (rule tcp_runs_step [OF that(1)])
      show "ready s'" by (rule poll_op.op_ready [OF r(1) that(2)])
      show "\<exists>es outs c2. tcp_run c' es outs c2 \<and> tcp_rel s' c2 \<and> (\<forall>e\<in>set es. (\<exists>g. e = Segment g) \<or> K e)"
        if "tcp_rel s c'" for c'
        using poll_tcp [OF r(1) that r(2) \<open>poll E s = Some s'\<close>] by blast
    qed
  qed
  show "tcp_runs E K c s'" if "tcp_runs E K c s" "stall us s = Some s'" for s s' us
    using that stall_tcp.op_view stall_op.op_ready tcp_runs_view by (metis tcp_runs_def)
qed

lemma segment_list: "\<forall>e\<in>set es. (\<exists>g. e = Segment g) \<or> False \<Longrightarrow> \<exists>gs. es = map Segment gs"
  by (induction es) (auto intro: exI [of _ "_ # _"] simp: Cons_eq_map_conv)

lemma tcp_runs_segments:
  assumes "tcp_runs E (\<lambda>_. False) c s"
  obtains gs outs c' where "tcp_run c (map Segment gs) outs c'" "tcp_rel s c'" "ready s"
  using assms segment_list unfolding tcp_runs_def by metis

subsection \<open>Connecting\<close>

definition syn_prepare :: "u32 \<Rightarrow> u16 \<Rightarrow> state \<Rightarrow> state" where
  "syn_prepare ip port s =
     (let s = s\<lparr>tcp_remote_ip := ip, tcp_remote_port := port\<rparr>;
          (p, s) = get_ephemeral_port s;
          s = s\<lparr>tcp_local_port := p\<rparr>;
          (q, s) = get_u32 s
      in s\<lparr>tcp_seq := q, tcp_ack := 0, tcp_state := 1\<rparr>)"

definition syn_loop :: "firmware \<Rightarrow> state \<Rightarrow> state option" where
  "syn_loop E = retry_loop E (\<lambda>s. send_tcp_internal E 0x02 (tcp_seq s) (tcp_ack s) None 0 s)
     (\<lambda>s. tcp_state s = 2) (\<lambda>s. tcp_state s = 0) 500000 0 0"

lemma tcp_connect_eq:
  "tcp_connect E ip port s = do {
     s \<leftarrow> syn_loop E (syn_prepare ip port s);
     Some (if tcp_state s = 2 then EFI_SUCCESS else EFI_TIMEOUT, s) }"
  by (simp add: tcp_connect_def syn_prepare_def syn_loop_def Let_def case_prod_unfold
      TCP_FLAG_SYN_def TCP_STATE_ESTABLISHED_def TCP_STATE_CLOSED_def TCP_STATE_SYN_SENT_def TIMEOUT_TCP_LOOPS_def)

lemma syn_prepare_fields:
  "tcp_state (syn_prepare ip port s) = 1" "tcp_remote_ip (syn_prepare ip port s) = ip"
  "tcp_remote_port (syn_prepare ip port s) = port" "0xC000 \<le> tcp_local_port (syn_prepare ip port s)"
  "ready (syn_prepare ip port s) = ready s" "tcp_ack (syn_prepare ip port s) = 0"
  "tcp_rx_buffer (syn_prepare ip port s) = tcp_rx_buffer s" "tcp_rx_max_len (syn_prepare ip port s) = tcp_rx_max_len s"
  "tcp_rx_current_len (syn_prepare ip port s) = tcp_rx_current_len s" "tcp_rx_done (syn_prepare ip port s) = tcp_rx_done s"
  "udp_rx_buffer (syn_prepare ip port s) = udp_rx_buffer s" "udp_rx_max_len (syn_prepare ip port s) = udp_rx_max_len s"
  using ephemeral_port_range [of "s\<lparr>tcp_remote_ip := ip, tcp_remote_port := port\<rparr>"]
  by (simp_all add: syn_prepare_def Let_def case_prod_unfold get_u32_def get_ephemeral_port_def)

lemma syn_prepare_rel:
  "tcp_rel s c \<Longrightarrow> tcp_rel (syn_prepare ip port s) (c\<lparr>c_phase := Syn_Sent, c_seq := tcp_seq (syn_prepare ip port s), c_ack := 0\<rparr>)"
  by (simp add: tcp_rel_def syn_prepare_fields) (auto intro: inbox_rel_cong [of _ s _ c] simp: syn_prepare_fields)

text \<open>A retransmitted SYN is a step of the client while it is still connecting.\<close>

lemma syn_runs:
  assumes "tcp_runs E (\<lambda>e. e = Syn) c s" "tcp_state s = 1"
    "send_tcp_internal E 0x02 (tcp_seq s) (tcp_ack s) None 0 s = Some s'"
  shows "tcp_runs E (\<lambda>e. e = Syn) c s'"
proof (rule tcp_runs_step [OF assms(1)])
  have r: "ready s" using assms(1) by (simp add: tcp_runs_def)
  show "ready s'" by (rule send_tcp_ready [OF r assms(3)])
  show "\<exists>es outs c2. tcp_run c' es outs c2 \<and> tcp_rel s' c2 \<and> (\<forall>e\<in>set es. (\<exists>g. e = Segment g) \<or> e = Syn)"
    if c': "tcp_rel s c'" for c'
  proof -
    obtain s2 where "send_tcp_internal E 0x02 (tcp_seq s) (tcp_ack s) None 0 s = Some s2" "tcp_rel s2 c'"
      by (rule send_empty_rel [OF r c'])
    then have "tcp_rel s' c'" using assms(3) by simp
    moreover have "tcp_run c' [Syn] [(0x02, c_seq c', c_ack c', [])] c'"
      using assms(2) c' by (intro tcp_run_single tcp_step.syn) (simp add: tcp_rel_def)
    ultimately show ?thesis by (intro exI conjI) auto
  qed
qed

text \<open>
  While connecting the phase is SYN sent; one poll takes it at most to established or, by a reset,
  to closed.
\<close>

definition connecting :: "firmware \<Rightarrow> conn \<Rightarrow> state \<Rightarrow> bool" where
  "connecting E c s \<longleftrightarrow> tcp_runs E (\<lambda>e. e = Syn) c s \<and> (tcp_state s = 0 \<or> tcp_state s = 1 \<or> tcp_state s = 2)"

lemma syn_sent_poll:
  assumes "ready s" "tcp_rel s c" "net_sound E" "poll E s = Some s'" "tcp_state s = 1"
  shows "tcp_state s' = 0 \<or> tcp_state s' = 1 \<or> tcp_state s' = 2"
proof -
  obtain es outs c' where c': "tcp_rel s' c'" "tcp_run c es outs c'" "\<forall>e\<in>set es. \<exists>g. e = Segment g" "length es \<le> 1"
    using poll_tcp [OF assms(1-4)] by blast
  have ph: "c_phase c = Syn_Sent" using assms(2,5) by (simp add: tcp_rel_def)
  have "c_phase c' = Closed \<or> c_phase c' = Syn_Sent \<or> c_phase c' = Established"
  proof (cases es)
    case Nil
    then show ?thesis using c'(2) ph by (simp add: tcp_run_Nil)
  next
    case (Cons e es')
    then obtain g where "e = Segment g" "es' = []" using c'(3,4) by auto
    then obtain out where "tcp_step c (Segment g) out c'"
      using c'(2) Cons by (auto elim!: tcp_run_ConsE simp: tcp_run_Nil)
    from tcp_step_edge [OF this] ph show ?thesis by (simp split: if_splits)
  qed
  then show ?thesis using c'(1) by (auto simp: tcp_rel_def)
qed

lemma send_tcp_state:
  "send_tcp_internal E flags q a None 0 s = Some s' \<Longrightarrow> ready s \<Longrightarrow> tcp_state s' = tcp_state s"
  by (rule send_tcp_empty [of s E flags q a]) auto

lemma connecting_round:
  assumes "connecting E c s" "tcp_state s \<noteq> 2" "tcp_state s \<noteq> 0"
    "may_send (\<lambda>s. send_tcp_internal E 0x02 (tcp_seq s) (tcp_ack s) None 0 s) t s = Some s1"
    "round_of E STALL_1MS s1 = Some s2"
  shows "connecting E c s2"
proof -
  have s: "tcp_runs E (\<lambda>e. e = Syn) c s" "tcp_state s = 1" "ready s" "net_sound E"
    using assms(1-3) by (auto simp: connecting_def tcp_runs_def)
  have s1: "tcp_runs E (\<lambda>e. e = Syn) c s1 \<and> tcp_state s1 = 1"
  proof (cases "t = 0")
    case True
    then have tx: "send_tcp_internal E 0x02 (tcp_seq s) (tcp_ack s) None 0 s = Some s1"
      using assms(4) by (simp add: may_send_def)
    show ?thesis using syn_runs [OF s(1,2) tx] send_tcp_state [OF tx s(3)] s(2) by simp
  next
    case False
    then show ?thesis using assms(4) s by (simp add: may_send_def)
  qed
  then obtain c1 where c1: "ready s1" "tcp_rel s1 c1" by (auto simp: tcp_runs_def)
  have "tcp_runs E (\<lambda>e. e = Syn) c s2" by (rule tcp_wait.round_I [OF conjunct1 [OF s1] assms(5)])
  moreover obtain s' where "poll E s1 = Some s'" "stall STALL_1MS s' = Some s2"
    using assms(5) by (auto simp: round_of_def bind_Some_iff)
  moreover have "tcp_state s' = 0 \<or> tcp_state s' = 1 \<or> tcp_state s' = 2"
    by (rule syn_sent_poll [OF c1 s(4)]) (use calculation s1 in auto)
  ultimately show ?thesis by (auto simp: connecting_def stall_def call_def split: if_splits)
qed

lemma tcp_connect_run:
  assumes r: "ready s" and c: "tcp_rel s c" and n: "net_sound E"
    and t: "tcp_connect E ip port s = Some (st, s')"
  shows "\<exists>isn es outs c'. tcp_run c (Connect isn # es) outs c' \<and> tcp_rel s' c' \<and> ready s' \<and>
    (\<forall>e\<in>set es. e = Syn \<or> (\<exists>g. e = Segment g)) \<and> (st = EFI_SUCCESS \<longleftrightarrow> c_phase c' = Established) \<and>
    (st = EFI_SUCCESS \<or> st = EFI_TIMEOUT) \<and> c_phase c' \<in> {Closed, Syn_Sent, Established}"
proof -
  let ?s = "syn_prepare ip port s"
  define c1 where "c1 = c\<lparr>c_phase := Syn_Sent, c_seq := tcp_seq ?s, c_ack := 0\<rparr>"
  have s': "syn_loop E ?s = Some s'" "st = (if tcp_state s' = 2 then EFI_SUCCESS else EFI_TIMEOUT)"
    using t by (auto simp: tcp_connect_eq bind_Some_iff)
  have "connecting E c1 ?s"
    using tcp_runs_start [OF _ n syn_prepare_rel [OF c, of ip port]] r
    by (simp add: connecting_def syn_prepare_fields c1_def)
  then have f: "connecting E c1 s'"
    using s'(1) unfolding syn_loop_def by (rule retry_loop_rule [OF connecting_round, rotated -2])
  then obtain es outs c' where run: "tcp_run c1 es outs c'" "tcp_rel s' c'" "ready s'"
    "\<forall>e\<in>set es. (\<exists>g. e = Segment g) \<or> e = Syn" by (auto simp: connecting_def tcp_runs_def)
  have "tcp_run c (Connect (tcp_seq ?s) # es) ([] @ outs) c'"
    by (rule tcp_run.more [OF _ run(1)]) (simp add: c1_def tcp_step.connect)
  moreover have "EFI_SUCCESS \<noteq> EFI_TIMEOUT" by (simp add: const_vals)
  ultimately show ?thesis
    using run s'(2) f
    by (intro exI [of _ "tcp_seq ?s"] exI [of _ es] exI [of _ outs] exI [of _ c'])
      (auto simp: tcp_rel_def connecting_def)
qed

lemma established_run:
  "tcp_run c es outs c' \<Longrightarrow> c_phase c \<noteq> Established \<Longrightarrow> c_phase c' = Established \<Longrightarrow>
   \<exists>g. Segment g \<in> set es \<and> is_syn_ack g \<and> \<not> is_rst g"
proof (induction rule: tcp_run.induct)
  case (more c e out c1 es outs c2)
  show ?case
  proof (cases "c_phase c1 = Established")
    case True
    then show ?thesis using established_only_by_syn_ack [OF more.hyps(1) True more.prems(1)] by auto
  next
    case False
    then show ?thesis using more.IH more.prems(2) by auto
  qed
qed simp

subsection \<open>Sending\<close>

text \<open>A payload that fits one frame goes out as one segment, and the sequence number counts it.\<close>

lemma connect_established:
  assumes "tcp_run c (Connect isn # es) outs c'" "c_phase c' = Established"
  shows "\<exists>g. Segment g \<in> set es \<and> is_syn_ack g \<and> \<not> is_rst g"
proof -
  obtain c1 o1 where "tcp_step c (Connect isn) [] c1" "tcp_run c1 es o1 c'" "c_phase c1 = Syn_Sent"
    using assms(1) by (auto elim!: tcp_run_ConsE simp: tcp_user_steps)
  then show ?thesis using established_run assms(2) by auto
qed

lemma sends_rel: "sends (s\<lparr>rng_seed := r\<rparr>) f s' \<Longrightarrow> tcp_rel s c \<Longrightarrow> tcp_rel s' c"
  using tcp_rel_view [of s' s c] sends_view [of "s\<lparr>rng_seed := r\<rparr>" f s'] by simp

lemma sends_endpoint: "sends (s\<lparr>rng_seed := r\<rparr>) f s' \<Longrightarrow> endpoint s' = endpoint s \<and> sent s' = f # sent s"
  by (auto simp: sends_def endpoint_def dest!: sends_sent [of "s\<lparr>rng_seed := r\<rparr>"]) (auto simp: sent_def sends_def transmitted_append transmitted_quiet)

lemma tcp_send_run:
  assumes r: "ready s" and c: "tcp_rel s c" and e: "c_phase c = Established"
    and d: "payload_arg data d" "length d \<le> 1446"
  shows "\<exists>s' c'. tcp_send E data (of_nat (length d)) s = Some (EFI_SUCCESS, s') \<and> ready s' \<and>
    tcp_step c (Push d) [(0x18, c_seq c, c_ack c, d)] c' \<and> tcp_rel s' c' \<and> emits s [(0x18, c_seq c, c_ack c, d)] s'"
proof -
  define i r1 where "i = (ucast (fst (get_u32 s) AND 0xFFFF) :: u16)" and "r1 = fst (get_u32 s)"
  have g: "snd (get_u32 s) = s\<lparr>rng_seed := r1\<rparr>" by (simp add: r1_def get_u32_def Let_def)
  define f where "f = tcp_frame s i 0x18 (tcp_seq s) (tcp_ack s) d"
  have eq: "send_tcp_internal E 0x18 (tcp_seq s) (tcp_ack s) data (of_nat (length d)) s = send_frame E f (s\<lparr>rng_seed := r1\<rparr>)"
    using send_tcp_eq [OF r d(2,1)] by (simp add: f_def i_def g)
  obtain s1 where s1: "send_frame E f (s\<lparr>rng_seed := r1\<rparr>) = Some s1" "sends (s\<lparr>rng_seed := r1\<rparr>) f s1" "ready s1"
    using send_frame_ready [of "s\<lparr>rng_seed := r1\<rparr>" f E] r d(2) by (auto simp: f_def length_tcp_frame)
  have c1: "tcp_rel s1 c" "endpoint s1 = endpoint s" "sent s1 = f # sent s"
    using sends_rel [OF s1(2) c] sends_endpoint [OF s1(2)] by simp_all
  let ?s' = "s1\<lparr>tcp_seq := tcp_seq s1 + of_nat (length d)\<rparr>"
  have u: "(ucast (of_nat (length d) :: u64) :: u32) = of_nat (length d)" by (rule ucast_of_nat_down) simp
  have "tcp_send E data (of_nat (length d)) s = Some (EFI_SUCCESS, ?s')"
    using c e eq s1(1) by (simp add: tcp_send_def tcp_rel_def const_vals u)
  moreover have "tcp_rel ?s' (c\<lparr>c_seq := c_seq c + of_nat (length d)\<rparr>)"
    using c1(1) by (auto simp: tcp_rel_def intro: inbox_rel_cong [of _ s1 _ c])
  moreover have "emits s [(0x18, c_seq c, c_ack c, d)] ?s'"
    by (rule emits_one [where i = i]) (use c1 c in \<open>simp_all add: endpoint_def sent_def f_def tcp_rel_def\<close>)
  ultimately show ?thesis using tcp_step.push [OF e] s1(3) by (intro exI conjI) simp_all
qed

lemma tcp_send_closed: "tcp_state s \<noteq> 2 \<Longrightarrow> tcp_send E data len s = Some (EFI_NOT_READY, s)"
  by (simp add: tcp_send_def const_vals)

lemma tcp_send_overflow:
  "tcp_state s = 2 \<Longrightarrow> 1446 < unat len \<Longrightarrow> tcp_send E (Some d) len s = None"
  using send_tcp_overflow [of len E TCP_FLAG_PSH_ACK "tcp_seq s" "tcp_ack s" d s]
  by (simp add: tcp_send_def TCP_STATE_ESTABLISHED_def)

subsection \<open>Receiving\<close>

lemma post_rel:
  assumes "tcp_rel s c" "unat max_len \<le> length buf"
  shows "tcp_rel (s\<lparr>tcp_rx_buffer := Some buf, tcp_rx_max_len := max_len, tcp_rx_current_len := 0, tcp_rx_done := False\<rparr>)
    (c\<lparr>c_inbox := Some [], c_cap := unat max_len, c_signal := False\<rparr>)"
  using assms by (simp add: tcp_rel_def inbox_rel_def)

lemma withdraw_rel: "tcp_rel s c \<Longrightarrow> tcp_rel (s\<lparr>tcp_rx_buffer := None\<rparr>) (c\<lparr>c_inbox := None\<rparr>)"
  by (simp add: tcp_rel_def inbox_rel_def)

lemma tcp_run_cap:
  "tcp_run c (map Segment gs) outs c' \<Longrightarrow> c_inbox c \<noteq> None \<Longrightarrow> c_inbox c' \<noteq> None \<and> c_cap c' = c_cap c"
proof (induction gs arbitrary: c outs)
  case Nil
  then show ?case by (simp add: tcp_run_Nil)
next
  case (Cons g gs)
  from Cons.prems(1) obtain out c1 os where s: "tcp_step c (Segment g) out c1" "tcp_run c1 (map Segment gs) os c'"
    by (auto elim: tcp_run_ConsE)
  have "c_inbox c1 \<noteq> None \<and> c_cap c1 = c_cap c"
    using s(1) Cons.prems(2) by (auto elim!: tcp_segmentE simp: transfer_def deliver_def split: option.splits)
  then show ?case using Cons.IH [OF s(2)] by simp
qed

text \<open>
  The bytes the caller gets are the inbox of the abstract client after the segments that arrived
  during the call, and the call reports success exactly when that client signals.
\<close>

lemma tcp_receive_run:
  assumes r: "ready s" and c: "tcp_rel s c" and n: "net_sound E" and b: "unat max_len \<le> length buf"
    and t: "tcp_receive E (Some buf) max_len timeout_ms s = Some (st, buffer, actual_len, s')"
  shows "\<exists>gs outs c' buf'. buffer = Some buf' \<and> ready s' \<and>
    tcp_run (c\<lparr>c_inbox := Some [], c_cap := unat max_len, c_signal := False\<rparr>) (map Segment gs) outs c' \<and>
    c_inbox c' = Some (take (unat actual_len) buf') \<and> unat actual_len \<le> unat max_len \<and>
    tcp_rel s' (c'\<lparr>c_inbox := None\<rparr>) \<and> st = (if c_signal c' then EFI_SUCCESS else EFI_TIMEOUT)"
proof -
  define s0 where "s0 = s\<lparr>tcp_rx_buffer := Some buf, tcp_rx_max_len := max_len, tcp_rx_current_len := 0, tcp_rx_done := False\<rparr>"
  define c0 where "c0 = c\<lparr>c_inbox := Some [], c_cap := unat max_len, c_signal := False\<rparr>"
  have r0: "ready s0" using r by (simp add: s0_def)
  have c0: "tcp_rel s0 c0" using post_rel [OF c b] by (simp add: s0_def c0_def)
  obtain s1 where s1: "wait_loop E STALL_100US tcp_rx_done
      (\<lambda>s. tcp_state s = TCP_STATE_CLOSED \<or> tcp_state s = TCP_STATE_CLOSED_DONE) (timeout_ms * 0x0A) 0 s0 = Some s1"
    "s' = s1\<lparr>tcp_rx_buffer := None\<rparr>" "buffer = tcp_rx_buffer s1" "actual_len = tcp_rx_current_len s1"
    "st = (if tcp_rx_done s1 then EFI_SUCCESS else EFI_TIMEOUT)"
    using t unfolding tcp_receive_def Let_def s0_def by (auto elim!: bind_Some_E)
  have "tcp_runs E (\<lambda>_. False) c0 s1"
    by (rule tcp_wait.wait_loop_I [OF tcp_runs_start [OF r0 n c0] s1(1)])
  then obtain gs outs c' where run: "tcp_run c0 (map Segment gs) outs c'" "tcp_rel s1 c'" "ready s1"
    by (rule tcp_runs_segments)
  have "c_inbox c' \<noteq> None \<and> c_cap c' = unat max_len"
    using tcp_run_cap [OF run(1)] by (simp add: c0_def)
  then obtain buf' where bf: "tcp_rx_buffer s1 = Some buf'" "c_inbox c' = Some (take (unat actual_len) buf')"
    "unat actual_len \<le> unat max_len"
    using run(2) by (cases "tcp_rx_buffer s1") (auto simp: tcp_rel_def inbox_rel_def s1(4))
  then show ?thesis
    using run s1 withdraw_rel [OF run(2)]
    by (intro exI [of _ gs] exI [of _ outs] exI [of _ c'] exI [of _ buf']) (simp add: c0_def tcp_rel_def)
qed

text \<open>On an open connection, when only plain segments arrive, the buffer holds the start of their stream.\<close>

lemma tcp_receive_stream:
  assumes "tcp_run (c\<lparr>c_inbox := Some [], c_cap := m, c_signal := False\<rparr>) (map Segment gs) outs c'"
    "list_all plain gs" "c_phase c \<in> {Established, Fin_Wait}"
  shows "c_inbox c' = Some (take m (stream gs))"
  using stream_delivered [OF assms(1,2), of "[]"] assms(3) by simp

subsection \<open>Closing\<close>

lemma shut_rel: "tcp_rel s c \<Longrightarrow> tcp_rel (s\<lparr>tcp_local_port := 0, tcp_state := 0\<rparr>) (c\<lparr>c_phase := Closed\<rparr>)"
  by (auto simp: tcp_rel_def intro: inbox_rel_cong [of _ s _ c])

lemma tcp_run_snoc: "tcp_run c es outs c1 \<Longrightarrow> tcp_step c1 e out c2 \<Longrightarrow> tcp_run c (es @ [e]) (outs @ out) c2"
  using tcp_run_append tcp_run_single by blast

lemma tcp_close_run:
  assumes r: "ready s" and c: "tcp_rel s c" and n: "net_sound E" and t: "tcp_close E s = Some (st, s')"
  shows "st = EFI_SUCCESS \<and> ready s' \<and> tcp_local_port s' = 0 \<and>
    (\<exists>es outs c'. tcp_run c (es @ [Shut]) outs c' \<and> tcp_rel s' c' \<and> c_phase c' = Closed \<and>
      (\<forall>e\<in>set es. e = Finish \<or> (\<exists>g. e = Segment g)))"
proof (cases "c_phase c = Established")
  case False
  then have s': "st = EFI_SUCCESS" "s' = s\<lparr>tcp_local_port := 0, tcp_state := 0\<rparr>"
    using t c by (auto simp: tcp_close_def tcp_rel_def const_vals)
  moreover have "tcp_run c ([] @ [Shut]) [] (c\<lparr>c_phase := Closed\<rparr>)"
    using tcp_run_single [OF tcp_step.shut] by simp
  ultimately show ?thesis using shut_rel [OF c] r
    by (intro conjI exI [of _ "[]"] exI [of _ "c\<lparr>c_phase := Closed\<rparr>"]) (auto simp: ready_def)
next
  case True
  then have e: "tcp_state s = 2" using c by (simp add: tcp_rel_def)
  obtain s1 where s1: "send_tcp_internal E 0x11 (tcp_seq s) (tcp_ack s) None 0 s = Some s1" "ready s1" "tcp_rel s1 c"
    by (rule send_empty_rel [OF r c])
  have fin: "(TCP_FLAG_FIN_ACK :: u8) = 0x11" by (simp add: const_vals)
  obtain s2 where s2: "wait_loop E STALL_1MS (\<lambda>s. tcp_state s = TCP_STATE_CLOSED_DONE) never TIMEOUT_CLOSE_LOOPS 0
      (s1\<lparr>tcp_state := 3\<rparr>) = Some s2" "st = EFI_SUCCESS" "s' = s2\<lparr>tcp_local_port := 0, tcp_state := 0\<rparr>"
    using t s1(1) e unfolding tcp_close_def fin
    by (auto simp: TCP_STATE_ESTABLISHED_def TCP_STATE_FIN_WAIT_def TCP_STATE_CLOSED_def elim!: bind_Some_E)
  let ?c1 = "c\<lparr>c_phase := Fin_Wait\<rparr>"
  have "tcp_rel (s1\<lparr>tcp_state := 3\<rparr>) ?c1" using set_state_rel [OF s1(2,3), of Fin_Wait] by simp
  then have "tcp_runs E (\<lambda>_. False) ?c1 (s1\<lparr>tcp_state := 3\<rparr>)"
    using s1(2) n by (intro tcp_runs_start) simp_all
  then have "tcp_runs E (\<lambda>_. False) ?c1 s2" by (rule tcp_wait.wait_loop_I [OF _ s2(1)])
  then obtain gs outs c' where run: "tcp_run ?c1 (map Segment gs) outs c'" "tcp_rel s2 c'" "ready s2"
    by (rule tcp_runs_segments)
  have "tcp_run c (Finish # map Segment gs) ([(0x11, c_seq c, c_ack c, [])] @ outs) c'"
    by (rule tcp_run.more [OF tcp_step.finish [OF True] run(1)])
  then have "tcp_run c ((Finish # map Segment gs) @ [Shut]) (([(0x11, c_seq c, c_ack c, [])] @ outs) @ []) (c'\<lparr>c_phase := Closed\<rparr>)"
    by (rule tcp_run_snoc [OF _ tcp_step.shut])
  then show ?thesis using shut_rel [OF run(2)] run(3) s2(2,3)
    by (intro conjI exI [of _ "Finish # map Segment gs"] exI [of _ "c'\<lparr>c_phase := Closed\<rparr>"]
        exI [of _ "([(0x11, c_seq c, c_ack c, [])] @ outs) @ []"]) (auto simp: ready_def)
qed

subsection \<open>Every operation returns on a safe network\<close>

lemma udp_inbox_ok_updates [simp]:
  "udp_inbox_ok (s\<lparr>tcp_rx_buffer := b\<rparr>) = udp_inbox_ok s" "udp_inbox_ok (s\<lparr>tcp_rx_max_len := n\<rparr>) = udp_inbox_ok s"
  "udp_inbox_ok (s\<lparr>tcp_rx_current_len := n\<rparr>) = udp_inbox_ok s" "udp_inbox_ok (s\<lparr>tcp_rx_done := d\<rparr>) = udp_inbox_ok s"
  "udp_inbox_ok (s\<lparr>tcp_state := t\<rparr>) = udp_inbox_ok s" "udp_inbox_ok (s\<lparr>tcp_local_port := p\<rparr>) = udp_inbox_ok s"
  "udp_inbox_ok (s\<lparr>tcp_seq := q\<rparr>) = udp_inbox_ok s"
  by (simp_all add: udp_inbox_ok_def split: option.split)

lemma saneI: "ready s \<Longrightarrow> tcp_rel s c \<Longrightarrow> udp_inbox_ok s \<Longrightarrow> sane s"
  by (auto simp: sane_def)

lemma send_empty_total:
  assumes "sane s"
  obtains s' where "send_tcp_internal E flags q a None 0 s = Some s'" "sane s'" "tcp_state s' = tcp_state s"
proof -
  obtain c where c: "ready s" "tcp_rel s c" "udp_inbox_ok s" using assms by (auto simp: sane_def)
  obtain s' where s': "send_tcp_internal E flags q a None 0 s = Some s'" "ready s'" "tcp_rel s' c"
    by (rule send_empty_rel [OF c(1,2)])
  have "udp_inbox_ok s'"
    using send_tcp_handled [OF c(1) s'(1)] udp_inbox_ok_config [of s' s] c(3) by (simp add: handled_def)
  then show thesis by (rule that [OF s'(1) saneI [OF s'(2,3)] send_tcp_state [OF s'(1) c(1)]])
qed

lemma tcp_connect_total:
  assumes s: "sane s" and n: "net_safe E"
  shows "\<exists>st s'. tcp_connect E ip port s = Some (st, s') \<and> sane s'"
proof -
  obtain c where c: "ready s" "tcp_rel s c" "udp_inbox_ok s" using s by (auto simp: sane_def)
  have "udp_inbox_ok (syn_prepare ip port s)"
    using c(3) by (simp add: syn_prepare_fields udp_inbox_ok_def split: option.splits)
  then have sane: "sane (syn_prepare ip port s)"
    using c(1) by (intro saneI [OF _ syn_prepare_rel [OF c(2)]]) (simp_all add: syn_prepare_fields)
  have tx: "\<exists>s'. send_tcp_internal E 0x02 (tcp_seq s) (tcp_ack s) None 0 s = Some s' \<and> sane s'" if "sane s" for s
    using that by (rule send_empty_total) blast
  have "\<exists>s'. syn_loop E (syn_prepare ip port s) = Some s' \<and> sane s'"
    unfolding syn_loop_def by (rule retry_loop_total [OF _ sane n]) (rule tx)
  then show ?thesis by (auto simp: tcp_connect_eq)
qed

lemma tcp_send_total:
  assumes s: "sane s" and d: "payload_arg data d" "length d \<le> 1446"
  shows "\<exists>st s'. tcp_send E data (of_nat (length d)) s = Some (st, s') \<and> sane s'"
proof (cases "tcp_state s = 2")
  case False
  then show ?thesis using s by (simp add: tcp_send_closed)
next
  case True
  obtain c where c: "ready s" "tcp_rel s c" "udp_inbox_ok s" using s by (auto simp: sane_def)
  then have "c_phase c = Established" using True by (simp add: tcp_rel_def)
  then obtain s' c' where s': "tcp_send E data (of_nat (length d)) s = Some (EFI_SUCCESS, s')" "ready s'" "tcp_rel s' c'"
    using tcp_send_run [OF c(1,2) _ d, of E] by blast
  from s'(1) obtain s1 where s1: "send_tcp_internal E TCP_FLAG_PSH_ACK (tcp_seq s) (tcp_ack s) data (of_nat (length d)) s = Some s1"
    "s' = s1\<lparr>tcp_seq := tcp_seq s1 + ucast (of_nat (length d) :: u64)\<rparr>"
    using True unfolding tcp_send_def TCP_STATE_ESTABLISHED_def by (auto elim!: bind_Some_E)
  have "udp_inbox_ok s'"
    unfolding s1(2) using send_tcp_handled [OF c(1) s1(1)] udp_inbox_ok_config [of s1 s] c(3) by (simp add: handled_def)
  then show ?thesis using s'(1) saneI [OF s'(2,3)] by blast
qed

lemma tcp_receive_total:
  assumes s: "sane s" and n: "net_safe E" and b: "unat max_len \<le> length buf"
  shows "\<exists>st b' k s'. tcp_receive E (Some buf) max_len ms s = Some (st, Some b', k, s') \<and> sane s' \<and>
    unat k \<le> length b' \<and> length b' = length buf"
proof -
  obtain c where c: "ready s" "tcp_rel s c" "udp_inbox_ok s" using s by (auto simp: sane_def)
  let ?s = "s\<lparr>tcp_rx_buffer := Some buf, tcp_rx_max_len := max_len, tcp_rx_current_len := 0, tcp_rx_done := False\<rparr>"
  let ?gone = "\<lambda>s. tcp_state s = TCP_STATE_CLOSED \<or> tcp_state s = TCP_STATE_CLOSED_DONE"
  have "sane ?s" using c by (intro saneI [OF _ post_rel [OF c(2) b]]) simp_all
  then obtain s1 where s1: "wait_loop E STALL_100US tcp_rx_done ?gone (ms * 0x0A) 0 ?s = Some s1" "sane s1"
    using wait_loop_total [OF _ n] by blast
  have "config_of s1 = config_of ?s"
    using wait_loop_waited [OF _ s1(1)] c(1) by simp
  then obtain b' where b': "tcp_rx_buffer s1 = Some b'" "length b' = length buf" "tcp_rx_max_len s1 = max_len"
    by (auto simp: config_of_def)
  obtain c1 where c1: "ready s1" "tcp_rel s1 c1" "udp_inbox_ok s1" using s1(2) by (auto simp: sane_def)
  then have "unat (tcp_rx_current_len s1) \<le> length b'" using b' by (simp add: tcp_rel_def inbox_rel_def)
  moreover have "sane (s1\<lparr>tcp_rx_buffer := None\<rparr>)" using c1 by (intro saneI [OF _ withdraw_rel]) simp_all
  ultimately show ?thesis using b'(1,2) by (simp add: tcp_receive_def s1(1) Let_def)
qed

lemma tcp_close_total:
  assumes s: "sane s" and n: "net_safe E"
  shows "\<exists>s'. tcp_close E s = Some (EFI_SUCCESS, s') \<and> sane s'"
proof -
  have "\<exists>s1. (if tcp_state s = TCP_STATE_ESTABLISHED
      then do {
        s \<leftarrow> send_tcp_internal E TCP_FLAG_FIN_ACK (tcp_seq s) (tcp_ack s) None 0x00 s;
        let s = s\<lparr>tcp_state := TCP_STATE_FIN_WAIT\<rparr>;
        wait_loop E STALL_1MS (\<lambda>s. tcp_state s = TCP_STATE_CLOSED_DONE) never TIMEOUT_CLOSE_LOOPS 0x00 s }
      else Some s) = Some s1 \<and> sane s1"
  proof (cases "tcp_state s = TCP_STATE_ESTABLISHED")
    case True
    obtain s1 where s1: "send_tcp_internal E TCP_FLAG_FIN_ACK (tcp_seq s) (tcp_ack s) None 0 s = Some s1" "sane s1"
      using send_empty_total [OF s] by metis
    obtain c where "ready s1" "tcp_rel s1 c" "udp_inbox_ok s1" using s1(2) by (auto simp: sane_def)
    then have "sane (s1\<lparr>tcp_state := TCP_STATE_FIN_WAIT\<rparr>)"
      using set_state_rel [of s1 c Fin_Wait] by (auto simp: TCP_STATE_FIN_WAIT_def intro: saneI)
    from wait_loop_total [OF this n] show ?thesis using True s1(1) by auto
  qed (use s in simp)
  then obtain s1 where s1: "(if tcp_state s = TCP_STATE_ESTABLISHED
      then do {
        s \<leftarrow> send_tcp_internal E TCP_FLAG_FIN_ACK (tcp_seq s) (tcp_ack s) None 0x00 s;
        let s = s\<lparr>tcp_state := TCP_STATE_FIN_WAIT\<rparr>;
        wait_loop E STALL_1MS (\<lambda>s. tcp_state s = TCP_STATE_CLOSED_DONE) never TIMEOUT_CLOSE_LOOPS 0x00 s }
      else Some s) = Some s1" "sane s1" by blast
  obtain c where "ready s1" "tcp_rel s1 c" "udp_inbox_ok s1" using s1(2) by (auto simp: sane_def)
  then have "sane (s1\<lparr>tcp_local_port := 0, tcp_state := 0\<rparr>)" using shut_rel [of s1 c] by (intro saneI) simp_all
  then show ?thesis unfolding tcp_close_def s1(1) by (simp add: TCP_STATE_CLOSED_def)
qed

end
