(* ===== verification/Net_Api.thy ===== *)
theory Net_Api
  imports Net_Api_Tcp
begin

text \<open>
  The datagram and query operations of \<^verbatim>\<open>api.hpp\<close>: \<open>resolve_hostname\<close>, \<open>udp_send\<close>,
  \<open>udp_receive\<close>, \<open>ping\<close>.  The lemmas say what the caller gets on each way out, that a call polls at
  most as often as its timeout allows and exactly that often when it times out, and that it returns
  on a safe network; on a network that delivers nothing every wait times out.
\<close>

text \<open>\<open>out_ip\<close> is the caller's variable, written on success only.\<close>

definition resolve_hostname :: "firmware \<Rightarrow> bytes \<Rightarrow> u32 \<Rightarrow> state \<Rightarrow> (efi_status \<times> u32 \<times> state) option" where
  "resolve_hostname E hostname out_ip s = do {
     let s = s\<lparr>dns_resolved := False, dns_resolved_ip := 0x00\<rparr>;
     s \<leftarrow> retry_loop E (dns_query E hostname) dns_resolved never TIMEOUT_TCP_LOOPS 0x00 0x00 s;
     Some (if dns_resolved s then (EFI_SUCCESS, dns_resolved_ip s, s) else (EFI_TIMEOUT, out_ip, s)) }"

definition udp_send :: "firmware \<Rightarrow> u32 \<Rightarrow> u16 \<Rightarrow> bytes option \<Rightarrow> u64 \<Rightarrow> state \<Rightarrow> (efi_status \<times> state) option" where
  "udp_send E dest_ip dest_port data len s = do {
     let s = (if udp_local_port s = 0x00
              then let (p, s) = get_ephemeral_port s in s\<lparr>udp_local_port := p\<rparr> else s);
     s \<leftarrow> send_udp E dest_ip dest_port (udp_local_port s) data len s;
     Some (EFI_SUCCESS, s) }"

definition udp_receive ::
  "firmware \<Rightarrow> bytes option \<Rightarrow> u64 \<Rightarrow> u32 \<Rightarrow> state \<Rightarrow> (efi_status \<times> bytes option \<times> u64 \<times> state) option" where
  "udp_receive E buffer max_len timeout_ms s = do {
     let s = s\<lparr>udp_rx_buffer := buffer, udp_rx_max_len := max_len, udp_rx_current_len := 0x00,
               udp_rx_done := False\<rparr>;
     let max_loops = timeout_ms * 0x0A;
     s \<leftarrow> wait_loop E STALL_100US udp_rx_done never max_loops 0x00 s;
     let buffer = udp_rx_buffer s;
     let s = s\<lparr>udp_rx_buffer := None\<rparr>;
     Some (if udp_rx_done s then EFI_SUCCESS else EFI_TIMEOUT, buffer, udp_rx_current_len s, s) }"

definition ping :: "firmware \<Rightarrow> u32 \<Rightarrow> u32 \<Rightarrow> state \<Rightarrow> (efi_status \<times> state) option" where
  "ping E target_ip timeout_ms s = do {
     let (r, s) = get_u32 s;
     let s = s\<lparr>ping_id := ucast (r AND 0xFFFF)\<rparr>;
     let (r, s) = get_u32 s;
     let s = s\<lparr>ping_seq := ucast (r AND 0xFFFF)\<rparr>;
     let s = s\<lparr>ping_reply_received := False\<rparr>;
     s \<leftarrow> send_icmp_echo E target_ip (ping_id s) (ping_seq s) s;
     let max_loops = timeout_ms * 0x0A;
     s \<leftarrow> wait_loop E STALL_100US ping_reply_received never max_loops 0x00 s;
     Some (if ping_reply_received s then EFI_SUCCESS else EFI_TIMEOUT, s) }"

subsection \<open>Sending keeps the stack sane\<close>

text \<open>The fields the invariants look at, apart from \<open>ready\<close>'s.\<close>

definition users_of :: "state \<Rightarrow> _" where
  "users_of s = (tcp_view s, udp_rx_buffer s, udp_rx_max_len s)"

lemma sane_users: "users_of s' = users_of s \<Longrightarrow> ready s' \<Longrightarrow> sane s \<Longrightarrow> sane s'"
  unfolding sane_def users_of_def by (auto simp: udp_inbox_ok_def cong: option.case_cong dest: tcp_rel_view)

lemma sends_users: "sends s f s' \<Longrightarrow> users_of s' = users_of s"
  by (auto simp: sends_def users_of_def tcp_view_def)

lemma users_simps [simp]:
  "users_of (s\<lparr>rng_seed := r\<rparr>) = users_of s" "users_of (s\<lparr>ping_id := i\<rparr>) = users_of s"
  "users_of (s\<lparr>ping_seq := i\<rparr>) = users_of s" "users_of (s\<lparr>ping_reply_received := b\<rparr>) = users_of s"
  "users_of (s\<lparr>udp_local_port := p\<rparr>) = users_of s" "users_of (s\<lparr>dns_local_port := p\<rparr>) = users_of s"
  "users_of (s\<lparr>dns_current_id := i\<rparr>) = users_of s" "users_of (s\<lparr>dns_resolved := b\<rparr>) = users_of s"
  "users_of (s\<lparr>dns_resolved_ip := a\<rparr>) = users_of s" "users_of (s\<lparr>arp_resolved := b\<rparr>) = users_of s"
  "users_of (s\<lparr>arp_target_ip := a\<rparr>) = users_of s"
  by (simp_all add: users_of_def tcp_view_def)

lemma get_u32_users [simp]: "users_of (snd (get_u32 s)) = users_of s"
  by (simp add: get_u32_def Let_def)

lemma ephemeral_users [simp]: "users_of (snd (get_ephemeral_port s)) = users_of s"
  by (simp add: get_ephemeral_port_def Let_def case_prod_unfold)

lemma send_frame_sane:
  assumes "sane s" "length f \<le> 4096"
  obtains s' where "send_frame E f s = Some s'" "sends s f s'" "sane s'"
proof -
  have r: "ready s" using assms(1) by (simp add: sane_def)
  obtain s' where s': "send_frame E f s = Some s'" "sends s f s'" "ready s'" using send_frame_ready [OF r assms(2)] by blast
  then show thesis using that sane_users [OF sends_users [OF s'(2)]] assms(1) by blast
qed

subsection \<open>Ping\<close>

definition ping_prepare :: "state \<Rightarrow> state" where
  "ping_prepare s =
     (let (r, s) = get_u32 s; s = s\<lparr>ping_id := ucast (r AND 0xFFFF)\<rparr>;
          (r, s) = get_u32 s; s = s\<lparr>ping_seq := ucast (r AND 0xFFFF)\<rparr>
      in s\<lparr>ping_reply_received := False\<rparr>)"

lemma ping_prepare_facts [simp]:
  "ready (ping_prepare s) = ready s" "users_of (ping_prepare s) = users_of s" "\<not> ping_reply_received (ping_prepare s)"
  "polls (ping_prepare s) = polls s"
  by (simp_all add: ping_prepare_def get_u32_def Let_def polls_def)

definition echo_request :: "state \<Rightarrow> u32 \<Rightarrow> bytes" where
  "echo_request s target_ip =
     (let s = ping_prepare s in echo_frame s target_ip (ucast (fst (get_u32 s) AND 0xFFFF)) (ping_id s) (ping_seq s))"

definition reply_wait :: "firmware \<Rightarrow> u32 \<Rightarrow> state \<Rightarrow> state option" where
  "reply_wait E ms = wait_loop E STALL_100US ping_reply_received never (ms * 10) 0"

lemma ping_eq:
  assumes "ready s"
  shows "ping E target_ip ms s = do {
     s \<leftarrow> send_frame E (echo_request s target_ip) (snd (get_u32 (ping_prepare s)));
     s \<leftarrow> reply_wait E ms s;
     Some (if ping_reply_received s then EFI_SUCCESS else EFI_TIMEOUT, s) }"
  using send_icmp_echo_eq [of "ping_prepare s" E target_ip "ping_id (ping_prepare s)" "ping_seq (ping_prepare s)"] assms
  by (simp add: ping_def ping_prepare_def echo_request_def reply_wait_def Let_def case_prod_unfold)

text \<open>
  A ping sends one echo request and then polls: at most ten times per millisecond of the timeout
  (as a 32-bit product), and exactly so often when it times out.
\<close>

lemma ping_result:
  assumes r: "ready s" and p: "ping E target_ip ms s = Some (st, s')"
  shows "ready s' \<and> (st = EFI_SUCCESS \<longleftrightarrow> ping_reply_received s') \<and> (st = EFI_SUCCESS \<or> st = EFI_TIMEOUT) \<and>
    polls s' \<le> polls s + unat (ms * 10) \<and> (st = EFI_TIMEOUT \<longrightarrow> polls s' = polls s + unat (ms * 10))"
proof -
  obtain s1 where s1: "send_frame E (echo_request s target_ip) (snd (get_u32 (ping_prepare s))) = Some s1"
    "reply_wait E ms s1 = Some s'" "st = (if ping_reply_received s' then EFI_SUCCESS else EFI_TIMEOUT)"
    using p unfolding ping_eq [OF r] by (auto elim!: bind_Some_E)
  have "sends (snd (get_u32 (ping_prepare s))) (echo_request s target_ip) s1 \<and> ready s1"
    by (rule send_frame_Some [OF s1(1)]) (use r in \<open>simp_all add: echo_request_def Let_def length_echo_frame\<close>)
  then have "ready s1" "polls s1 = polls s"
    using sends_handled [of "snd (get_u32 (ping_prepare s))"] by (auto simp: handled_def get_u32_def Let_def polls_def [of "_\<lparr>rng_seed := _\<rparr>"] simp flip: polls_def)
  then show ?thesis
    using wait_loop_waited [of s1 E STALL_100US ping_reply_received never "ms * 10" 0 s'] s1(2,3)
    by (auto simp: reply_wait_def waited_def const_vals)
qed

lemma ping_total:
  assumes s: "sane s" and n: "net_safe E"
  shows "\<exists>st s'. ping E target_ip ms s = Some (st, s') \<and> sane s'"
proof -
  have r: "ready s" using s by (simp add: sane_def)
  have s0: "sane (snd (get_u32 (ping_prepare s)))" by (rule sane_users [OF _ _ s]) (simp_all add: r)
  have "length (echo_request s target_ip) \<le> 4096" by (simp add: echo_request_def Let_def length_echo_frame r)
  then obtain s1 where s1: "send_frame E (echo_request s target_ip) (snd (get_u32 (ping_prepare s))) = Some s1" "sane s1"
    using send_frame_sane [OF s0] by metis
  obtain s2 where "reply_wait E ms s1 = Some s2" "sane s2"
    using wait_loop_total [OF s1(2) n] unfolding reply_wait_def by blast
  then show ?thesis by (simp add: ping_eq [OF r] s1(1))
qed

subsection \<open>Name resolution\<close>

lemma dns_prepare_users [simp]: "users_of (dns_prepare s) = users_of s"
  by (simp add: dns_prepare_def get_u32_def get_ephemeral_port_def Let_def case_prod_unfold users_of_def tcp_view_def)

lemma dns_query_total:
  assumes s: "sane s" and h: "0 \<in> set hostname" "length (cstring hostname) \<le> 540"
  shows "\<exists>s'. dns_query E hostname s = Some s' \<and> sane s'"
proof -
  have r: "ready s" using s by (simp add: sane_def)
  have "sane (dns_prepare s)" by (rule sane_users [OF _ ready_dns_prepare [OF r] s]) simp
  moreover have "length (dns_frame (dns_prepare s) (ucast (fst (get_u32 s) AND 0xFFFF)) (cstring hostname)) \<le> 4096"
    using h(2) length_dns_frame [OF ready_dns_prepare [OF r]] by simp
  ultimately show ?thesis unfolding dns_query_eq [OF r h] by (metis send_frame_sane)
qed

lemma dns_query_effect:
  assumes r: "ready s" and h: "0 \<in> set hostname" "length (cstring hostname) \<le> 540" and q: "dns_query E hostname s = Some s'"
  shows "ready s' \<and> polls s' = polls s \<and> flags_kept s s'"
proof -
  have "length (dns_frame (dns_prepare s) (ucast (fst (get_u32 s) AND 0xFFFF)) (cstring hostname)) \<le> 4096"
    using h(2) length_dns_frame [OF ready_dns_prepare [OF r]] by simp
  then have "sends (dns_prepare s) (dns_frame (dns_prepare s) (ucast (fst (get_u32 s) AND 0xFFFF)) (cstring hostname)) s' \<and> ready s'"
    using send_frame_Some ready_dns_prepare [OF r] q unfolding dns_query_eq [OF r h] by blast
  moreover have "polls (dns_prepare s) = polls s" "flags_kept s (dns_prepare s)"
    by (simp_all add: dns_prepare_def get_u32_def get_ephemeral_port_def Let_def case_prod_unfold polls_def flags_kept_def udp_len_ok_def)
  ultimately show ?thesis using sends_handled [of "dns_prepare s"] by (auto simp: handled_def flags_kept_def)
qed

text \<open>
  Success means a response was accepted, and its address is the result; on a timeout the caller's
  variable is untouched and the loop has polled half a million times.
\<close>

lemma resolve_result:
  assumes r: "ready s" and h: "0 \<in> set hostname" "length (cstring hostname) \<le> 540"
    and q: "resolve_hostname E hostname out_ip s = Some (st, ip, s')"
  shows "ready s' \<and> (if dns_resolved s' then st = EFI_SUCCESS \<and> ip = dns_resolved_ip s'
      else st = EFI_TIMEOUT \<and> ip = out_ip \<and> polls s' = polls s + 500000) \<and>
    polls s' \<le> polls s + 500000"
proof -
  let ?s = "s\<lparr>dns_resolved := False, dns_resolved_ip := 0\<rparr>"
  have s': "retry_loop E (dns_query E hostname) dns_resolved never TIMEOUT_TCP_LOOPS 0 0 ?s = Some s'"
    "(st, ip) = (if dns_resolved s' then (EFI_SUCCESS, dns_resolved_ip s') else (EFI_TIMEOUT, out_ip))"
    using q by (auto simp: resolve_hostname_def bind_Some_iff split: if_splits)
  have "waited dns_resolved never (unat TIMEOUT_TCP_LOOPS - unat (0 :: u32)) ?s s'"
    by (rule retry_loop_waited [OF _ _ s'(1)]) (use r h dns_query_effect in \<open>auto simp: const_vals\<close>)
  moreover have "polls ?s = polls s" by (simp add: polls_def)
  ultimately show ?thesis using s'(2) by (auto simp: waited_def const_vals)
qed

lemma resolve_total:
  assumes s: "sane s" and n: "net_safe E" and h: "0 \<in> set hostname" "length (cstring hostname) \<le> 540"
  shows "\<exists>st ip s'. resolve_hostname E hostname out_ip s = Some (st, ip, s') \<and> sane s'"
proof -
  let ?s = "s\<lparr>dns_resolved := False, dns_resolved_ip := 0\<rparr>"
  have "sane ?s" by (rule sane_users [OF _ _ s]) (use s in \<open>simp_all add: sane_def\<close>)
  then have "\<exists>s'. retry_loop E (dns_query E hostname) dns_resolved never TIMEOUT_TCP_LOOPS 0 0 ?s = Some s' \<and> sane s'"
    using dns_query_total [OF _ h] by (intro retry_loop_total [OF _ _ n])
  then show ?thesis by (auto simp: resolve_hostname_def)
qed

subsection \<open>Datagrams\<close>

definition udp_prepare :: "state \<Rightarrow> state" where
  "udp_prepare s =
     (if udp_local_port s = 0 then (snd (get_ephemeral_port s))\<lparr>udp_local_port := fst (get_ephemeral_port s)\<rparr> else s)"

lemma udp_prepare_facts [simp]:
  "ready (udp_prepare s) = ready s" "users_of (udp_prepare s) = users_of s" "udp_local_port (udp_prepare s) \<noteq> 0"
  using ephemeral_port_range [of s] by (simp_all add: udp_prepare_def)

text \<open>
  The first datagram picks an ephemeral source port, which later ones keep; a payload of at most
  1458 bytes goes out as one datagram.
\<close>

lemma udp_send_eq:
  assumes r: "ready s" and d: "length d \<le> 1458" "length d \<le> length buf" "d = take (length d) buf"
  shows "udp_send E ip port (Some buf) (of_nat (length d)) s = do {
     s' \<leftarrow> send_frame E (udp_frame (udp_prepare s) (ucast (fst (get_u32 (udp_prepare s)) AND 0xFFFF)) ip
              (udp_local_port (udp_prepare s)) port d) (snd (get_u32 (udp_prepare s)));
     Some (EFI_SUCCESS, s') }"
proof -
  have "udp_send E ip port (Some buf) (of_nat (length d)) s =
      send_udp E ip port (udp_local_port (udp_prepare s)) (Some buf) (of_nat (length d)) (udp_prepare s) \<bind>
      (\<lambda>s. Some (EFI_SUCCESS, s))"
    by (simp add: udp_send_def udp_prepare_def Let_def case_prod_unfold)
  then show ?thesis using send_udp_eq [of "udp_prepare s" d buf E ip port] r d by simp
qed

lemma udp_send_total:
  assumes s: "sane s" and d: "length d \<le> 1458" "length d \<le> length buf" "d = take (length d) buf"
  shows "\<exists>s'. udp_send E ip port (Some buf) (of_nat (length d)) s = Some (EFI_SUCCESS, s') \<and> sane s'"
proof -
  have r: "ready s" using s by (simp add: sane_def)
  have "sane (snd (get_u32 (udp_prepare s)))" by (rule sane_users [OF _ _ s]) (simp_all add: r)
  moreover have "length (udp_frame (udp_prepare s) i ip p port d) \<le> 4096" for i p
    using d(1) length_udp_frame [of "udp_prepare s"] r by simp
  ultimately show ?thesis unfolding udp_send_eq [OF r d] by (metis send_frame_sane bind.bind_lunit)
qed

text \<open>A datagram that is received lies at the start of the caller's buffer, cut off at its size.\<close>

lemma udp_receive_result:
  assumes r: "ready s" and p: "udp_receive E (Some buf) max_len ms s = Some (st, buffer, k, s')"
  shows "ready s' \<and> udp_rx_buffer s' = None \<and> map_option length buffer = Some (length buf) \<and>
    (st = EFI_SUCCESS \<longleftrightarrow> udp_rx_done s') \<and> (st = EFI_SUCCESS \<or> st = EFI_TIMEOUT) \<and>
    polls s' \<le> polls s + unat (ms * 10) \<and> (st = EFI_TIMEOUT \<longrightarrow> polls s' = polls s + unat (ms * 10))"
proof -
  let ?s = "s\<lparr>udp_rx_buffer := Some buf, udp_rx_max_len := max_len, udp_rx_current_len := 0, udp_rx_done := False\<rparr>"
  obtain s1 where s1: "wait_loop E STALL_100US udp_rx_done never (ms * 0x0A) 0 ?s = Some s1"
    "s' = s1\<lparr>udp_rx_buffer := None\<rparr>" "buffer = udp_rx_buffer s1" "st = (if udp_rx_done s1 then EFI_SUCCESS else EFI_TIMEOUT)"
    using p unfolding udp_receive_def Let_def by (auto elim!: bind_Some_E)
  have w: "waited udp_rx_done never (unat (ms * 0x0A) - unat (0 :: u32)) ?s s1 \<and> config_of s1 = config_of ?s"
    by (rule wait_loop_waited [OF _ s1(1)]) (simp_all add: r)
  then have "map_option length (udp_rx_buffer s1) = Some (length buf)" by (simp add: config_of_def)
  moreover have "polls ?s = polls s" "polls s' = polls s1" by (simp_all add: polls_def s1(2))
  ultimately show ?thesis using w s1 by (auto simp: waited_def const_vals)
qed

lemma udp_receive_total:
  assumes s: "sane s" and n: "net_safe E" and b: "unat max_len \<le> length buf"
  shows "\<exists>st b' k s'. udp_receive E (Some buf) max_len ms s = Some (st, Some b', k, s') \<and> sane s' \<and>
    unat k \<le> length b' \<and> length b' = length buf"
proof -
  obtain c where c: "ready s" "tcp_rel s c" using s by (auto simp: sane_def)
  let ?s = "s\<lparr>udp_rx_buffer := Some buf, udp_rx_max_len := max_len, udp_rx_current_len := 0, udp_rx_done := False\<rparr>"
  have "tcp_rel ?s c" using tcp_rel_view [of ?s s c] c(2) by (simp add: tcp_view_def)
  then have "sane ?s" using c(1) b by (intro saneI) (simp_all add: udp_inbox_ok_def)
  then obtain s1 where s1: "wait_loop E STALL_100US udp_rx_done never (ms * 0x0A) 0 ?s = Some s1" "sane s1"
    using wait_loop_total [OF _ n] by blast
  have w: "config_of s1 = config_of ?s" "flags_kept ?s s1"
    using wait_loop_waited [OF _ s1(1)] c(1) by (simp_all add: waited_def)
  then obtain b' where b': "udp_rx_buffer s1 = Some b'" "length b' = length buf" "udp_rx_max_len s1 = max_len"
    by (auto simp: config_of_def)
  have "udp_rx_current_len s1 \<le> max_len" using w(2) b'(3) by (simp add: flags_kept_def udp_len_ok_def)
  then have k: "unat (udp_rx_current_len s1) \<le> length b'" using b b'(2) by (simp add: word_le_nat_alt)
  obtain c1 where c1: "ready s1" "tcp_rel s1 c1" using s1(2) by (auto simp: sane_def)
  have "tcp_rel (s1\<lparr>udp_rx_buffer := None\<rparr>) c1" using tcp_rel_view [of "s1\<lparr>udp_rx_buffer := None\<rparr>" s1 c1] c1(2) by (simp add: tcp_view_def)
  then have "sane (s1\<lparr>udp_rx_buffer := None\<rparr>)" using c1(1) by (intro saneI) (simp_all add: udp_inbox_ok_def)
  then show ?thesis using k b'(1,2) by (simp add: udp_receive_def s1(1) Let_def)
qed

subsection \<open>A network that delivers nothing\<close>

definition silent :: "firmware \<Rightarrow> bool" where
  "silent E \<longleftrightarrow> (\<forall>tr. fst (fw_receive E tr) = EFI_NOT_READY)"

lemma silent_safe: "silent E \<Longrightarrow> net_safe E"
  unfolding net_safe_def silent_def snp_receive_def snp_call_def
  by (auto simp: Let_def case_prod_unfold split: if_splits)

text \<open>A predicate of the state that does not look at the received page or the history.\<close>

definition heedless :: "(state \<Rightarrow> bool) \<Rightarrow> bool" where
  "heedless P \<longleftrightarrow> (\<forall>s rx tr. P (s\<lparr>rx_pkt := rx, trace := tr\<rparr>) = P s)"

lemma silent_poll:
  assumes "silent E" "heedless P" "poll E s = Some s'"
  shows "P s' = P s"
proof -
  obtain st s1 where s1: "snp_receive E 4096 s = Some (st, s1)"
    using assms(3) by (auto simp: poll_def PKT_BUF_SIZE_def elim: bind_Some_E)
  have "s1 = s\<lparr>rx_pkt := rx_pkt s1, trace := Receive 4096 # trace s\<rparr>" "st = fst (fw_receive E (Receive 4096 # trace s))"
    using s1 by (auto simp: snp_receive_def snp_call_def call_def Let_def case_prod_unfold split: if_splits)
  then have "P s1 = P s" "st = EFI_NOT_READY" using assms(1,2) unfolding heedless_def silent_def by metis+
  then show ?thesis using assms(3) s1 by (simp add: poll_def PKT_BUF_SIZE_def)
qed

interpretation silent_wait: poll_inv E "\<lambda>s. silent E \<and> heedless P \<and> P s"
proof
  show "silent E \<and> heedless P \<and> P s'" if "silent E \<and> heedless P \<and> P s" "poll E s = Some s'" for s s'
    using that silent_poll by blast
  show "silent E \<and> heedless P \<and> P s'" if "silent E \<and> heedless P \<and> P s" "stall us s = Some s'" for s s' us
  proof -
    have "s' = s\<lparr>rx_pkt := rx_pkt s, trace := Stall us # trace s\<rparr>"
      using that(2) by (simp add: stall_def call_def split: if_splits)
    then show ?thesis using that(1) unfolding heedless_def by metis
  qed
qed

text \<open>There every ping times out, after exactly its number of polls.\<close>

lemma ping_silent:
  assumes s: "sane s" and n: "silent E"
  shows "\<exists>s'. ping E target_ip ms s = Some (EFI_TIMEOUT, s') \<and> polls s' = polls s + unat (ms * 10)"
proof -
  have r: "ready s" using s by (simp add: sane_def)
  obtain st s' where p: "ping E target_ip ms s = Some (st, s')" using ping_total [OF s silent_safe [OF n]] by blast
  then obtain s1 where s1: "send_frame E (echo_request s target_ip) (snd (get_u32 (ping_prepare s))) = Some s1"
    "reply_wait E ms s1 = Some s'"
    unfolding ping_eq [OF r] by (auto elim!: bind_Some_E)
  have "sends (snd (get_u32 (ping_prepare s))) (echo_request s target_ip) s1 \<and> ready s1"
    by (rule send_frame_Some [OF s1(1)]) (use r in \<open>simp_all add: echo_request_def Let_def length_echo_frame\<close>)
  moreover have "\<not> ping_reply_received (snd (get_u32 (ping_prepare s)))" by (simp add: get_u32_def Let_def)
  ultimately have "\<not> ping_reply_received s1" by (auto simp: sends_def)
  then have "silent E \<and> heedless (\<lambda>s. \<not> ping_reply_received s) \<and> \<not> ping_reply_received s1"
    using n by (simp add: heedless_def)
  from silent_wait.wait_loop_I [OF this s1(2) [unfolded reply_wait_def]]
  have "\<not> ping_reply_received s'" by blast
  then have "st = EFI_TIMEOUT \<and> polls s' = polls s + unat (ms * 10)" using ping_result [OF r p] by blast
  then show ?thesis using p by blast
qed

end
