(* ===== verification/Net_Dhcp.thy ===== *)
theory Net_Dhcp
  imports Net_Api
begin

text \<open>
  The DHCP client inside \<open>init_network\<close> of \<^verbatim>\<open>api.hpp\<close>: the option parser, the two-state client and
  its receive loop.  The parser walks the receive page itself; its scan limit is what keeps it
  inside the page, whatever the options say.  The loop needs no assumption on the network: it is
  total on every frame, ends after at most 500000 rounds, and is bound only after a REQUEST for the
  address it holds has been sent.
\<close>

subsection \<open>Options\<close>

text \<open>The test \<open>*p == code && p[0x01] >= min_len\<close>.\<close>

definition opt_at :: "bytes \<Rightarrow> nat \<Rightarrow> u8 \<Rightarrow> u8 \<Rightarrow> bool option" where
  "opt_at rx p code min_len = do {
     c \<leftarrow> rd rx p;
     if c = code then do { n \<leftarrow> rd rx (p + 0x01); Some (n \<ge> min_len) } else Some False }"

definition opt_word :: "bytes \<Rightarrow> nat \<Rightarrow> u32 option" where
  "opt_word rx p = do { b \<leftarrow> load rx (p + 0x02) 0x04; Some (dec32 b) }"

definition apply_option :: "nat \<Rightarrow> u8 \<times> state \<Rightarrow> (u8 \<times> state) option" where
  "apply_option p ms = do {
     let (msg_type, s) = ms;
     let rx = rx_pkt s;
     b \<leftarrow> opt_at rx p DHCP_OPT_MSG_TYPE 0x01;
     msg_type \<leftarrow> (if b then rd rx (p + 0x02) else Some msg_type);
     b \<leftarrow> opt_at rx p DHCP_OPT_ROUTER 0x04;
     s \<leftarrow> (if b then do { w \<leftarrow> opt_word rx p; Some (s\<lparr>router_ip := w\<rparr>) } else Some s);
     b \<leftarrow> opt_at rx p DHCP_OPT_DNS 0x04;
     s \<leftarrow> (if b then do { w \<leftarrow> opt_word rx p; Some (s\<lparr>dns_server_ip := w\<rparr>) } else Some s);
     b \<leftarrow> opt_at rx p DHCP_OPT_SUBNET_MASK 0x04;
     s \<leftarrow> (if b then do { w \<leftarrow> opt_word rx p; Some (s\<lparr>subnet_mask := w\<rparr>) } else Some s);
     b \<leftarrow> opt_at rx p DHCP_OPT_LEASE_TIME 0x04;
     s \<leftarrow> (if b then do { lt \<leftarrow> opt_word rx p; Some (s\<lparr>dhcp_lease_time := ntohl lt\<rparr>) } else Some s);
     Some (msg_type, s) }"

text \<open>\<open>base\<close> is the position of \<open>dhcp->options\<close>, \<open>p\<close> the running pointer.\<close>

function scan_options :: "nat \<Rightarrow> nat \<Rightarrow> u8 \<times> state \<Rightarrow> (u8 \<times> state) option" where
  "scan_options base p ms = do {
     c \<leftarrow> rd (rx_pkt (snd ms)) p;
     if c = DHCP_OPT_END then Some ms
     else if p \<ge> base + DHCP_OPT_MAX_SCAN then Some ms
     else do {
       ms \<leftarrow> apply_option p ms;
       if c = DHCP_OPT_PAD then scan_options base (p + 1) ms
       else do {
         n \<leftarrow> rd (rx_pkt (snd ms)) (p + 0x01);
         scan_options base (p + (unat n + 0x02)) ms } } }"
  by pat_completeness auto
termination
  by (relation "measure (\<lambda>(base, p, ms). base + DHCP_OPT_MAX_SCAN - p)") (auto simp: const_vals)

declare scan_options.simps [simp del]

subsection \<open>Messages\<close>

text \<open>The transition made by a message with the cookie; the state, the retransmission counter.\<close>

definition dhcp_transition :: "ip_hdr \<Rightarrow> dhcp_hdr \<Rightarrow> u8 \<Rightarrow> u32 \<Rightarrow> u32 \<Rightarrow> state \<Rightarrow> u32 \<times> u32 \<times> state" where
  "dhcp_transition ip dhcp msg_type dhcp_state timeout s =
     (if dhcp_state = DHCP_STATE_DISCOVER \<and> dhcp_op dhcp = DHCP_OP_REPLY then
        if msg_type = DHCP_MSG_OFFER \<or> msg_type = 0x00
        then let s = s\<lparr>my_ip := dhcp_yiaddr dhcp\<rparr>;
                 s = s\<lparr>dhcp_server_ip := dhcp_siaddr dhcp\<rparr>;
                 s = (if dhcp_server_ip s = 0x00 then s\<lparr>dhcp_server_ip := ip_saddr ip\<rparr> else s)
             in (DHCP_STATE_OFFER_RCVD, 0x00, s)
        else (dhcp_state, timeout, s)
      else if dhcp_state = DHCP_STATE_OFFER_RCVD \<and> dhcp_op dhcp = DHCP_OP_REPLY then
        if msg_type = DHCP_MSG_ACK \<or> msg_type = 0x00
        then let s = (if router_ip s = 0x00 then s\<lparr>router_ip := dhcp_server_ip s\<rparr> else s)
             in (DHCP_STATE_BOUND, timeout, s)
        else (dhcp_state, timeout, s)
      else (dhcp_state, timeout, s))"

definition dhcp_input :: "u32 \<Rightarrow> u32 \<Rightarrow> state \<Rightarrow> (u32 \<times> u32 \<times> state) option" where
  "dhcp_input dhcp_state timeout s = do {
     b \<leftarrow> load (rx_pkt s) 0 14;
     let eth = dec_eth b;
     if eth_type eth = htons ETHERTYPE_IPV4 then do {
       b \<leftarrow> load (rx_pkt s) 14 20;
       let ip = dec_ip b;
       let ip_hlen = (ucast (ihl_version ip AND 0x0F) * 0x04 :: u64);
       let ip_hlen = (if ip_hlen < IP_HDR_MIN_LEN then IP_HDR_MIN_LEN else ip_hlen);
       if ip_protocol ip = IP_PROTO_UDP then do {
         let p = 14 + unat ip_hlen;
         b \<leftarrow> load (rx_pkt s) p 8;
         let udp = dec_udp b;
         if udp_dest udp = htons UDP_PORT_DHCP_CLIENT then do {
           b \<leftarrow> load (rx_pkt s) (p + 8) 540;
           let dhcp = dec_dhcp b;
           if dhcp_magic dhcp = htonl DHCP_MAGIC_COOKIE then do {
             (msg_type, s) \<leftarrow> scan_options (p + 8 + 240) (p + 8 + 240) (0x00, s);
             Some (dhcp_transition ip dhcp msg_type dhcp_state timeout s) }
           else Some (dhcp_state, timeout, s) }
         else Some (dhcp_state, timeout, s) }
       else Some (dhcp_state, timeout, s) }
     else Some (dhcp_state, timeout, s) }"

definition dhcp_send :: "firmware \<Rightarrow> u32 \<Rightarrow> u32 \<Rightarrow> u32 \<Rightarrow> state \<Rightarrow> (u32 \<times> state) option" where
  "dhcp_send E xid dhcp_state timeout s =
     (if timeout = 0x00
      then do {
        s \<leftarrow> (if dhcp_state = DHCP_STATE_DISCOVER then send_dhcp E DHCP_MSG_DISCOVER xid s
             else if dhcp_state = DHCP_STATE_OFFER_RCVD then send_dhcp E DHCP_MSG_REQUEST xid s
             else Some s);
        Some (TIMEOUT_RETRANSMIT, s) }
      else Some (timeout, s))"

definition dhcp_receive :: "firmware \<Rightarrow> u32 \<Rightarrow> u32 \<Rightarrow> state \<Rightarrow> (u32 \<times> u32 \<times> state) option" where
  "dhcp_receive E dhcp_state timeout s = do {
     (st, s) \<leftarrow> snp_receive E PKT_BUF_SIZE s;
     if \<not> EFI_ERROR st then dhcp_input dhcp_state timeout s
     else if st = EFI_NOT_READY then do {
       s \<leftarrow> stall STALL_1MS s;
       Some (dhcp_state, if timeout > 0x00 then timeout - 1 else timeout, s) }
     else Some (dhcp_state, timeout, s) }"

function dhcp_loop :: "firmware \<Rightarrow> u32 \<Rightarrow> u32 \<Rightarrow> u32 \<Rightarrow> u32 \<Rightarrow> state \<Rightarrow> (u32 \<times> state) option" where
  "dhcp_loop E xid timeout dhcp_state loops s =
     (if dhcp_state < DHCP_STATE_BOUND
      then if loops \<ge> TIMEOUT_DHCP_LOOPS then Some (dhcp_state, s)
           else do {
             (timeout, s) \<leftarrow> dhcp_send E xid dhcp_state timeout s;
             (dhcp_state, timeout, s) \<leftarrow> dhcp_receive E dhcp_state timeout s;
             dhcp_loop E xid timeout dhcp_state (loops + 1) s }
      else Some (dhcp_state, s))"
  by pat_completeness auto
termination
  by (relation "measure (\<lambda>(E, xid, timeout, dhcp_state, loops, s). unat TIMEOUT_DHCP_LOOPS - unat loops)")
    (auto simp: not_le unat_add_one_less word_less_nat_alt)

declare dhcp_loop.simps [simp del]

subsection \<open>The parser stays inside the page\<close>

text \<open>What options can change.\<close>

definition opts_update :: "state \<Rightarrow> state \<Rightarrow> bool" where
  "opts_update s s' \<longleftrightarrow> (\<exists>r d m l. s' = s\<lparr>router_ip := r, dns_server_ip := d, subnet_mask := m, dhcp_lease_time := l\<rparr>)"

lemma opts_updateI: "opts_update s (s\<lparr>router_ip := r, dns_server_ip := d, subnet_mask := m, dhcp_lease_time := l\<rparr>)"
  unfolding opts_update_def by blast

lemma opts_update_refl [simp]: "opts_update s s"
  using opts_updateI [where s = s and r = "router_ip s" and d = "dns_server_ip s" and m = "subnet_mask s" and l = "dhcp_lease_time s"] by simp

lemma opts_update_trans: "opts_update a b \<Longrightarrow> opts_update b c \<Longrightarrow> opts_update a c"
  unfolding opts_update_def by (elim exE, hypsubst, simp) blast

lemma opts_update_single:
  "opts_update s (s\<lparr>router_ip := w\<rparr>)" "opts_update s (s\<lparr>dns_server_ip := w\<rparr>)" "opts_update s (s\<lparr>subnet_mask := w\<rparr>)"
  "opts_update s (s\<lparr>dhcp_lease_time := w\<rparr>)"
  using opts_updateI [where s = s and r = w and d = "dns_server_ip s" and m = "subnet_mask s" and l = "dhcp_lease_time s"]
    opts_updateI [where s = s and r = "router_ip s" and d = w and m = "subnet_mask s" and l = "dhcp_lease_time s"]
    opts_updateI [where s = s and r = "router_ip s" and d = "dns_server_ip s" and m = w and l = "dhcp_lease_time s"]
    opts_updateI [where s = s and r = "router_ip s" and d = "dns_server_ip s" and m = "subnet_mask s" and l = w]
  by simp_all

lemma opts_update_fields:
  assumes "opts_update s s'"
  shows "rx_pkt s' = rx_pkt s" "ready s' = ready s" "my_ip s' = my_ip s" "my_mac s' = my_mac s"
    "dhcp_server_ip s' = dhcp_server_ip s" "sent s' = sent s" "users_of s' = users_of s" "polls s' = polls s"
    "tcp_view s' = tcp_view s"
  using assms by (auto simp: opts_update_def sent_def users_of_def tcp_view_def polls_def ready_def)

text \<open>The effect of one option, by its tag and data.\<close>

definition option_effect :: "u8 \<Rightarrow> bytes \<Rightarrow> u8 \<times> state \<Rightarrow> u8 \<times> state" where
  "option_effect tag d ms =
     (let (m, s) = ms
      in if tag = 53 \<and> d \<noteq> [] then (hd d, s)
         else if length d < 4 then (m, s)
         else if tag = 3 then (m, s\<lparr>router_ip := dec32 (take 4 d)\<rparr>)
         else if tag = 6 then (m, s\<lparr>dns_server_ip := dec32 (take 4 d)\<rparr>)
         else if tag = 1 then (m, s\<lparr>subnet_mask := dec32 (take 4 d)\<rparr>)
         else if tag = 51 then (m, s\<lparr>dhcp_lease_time := ntohl (dec32 (take 4 d))\<rparr>)
         else (m, s))"

lemma option_effect_update: "opts_update (snd ms) (snd (option_effect tag d ms))"
  by (auto simp: option_effect_def case_prod_unfold Let_def opts_update_single)

text \<open>The data the code sees at \<open>p\<close>: as many bytes as the length byte says.\<close>

lemma opt_at_eq:
  "p + 257 \<le> length rx \<Longrightarrow> opt_at rx p code k = Some (rx ! p = code \<and> unat k \<le> unat (rx ! (p + 1)))"
  by (simp add: opt_at_def word_le_nat_alt)

lemma apply_option_eq:
  assumes rx: "rx_pkt (snd ms) = rx" and p: "p + 257 \<le> length rx"
  shows "apply_option p ms = Some (option_effect (rx ! p) (take (unat (rx ! (p + 1))) (drop (p + 2) rx)) ms)"
proof -
  define d where "d = take (unat (rx ! (p + 1))) (drop (p + 2) rx)"
  have n: "length d = unat (rx ! (p + 1))" using p unat_lt_256 [of "rx ! (p + 1)"] by (simp add: d_def)
  have w: "4 \<le> length d \<Longrightarrow> opt_word rx p = Some (dec32 (take 4 d))"
    using p n by (simp add: opt_word_def load_def d_def)
  have h: "d \<noteq> [] \<Longrightarrow> rd rx (p + 0x02) = Some (hd d)"
    using p by (cases "unat (rx ! (p + 1))") (simp_all add: d_def hd_drop_conv_nth take_Suc hd_conv_nth)
  obtain m s where ms: "ms = (m, s)" by fastforce
  have rs: "rx_pkt s = rx" using rx ms by simp
  have one: "Suc 0 \<le> length d \<longleftrightarrow> d \<noteq> []" by (cases d) simp_all
  consider "rx ! p = 53" | "rx ! p = 3" | "rx ! p = 6" | "rx ! p = 1" | "rx ! p = 51"
    | "rx ! p \<noteq> 53" "rx ! p \<noteq> 3" "rx ! p \<noteq> 6" "rx ! p \<noteq> 1" "rx ! p \<noteq> 51" by blast
  then show ?thesis
    unfolding ms apply_option_def option_effect_def Let_def prod.case rs opt_at_eq [OF p] const_vals d_def [symmetric]
    unfolding n [symmetric]
    by cases (auto simp: w h [unfolded add_2_eq_Suc'] one)
qed

lemma apply_option_update:
  assumes "p + 257 \<le> length (rx_pkt (snd ms))"
  obtains ms' where "apply_option p ms = Some ms'" "opts_update (snd ms) (snd ms')"
  using apply_option_eq [OF refl assms] option_effect_update that by blast

text \<open>
  Whatever bytes follow \<open>base\<close>, the scan ends, reads no byte from 507 past \<open>base\<close> on, and changes
  only the lease fields.
\<close>

lemma scan_options_total:
  "base + 507 \<le> length (rx_pkt (snd ms)) \<Longrightarrow> p \<le> base + 506 \<Longrightarrow>
   \<exists>ms'. scan_options base p ms = Some ms' \<and> opts_update (snd ms) (snd ms')"
proof (induction base p ms rule: scan_options.induct)
  case (1 base p ms)
  let ?rx = "rx_pkt (snd ms)"
  have c: "rd ?rx p = Some (?rx ! p)" using "1.prems" by simp
  show ?case
  proof (cases "?rx ! p = 255 \<or> base + 250 \<le> p")
    case True
    then have "scan_options base p ms = Some ms" by (subst scan_options.simps) (auto simp: c const_vals)
    then show ?thesis by simp
  next
    case False
    then have p: "p + 257 \<le> length ?rx" using "1.prems"(1) by simp
    obtain ms' where ms': "apply_option p ms = Some ms'" "opts_update (snd ms) (snd ms')"
      by (rule apply_option_update [OF p])
    have rx: "rx_pkt (snd ms') = ?rx" by (rule opts_update_fields(1) [OF ms'(2)])
    have n: "rd ?rx (p + 1) = Some (?rx ! (p + 1))" using p by simp
    have small: "p + (unat (?rx ! (p + 1)) + 2) \<le> base + 506" using False unat_lt_256 [of "?rx ! (p + 1)"] by simp
    show ?thesis
    proof (cases "?rx ! p = 0")
      case True
      have "\<exists>ms2. scan_options base (p + 1) ms' = Some ms2 \<and> opts_update (snd ms') (snd ms2)"
        by (rule "1.IH"(1) [OF c _ _ ms'(1)]) (use True False "1.prems" rx in \<open>auto simp: const_vals\<close>)
      moreover have "scan_options base p ms = scan_options base (p + 1) ms'"
        using True False c ms'(1) by (subst scan_options.simps) (simp add: const_vals)
      ultimately show ?thesis using opts_update_trans [OF ms'(2)] by metis
    next
      case nz: False
      have "\<exists>ms2. scan_options base (p + (unat (?rx ! (p + 1)) + 2)) ms' = Some ms2 \<and> opts_update (snd ms') (snd ms2)"
        using "1.IH"(2) [OF c _ _ ms'(1), of "?rx ! (p + 1)"] nz False "1.prems"(1) rx n small
        by (simp add: const_vals)
      moreover have "scan_options base p ms = scan_options base (p + (unat (?rx ! (p + 1)) + 2)) ms'"
        using nz False c ms'(1) rx n by (subst scan_options.simps) (simp add: const_vals)
      ultimately show ?thesis using opts_update_trans [OF ms'(2)] by metis
    qed
  qed
qed

subsection \<open>What the parser reads\<close>

datatype dhcp_opt = Pad | Opt u8 bytes

fun enc_opt :: "dhcp_opt \<Rightarrow> bytes" where
  "enc_opt Pad = [0]"
| "enc_opt (Opt tag d) = [tag, of_nat (length d)] @ d"

fun opt_ok :: "dhcp_opt \<Rightarrow> bool" where
  "opt_ok Pad = True"
| "opt_ok (Opt tag d) \<longleftrightarrow> tag \<noteq> 0 \<and> tag \<noteq> 255 \<and> length d < 256"

fun opt_effect :: "dhcp_opt \<Rightarrow> u8 \<times> state \<Rightarrow> u8 \<times> state" where
  "opt_effect Pad ms = ms"
| "opt_effect (Opt tag d) ms = option_effect tag d ms"

text \<open>On a well-formed option list every option counts, in order, up to the end mark.\<close>

lemma scan_options_enc:
  assumes "rx_pkt (snd ms) = a @ concat (map enc_opt os) @ 255 # r" "list_all opt_ok os" "base \<le> length a"
    "length a + length (concat (map enc_opt os)) \<le> base + 250" "base + 507 \<le> length (rx_pkt (snd ms))"
  shows "scan_options base (length a) ms = Some (fold opt_effect os ms)"
  using assms
proof (induction os arbitrary: a ms)
  case Nil
  then show ?case by (subst scan_options.simps) (simp add: const_vals)
next
  case (Cons x os)
  let ?rx = "rx_pkt (snd ms)" and ?p = "length a"
  have lt: "?p < base + 250" using Cons.prems(4) by (cases x) auto
  have p: "?p + 257 \<le> length ?rx" using lt Cons.prems(5) by simp
  obtain ms' where ms': "apply_option ?p ms = Some ms'" "opts_update (snd ms) (snd ms')"
    by (rule apply_option_update [OF p])
  have rx: "rx_pkt (snd ms') = ?rx" by (rule opts_update_fields(1) [OF ms'(2)])
  note IH = Cons.IH [of ms' "a @ enc_opt x"]
  show ?case
  proof (cases x)
    case Pad
    have "?rx ! ?p = 0" using Cons.prems(1) Pad by simp
    then have "ms' = ms" using ms'(1) apply_option_eq [OF refl p] by (simp add: option_effect_def case_prod_unfold Let_def split: if_splits)
    moreover have "scan_options base ?p ms = scan_options base (?p + 1) ms'"
      using \<open>?rx ! ?p = 0\<close> lt p ms'(1) by (subst scan_options.simps) (simp add: const_vals)
    ultimately show ?thesis using IH Cons.prems Pad rx by simp
  next
    case (Opt tag d)
    have d: "length d < 256" "tag \<noteq> 0" "tag \<noteq> 255" using Cons.prems(2) Opt by simp_all
    have rp: "?rx ! ?p = tag" "?rx ! (?p + 1) = of_nat (length d)"
      "take (length d) (drop (?p + 2) ?rx) = d"
      using Cons.prems(1) Opt by (simp_all add: nth_append)
    have n: "unat (of_nat (length d) :: u8) = length d" using d(1) by (simp add: unat_of_nat take_bit_nat_eq_self)
    have "ms' = option_effect tag d ms" using ms'(1) apply_option_eq [OF refl p] rp n by simp
    moreover have "scan_options base ?p ms = scan_options base (?p + (length d + 2)) ms'"
      using rp n d lt p rx ms'(1) by (subst scan_options.simps) (simp add: const_vals)
    ultimately show ?thesis using IH Cons.prems Opt rx by (simp add: add.commute)
  qed
qed

subsection \<open>The client\<close>

text \<open>A frame makes no transition, or one of the two; the page is only read.\<close>

definition dhcp_move :: "state \<Rightarrow> u32 \<Rightarrow> u32 \<Rightarrow> u32 \<Rightarrow> u32 \<Rightarrow> state \<Rightarrow> bool" where
  "dhcp_move s d t d' t' s' \<longleftrightarrow>
     (d' = d \<and> t' = t \<and> opts_update s s') \<or>
     (d = 0 \<and> d' = 1 \<and> t' = 0 \<and> (\<exists>s1 ip sv. opts_update s s1 \<and> s' = s1\<lparr>my_ip := ip, dhcp_server_ip := sv\<rparr>)) \<or>
     (d = 1 \<and> d' = 2 \<and> t' = t \<and> opts_update s s' \<and> (router_ip s' = 0 \<longrightarrow> dhcp_server_ip s' = 0))"

lemma dhcp_move_ready: "dhcp_move s d t d' t' s' \<Longrightarrow> ready s' = ready s"
  by (auto simp: dhcp_move_def dest: opts_update_fields(2))

lemma dhcp_transition_move:
  assumes "opts_update s s1"
  shows "\<exists>d' t' s'. dhcp_transition ip dhcp m d t s1 = (d', t', s') \<and> dhcp_move s d t d' t' s'"
proof -
  have stay: "dhcp_move s d t d t s1" using assms by (simp add: dhcp_move_def)
  have offer: "dhcp_move s 0 t 1 0 (s1\<lparr>my_ip := a, dhcp_server_ip := b\<rparr>)" for a b
    using assms unfolding dhcp_move_def by blast
  have ack: "dhcp_move s 1 t 2 t (if router_ip s1 = 0 then s1\<lparr>router_ip := dhcp_server_ip s1\<rparr> else s1)"
    using opts_update_trans [OF assms opts_update_single(1)] assms by (simp add: dhcp_move_def)
  show ?thesis
    using stay offer ack by (auto simp: dhcp_transition_def const_vals Let_def)
qed

lemma unat_rx_hlen:
  assumes "h = (ucast (ihl_version (rx_ip s) AND 0x0F) * 4 :: u64)"
  shows "unat (if h < 20 then 20 else h) = rx_hlen s"
proof -
  have "unat h = ip_hdr_len (rx_ip s)" unfolding assms by (simp only: unat_quad ip_hdr_len_def)
  then show ?thesis by (auto simp: rx_hlen_def word_less_nat_alt)
qed

lemma dhcp_input_total:
  assumes r: "ready s"
  shows "\<exists>d' t' s'. dhcp_input d t s = Some (d', t', s') \<and> dhcp_move s d t d' t' s'"
proof -
  define p where "p = 14 + rx_hlen s"
  have p: "p \<le> 74" using rx_hlen_le [of s] by (simp add: p_def)
  have stay: "dhcp_move s d t d t s" by (simp add: dhcp_move_def)
  define ip udp dhcp where "ip = rx_ip s" and "udp = dec_udp (take 8 (drop p (rx_pkt s)))"
    and "dhcp = dec_dhcp (take 540 (drop (p + 8) (rx_pkt s)))"
  have "p + 8 + 240 + 507 \<le> length (rx_pkt (snd ((0 :: u8), s)))" using p r by (simp add: ready_def)
  from scan_options_total [OF this, of "p + 8 + 240"] obtain m s1
    where s1: "scan_options (p + 8 + 240) (p + 8 + 240) (0, s) = Some (m, s1)" "opts_update s s1" by auto
  have l: "load (rx_pkt s) 0 14 = Some (take 14 (rx_pkt s))" "load (rx_pkt s) 14 20 = Some (take 20 (drop 14 (rx_pkt s)))"
    "load (rx_pkt s) p 8 = Some (take 8 (drop p (rx_pkt s)))"
    "load (rx_pkt s) (p + 8) 540 = Some (take 540 (drop (p + 8) (rx_pkt s)))"
    using load_hdr [OF r] p by simp_all
  have "dhcp_input d t s =
      (if eth_type (dec_eth (take 14 (rx_pkt s))) = htons 0x0800 \<and> ip_protocol ip = 17 \<and>
          udp_dest udp = htons 68 \<and> dhcp_magic dhcp = htonl 0x63825363
       then Some (dhcp_transition ip dhcp m d t s1) else Some (d, t, s))"
    unfolding dhcp_input_def l(1,2) Let_def bind.bind_lunit const_vals
    unfolding rx_ip_def [symmetric] unfolding unat_rx_hlen [OF refl] unfolding p_def [symmetric]
    unfolding l(3,4) bind.bind_lunit s1(1) prod.case unfolding udp_def [symmetric] dhcp_def [symmetric] ip_def [symmetric]
    by simp
  then show ?thesis using stay dhcp_transition_move [OF s1(2), of ip dhcp m d t] by auto
qed

text \<open>The parts of a round, each defined on every frame.\<close>

lemma length_dhcp: "ready s \<Longrightarrow> length (dhcp_frame s ty xid) \<le> 4096"
  by (simp add: length_dhcp_frame)

lemma dhcp_send_total:
  assumes r: "ready s" and d: "d < 2"
  shows "\<exists>t' s'. dhcp_send E xid d t s = Some (t', s') \<and> ready s' \<and>
    (if t = 0 then t' = 5000 \<and> sends s (dhcp_frame s (if d = 0 then 1 else 3) xid) s' else t' = t \<and> s' = s)"
proof (cases "t = 0")
  case True
  have d': "d = 0 \<or> d = 1"
  proof -
    have "unat d < 2" using d by (simp add: word_less_nat_alt)
    then have "unat d = 0 \<or> unat d = 1" by linarith
    then show ?thesis by (metis unat_0 unat_1 word_unat_eq_iff)
  qed
  obtain s' where s': "send_frame E (dhcp_frame s (if d = 0 then 1 else 3) xid) s = Some s'"
    "sends s (dhcp_frame s (if d = 0 then 1 else 3) xid) s'" "ready s'"
    using send_frame_ready [OF r length_dhcp [OF r]] by blast
  have "dhcp_send E xid d t s = Some (5000, s')"
    using True s'(1) d' by (auto simp: dhcp_send_def const_vals send_dhcp_eq [OF r])
  then show ?thesis using s' True by simp
qed (use r in \<open>simp add: dhcp_send_def\<close>)

lemma dhcp_receive_total:
  assumes r: "ready s"
  shows "\<exists>d' t' s' s1. dhcp_receive E d t s = Some (d', t', s') \<and> ready s' \<and>
    s1 = s\<lparr>rx_pkt := rx_pkt s1, trace := trace s1\<rparr> \<and> sent s1 = sent s \<and> ready s1 \<and>
    (dhcp_move s1 d t d' t' s' \<or> d' = d \<and> t' = t - 1 \<and> t \<noteq> 0 \<and> s' = s1)"
proof -
  obtain st s1 where s1: "snp_receive E 4096 s = Some (st, s1)" using receive_total [OF r] by blast
  have e1: "s1 = s\<lparr>rx_pkt := rx_pkt s1, trace := Receive 4096 # trace s\<rparr>"
    using s1 by (auto simp: snp_receive_def snp_call_def call_def Let_def case_prod_unfold split: if_splits)
  have r1: "ready s1" by (rule ready_receive [OF r s1])
  have t1: "trace s1 = Receive 4096 # trace s" by (subst e1) simp
  have same: "s1 = s\<lparr>rx_pkt := rx_pkt s1, trace := trace s1\<rparr>" "sent s1 = sent s"
    using e1 t1 by (simp_all add: sent_def)
  have mv: "ready s' " if "dhcp_move s1 d t d' t' s'" for d' t' s'
    using that r1 opts_update_fields(2) by (auto simp: dhcp_move_def)
  consider "\<not> EFI_ERROR st" | "EFI_ERROR st" "st = EFI_NOT_READY" | "EFI_ERROR st" "st \<noteq> EFI_NOT_READY" by blast
  then show ?thesis
  proof cases
    case 1
    obtain d' t' s' where i: "dhcp_input d t s1 = Some (d', t', s')" "dhcp_move s1 d t d' t' s'"
      using dhcp_input_total [OF r1] by blast
    then have "dhcp_receive E d t s = Some (d', t', s')" using s1 1 by (simp add: dhcp_receive_def PKT_BUF_SIZE_def)
    then show ?thesis using i(2) mv [OF i(2)] same r1 by blast
  next
    case 2
    let ?s2 = "call (Stall STALL_1MS) s1"
    have "dhcp_receive E d t s = Some (d, if t > 0 then t - 1 else t, ?s2)"
      using s1 2 stall_ready [OF r1, of STALL_1MS] by (simp add: dhcp_receive_def PKT_BUF_SIZE_def)
    moreover have "dhcp_move ?s2 d 0 d 0 ?s2" by (simp add: dhcp_move_def)
    moreover have "?s2 = s\<lparr>rx_pkt := rx_pkt ?s2, trace := trace ?s2\<rparr>" "sent ?s2 = sent s"
      using arg_cong [OF same(1), of "\<lambda>x. x\<lparr>trace := Stall STALL_1MS # trace s1\<rparr>"] same(2)
      by (simp_all add: call_def sent_def)
    moreover have "ready ?s2" using r1 by simp
    ultimately show ?thesis by (cases "t = 0") (auto simp: word_gt_0)
  next
    case 3
    then have "dhcp_receive E d t s = Some (d, t, s1)" using s1 by (simp add: dhcp_receive_def PKT_BUF_SIZE_def)
    moreover have "dhcp_move s1 d t d t s1" by (simp add: dhcp_move_def)
    ultimately show ?thesis using same r1 by blast
  qed
qed

subsection \<open>The handshake\<close>

text \<open>
  The invariant of the loop: in the second state, once the counter runs, a REQUEST for the offered
  address has been sent to the chosen server with this transaction number; in the third it has been
  sent, and there is a gateway address unless there is not even a server's.
\<close>

definition requested :: "u32 \<Rightarrow> state \<Rightarrow> bool" where
  "requested xid s \<longleftrightarrow> dhcp_frame s 3 xid \<in> set (sent s)"

definition dhcp_inv :: "_ \<Rightarrow> u32 \<Rightarrow> u32 \<Rightarrow> u32 \<Rightarrow> state \<Rightarrow> bool" where
  "dhcp_inv U xid d t s \<longleftrightarrow> ready s \<and> users_of s = U \<and> d \<le> 2 \<and> (d = 1 \<and> t \<noteq> 0 \<longrightarrow> requested xid s) \<and>
     (d = 2 \<longrightarrow> requested xid s \<and> (router_ip s = 0 \<longrightarrow> dhcp_server_ip s = 0))"

lemma dhcp_frame_cong:
  "my_mac s' = my_mac s \<Longrightarrow> my_ip s' = my_ip s \<Longrightarrow> dhcp_server_ip s' = dhcp_server_ip s \<Longrightarrow>
   dhcp_frame s' ty xid = dhcp_frame s ty xid"
  by (simp add: dhcp_frame_def dhcp_message_def dhcp_opts_def)

lemma requested_keep:
  "requested xid s \<Longrightarrow> my_mac s' = my_mac s \<Longrightarrow> my_ip s' = my_ip s \<Longrightarrow> dhcp_server_ip s' = dhcp_server_ip s \<Longrightarrow>
   set (sent s) \<subseteq> set (sent s') \<Longrightarrow> requested xid s'"
  unfolding requested_def using dhcp_frame_cong [of s' s 3 xid] by auto

lemma dhcp_move_users: "dhcp_move s d t d' t' s' \<Longrightarrow> users_of s' = users_of s"
  using opts_update_fields(7) by (auto simp: dhcp_move_def) (auto simp: users_of_def tcp_view_def)

lemma dhcp_move_inv:
  assumes m: "dhcp_move s1 d t d' t' s'" and r: "ready s'" and d: "d < 2" and q: "d = 1 \<longrightarrow> requested xid s1"
    and u: "users_of s' = U"
  shows "dhcp_inv U xid d' t' s'"
proof -
  have keep: "requested xid s'" if "opts_update s1 s'" "d = 1"
    by (rule requested_keep [of xid s1])
      (use that q in \<open>simp_all add: opts_update_fields(3-6) [OF that(1)]\<close>)
  consider "d' = d" "opts_update s1 s'" | "d' = 1" "t' = 0"
    | "d = 1" "d' = 2" "opts_update s1 s'" "router_ip s' = 0 \<longrightarrow> dhcp_server_ip s' = 0"
    using m unfolding dhcp_move_def by blast
  then show ?thesis
  proof cases
    case 1
    then have "d' = 1 \<longrightarrow> requested xid s'" using keep by simp
    then show ?thesis using r u d 1(1) by (auto simp: dhcp_inv_def)
  next
    case 2
    then show ?thesis using r u by (simp add: dhcp_inv_def)
  next
    case 3
    then show ?thesis using r u keep by (simp add: dhcp_inv_def)
  qed
qed

lemma dhcp_round:
  assumes i: "dhcp_inv U xid d t s" and d: "d < 2"
  shows "\<exists>t1 s1 d' t' s'. dhcp_send E xid d t s = Some (t1, s1) \<and> dhcp_receive E d t1 s1 = Some (d', t', s') \<and>
    dhcp_inv U xid d' t' s'"
proof -
  have r: "ready s" using i by (simp add: dhcp_inv_def)
  obtain t1 s1 where s1: "dhcp_send E xid d t s = Some (t1, s1)" "ready s1"
    "if t = 0 then t1 = 5000 \<and> sends s (dhcp_frame s (if d = 0 then 1 else 3) xid) s1 else t1 = t \<and> s1 = s"
    using dhcp_send_total [OF r d] by blast
  have q1: "d = 1 \<longrightarrow> requested xid s1"
  proof (cases "t = 0")
    case True
    then have x: "sends s (dhcp_frame s (if d = 0 then 1 else 3) xid) s1" using s1(3) by simp
    then have "dhcp_frame s1 3 xid = dhcp_frame s 3 xid" by (intro dhcp_frame_cong) (auto simp: sends_def)
    then show ?thesis using sends_sent [OF x] by (simp add: requested_def)
  next
    case False
    then show ?thesis using s1(3) i by (simp add: dhcp_inv_def)
  qed
  obtain d' t' s' s2 where s2: "dhcp_receive E d t1 s1 = Some (d', t', s')" "ready s'"
    "s2 = s1\<lparr>rx_pkt := rx_pkt s2, trace := trace s2\<rparr>" "sent s2 = sent s1" "ready s2"
    "dhcp_move s2 d t1 d' t' s' \<or> d' = d \<and> t' = t1 - 1 \<and> t1 \<noteq> 0 \<and> s' = s2"
    using dhcp_receive_total [OF s1(2), of E d t1] by blast
  have "my_mac s2 = my_mac s1" "my_ip s2 = my_ip s1" "dhcp_server_ip s2 = dhcp_server_ip s1"
    using arg_cong [OF s2(3), of my_mac] arg_cong [OF s2(3), of my_ip] arg_cong [OF s2(3), of dhcp_server_ip] by simp_all
  then have q2: "d = 1 \<longrightarrow> requested xid s2" using q1 s2(4) requested_keep [of xid s1 s2] by simp
  have "users_of s1 = users_of s" using s1(3) sends_users by (cases "t = 0") (simp_all, blast)
  moreover have "users_of s2 = users_of s1" by (subst s2(3)) (simp add: users_of_def tcp_view_def)
  ultimately have u2: "users_of s2 = U" using i by (simp add: dhcp_inv_def)
  have "dhcp_inv U xid d' t' s'"
    using s2(6)
  proof
    assume "dhcp_move s2 d t1 d' t' s'"
    then show ?thesis by (rule dhcp_move_inv [OF _ s2(2) d q2]) (use \<open>dhcp_move s2 d t1 d' t' s'\<close> dhcp_move_users u2 in blast)
  next
    assume "d' = d \<and> t' = t1 - 1 \<and> t1 \<noteq> 0 \<and> s' = s2"
    then show ?thesis using q2 s2(5) d u2 by (auto simp: dhcp_inv_def)
  qed
  then show ?thesis using s1(1) s2(1) by blast
qed

text \<open>On every network the handshake ends, and it ends bound only after the REQUEST.\<close>

lemma dhcp_loop_total:
  "dhcp_inv U xid d t s \<Longrightarrow> \<exists>d' s' t'. dhcp_loop E xid t d loops s = Some (d', s') \<and> dhcp_inv U xid d' t' s'"
proof (induction loops "(t, d, s)" arbitrary: t d s rule: counter_induct [where max_loops = TIMEOUT_DHCP_LOOPS])
  case (step loops t d s)
  consider "d < 2" "loops < TIMEOUT_DHCP_LOOPS" | "\<not> d < 2 \<or> TIMEOUT_DHCP_LOOPS \<le> loops" by fastforce
  then show ?case
  proof cases
    case 1
    obtain t1 s1 d' t' s' where x: "dhcp_send E xid d t s = Some (t1, s1)" "dhcp_receive E d t1 s1 = Some (d', t', s')"
      "dhcp_inv U xid d' t' s'" using dhcp_round [OF step.prems 1(1)] by blast
    have "dhcp_loop E xid t d loops s = dhcp_loop E xid t' d' (loops + 1) s'"
      using 1 linorder_not_le [THEN iffD2, OF 1(2)] x(1,2) by (subst dhcp_loop.simps) (simp add: DHCP_STATE_BOUND_def)
    then show ?thesis using step(1) [OF 1(2) x(3)] by simp
  next
    case 2
    then have "dhcp_loop E xid t d loops s = Some (d, s)"
      by (subst dhcp_loop.simps) (auto simp: DHCP_STATE_BOUND_def)
    then show ?thesis using step.prems by blast
  qed
qed

end
