(* ===== verification/Net_Init.thy ===== *)
theory Net_Init
  imports Net_Dhcp
begin

text \<open>
  \<open>init_network\<close> and \<open>init_network_static\<close> of \<^verbatim>\<open>api.hpp\<close>: seed the generator, allocate the packet
  pages, open and start the interface, get an address, resolve the gateway.  Both functions repeat
  the bring-up text, which is \<open>bring_up\<close> here; its \<open>Some status\<close> is an early return.  Success
  establishes the invariant \<open>ready\<close> on which every other theory rests.
\<close>

definition allocate_page :: "firmware \<Rightarrow> state \<Rightarrow> (efi_status \<times> bytes \<times> state) option" where
  "allocate_page E s =
     (if bs_ptr s
      then let s = call AllocatePages s; (st, page) = fw_allocate E (trace s)
           in Some (st, map page [0..<4096], s)
      else None)"

definition open_protocol :: "firmware \<Rightarrow> state \<Rightarrow> (efi_status \<times> state) option" where
  "open_protocol E s =
     (if bs_ptr s
      then let s = call OpenProtocol s; st = fw_open E (trace s)
           in Some (st, s\<lparr>snp_ptr := \<not> EFI_ERROR st\<rparr>)
      else None)"

definition start_nic :: "firmware \<Rightarrow> state \<Rightarrow> state option" where
  "start_nic E s = do {
     s \<leftarrow> (if \<not> snp_ptr s then None else if fw_started E (trace s) then snp_call SnpStop s else Some s);
     s \<leftarrow> stall STALL_10MS s;
     s \<leftarrow> snp_call SnpStart s;
     s \<leftarrow> stall STALL_10MS s;
     s \<leftarrow> snp_call SnpInitialize s;
     s \<leftarrow> snp_call (ReceiveFilters rx_filters) s;
     mac \<leftarrow> local_mem_cpy (my_mac s) 0 (map (fw_address E (trace s)) [0..<32]) 0 ETH_ALEN;
     Some (s\<lparr>my_mac := mac\<rparr>) }"

definition bring_up :: "firmware \<Rightarrow> state \<Rightarrow> (efi_status option \<times> state) option" where
  "bring_up E s = do {
     let s = rng_init E s;
     (st, rx, s) \<leftarrow> allocate_page E s;
     if EFI_ERROR st then Some (Some EFI_OUT_OF_RESOURCES, s)
     else do {
       (st, tx, s) \<leftarrow> allocate_page E s;
       if EFI_ERROR st then Some (Some EFI_OUT_OF_RESOURCES, s)
       else do {
         let s = s\<lparr>rx_pkt := rx, tx_pkt := tx\<rparr>;
         s \<leftarrow> (if bs_ptr s then Some (call LocateHandleBuffer s) else None);
         let (st, handle_count) = fw_locate E (trace s);
         if EFI_ERROR st \<or> handle_count = 0x00
         then Some (Some (if EFI_ERROR st then st else EFI_NOT_FOUND), s)
         else do {
           (st, s) \<leftarrow> open_protocol E s;
           (st, s) \<leftarrow> (if EFI_ERROR st then open_protocol E (call DisconnectController s) else Some (st, s));
           if EFI_ERROR st then Some (Some st, s)
           else do {
             s \<leftarrow> start_nic E s;
             Some (None, s) } } } } }"

definition resolve_gateway :: "firmware \<Rightarrow> state \<Rightarrow> (efi_status \<times> state) option" where
  "resolve_gateway E s = do {
     let s = s\<lparr>arp_resolved := False, arp_target_ip := router_ip s\<rparr>;
     s \<leftarrow> retry_loop E (\<lambda>s. arp_request E (router_ip s) s) arp_resolved never TIMEOUT_ARP_LOOPS 0x00 0x00 s;
     Some (if arp_resolved s then EFI_SUCCESS else EFI_TIMEOUT, s) }"

definition init_network :: "firmware \<Rightarrow> state \<Rightarrow> (efi_status \<times> state) option" where
  "init_network E s = do {
     (ret, s) \<leftarrow> bring_up E s;
     case ret of
       Some st \<Rightarrow> Some (st, s)
     | None \<Rightarrow> do {
         let (dhcp_xid, s) = get_u32 s;
         (dhcp_state, s) \<leftarrow> dhcp_loop E dhcp_xid 0x00 DHCP_STATE_DISCOVER 0x00 s;
         if dhcp_state \<noteq> DHCP_STATE_BOUND then Some (EFI_TIMEOUT, s)
         else resolve_gateway E s } }"

definition init_network_static :: "firmware \<Rightarrow> u32 \<Rightarrow> u32 \<Rightarrow> u32 \<Rightarrow> u32 \<Rightarrow> state \<Rightarrow> (efi_status \<times> state) option" where
  "init_network_static E ip gateway netmask dns s = do {
     (ret, s) \<leftarrow> bring_up E s;
     case ret of
       Some st \<Rightarrow> Some (st, s)
     | None \<Rightarrow> do {
         let s = s\<lparr>my_ip := ip, router_ip := gateway, subnet_mask := netmask, dns_server_ip := dns\<rparr>;
         resolve_gateway E s } }"

subsection \<open>Bring-up\<close>

text \<open>What the entry point provides: the service tables, and the fields as declared.\<close>

definition booted :: "state \<Rightarrow> bool" where
  "booted s \<longleftrightarrow> bs_ptr s \<and> length (my_mac s) = 32 \<and> length (router_mac s) = 6 \<and> length (arp_target_mac s) = 6 \<and>
     cache_inv (cache s)"

text \<open>The parts of the state the connection and the posted buffers live in.\<close>

lemma call_users [simp]: "users_of (call k s) = users_of s"
  by (simp add: users_of_def tcp_view_def call_def)

lemma users_init_simps [simp]:
  "users_of (s\<lparr>rx_pkt := x\<rparr>) = users_of s" "users_of (s\<lparr>tx_pkt := x\<rparr>) = users_of s" "users_of (s\<lparr>snp_ptr := b\<rparr>) = users_of s"
  "users_of (s\<lparr>my_mac := x\<rparr>) = users_of s" "users_of (s\<lparr>my_ip := a\<rparr>) = users_of s" "users_of (s\<lparr>router_ip := a\<rparr>) = users_of s"
  "users_of (s\<lparr>subnet_mask := a\<rparr>) = users_of s" "users_of (s\<lparr>dns_server_ip := a\<rparr>) = users_of s"
  by (simp_all add: users_of_def tcp_view_def)

lemma start_nic_ready:
  assumes "booted s" "snp_ptr s" "length (rx_pkt s) = 4096" "length (tx_pkt s) = 4096"
  shows "\<exists>s'. start_nic E s = Some s' \<and> ready s' \<and> users_of s' = users_of s \<and> sent s' = sent s \<and> polls s' = polls s"
proof -
  define s1 where "s1 = (if fw_started E (trace s) then call SnpStop s else s)"
  have s1: "bs_ptr s1" "snp_ptr s1" "length (my_mac s1) = 32" "users_of s1 = users_of s" "sent s1 = sent s"
    "polls s1 = polls s" "rx_pkt s1 = rx_pkt s" "tx_pkt s1 = tx_pkt s" "router_mac s1 = router_mac s" "arp_target_mac s1 = arp_target_mac s"
    "cache s1 = cache s"
    using assms(1,2) by (auto simp: s1_def booted_def) (auto simp: call_def)
  have e1: "(if \<not> snp_ptr s then None else if fw_started E (trace s) then snp_call SnpStop s else Some s) = Some s1"
    using assms(2) by (simp add: s1_def snp_call_def)
  define s2 where "s2 = call (ReceiveFilters rx_filters) (call SnpInitialize (call (Stall STALL_10MS) (call SnpStart (call (Stall STALL_10MS) s1))))"
  define mac where "mac = take 6 (map (fw_address E (trace s2)) [0..<32]) @ drop 6 (my_mac s2)"
  have s2: "users_of s2 = users_of s" "sent s2 = sent s" "polls s2 = polls s" "my_mac s2 = my_mac s1"
    using s1 by (simp_all add: s2_def) (simp add: call_def)
  have "local_mem_cpy (my_mac s2) 0 (map (fw_address E (trace s2)) [0..<32]) 0 ETH_ALEN = Some mac"
    using s1(3) s2(4) by (simp add: mem_simps const_vals mac_def)
  then have "start_nic E s = Some (s2\<lparr>my_mac := mac\<rparr>)"
    unfolding start_nic_def e1 using s1(1,2)
    by (simp add: stall_def snp_call_def s2_def) (simp add: call_def)
  moreover have "ready (s2\<lparr>my_mac := mac\<rparr>)"
    using assms s1 s2(4) by (simp add: ready_def mac_def booted_def) (simp add: s2_def call_def)
  moreover have "users_of (s2\<lparr>my_mac := mac\<rparr>) = users_of s" "sent (s2\<lparr>my_mac := mac\<rparr>) = sent s"
    "polls (s2\<lparr>my_mac := mac\<rparr>) = polls s"
    using s2 by (simp_all add: sent_def polls_def)
  ultimately show ?thesis by blast
qed

text \<open>Steps that only add to the history.\<close>

definition calls_only :: "state \<Rightarrow> state \<Rightarrow> bool" where
  "calls_only s s' \<longleftrightarrow> (\<exists>r tr b rx tx. s' = s\<lparr>rng_seed := r, trace := tr, snp_ptr := b, rx_pkt := rx, tx_pkt := tx\<rparr> \<and>
     transmitted tr = transmitted (trace s) \<and> receptions tr = receptions (trace s))"

lemma calls_onlyI: "transmitted tr = transmitted (trace s) \<Longrightarrow> receptions tr = receptions (trace s) \<Longrightarrow>
    calls_only s (s\<lparr>rng_seed := r, trace := tr, snp_ptr := b, rx_pkt := rx, tx_pkt := tx\<rparr>)"
  unfolding calls_only_def by blast

lemma calls_only_trans: "calls_only a b \<Longrightarrow> calls_only b c \<Longrightarrow> calls_only a c"
  unfolding calls_only_def by (elim exE conjE, hypsubst, simp) blast

lemma calls_only_fields:
  assumes "calls_only s s'"
  shows "booted s' = booted s" "users_of s' = users_of s" "sent s' = sent s" "bs_ptr s' = bs_ptr s"
    "polls s' = polls s"
  using assms by (auto simp: calls_only_def booted_def users_of_def tcp_view_def sent_def polls_def)

lemma calls_only_steps:
  "calls_only s (rng_init E s)" "calls_only s (call AllocatePages s)" "calls_only s (call LocateHandleBuffer s)"
  "calls_only s (call DisconnectController s)" "calls_only s ((call OpenProtocol s)\<lparr>snp_ptr := b\<rparr>)"
  "calls_only s (s\<lparr>rx_pkt := rx, tx_pkt := tx\<rparr>)"
proof -
  note I = calls_onlyI [where s = s]
  have sw: "s\<lparr>trace := t, rng_seed := r\<rparr> = s\<lparr>rng_seed := r, trace := t\<rparr>" for t r by simp
  have "calls_only s (s\<lparr>trace := GetTime # trace s, rng_seed := r\<rparr>)" for r
    unfolding sw using I [where tr = "GetTime # trace s" and b = "snp_ptr s" and rx = "rx_pkt s" and tx = "tx_pkt s"] by simp
  moreover have "calls_only s s"
    using I [where tr = "trace s" and r = "rng_seed s" and b = "snp_ptr s" and rx = "rx_pkt s" and tx = "tx_pkt s"] by simp
  ultimately show "calls_only s (rng_init E s)" by (simp add: rng_init_def call_def Let_def)
  show "calls_only s (call AllocatePages s)" "calls_only s (call LocateHandleBuffer s)" "calls_only s (call DisconnectController s)"
    using I [where tr = "AllocatePages # trace s" and r = "rng_seed s" and b = "snp_ptr s" and rx = "rx_pkt s" and tx = "tx_pkt s"]
      I [where tr = "LocateHandleBuffer # trace s" and r = "rng_seed s" and b = "snp_ptr s" and rx = "rx_pkt s" and tx = "tx_pkt s"]
      I [where tr = "DisconnectController # trace s" and r = "rng_seed s" and b = "snp_ptr s" and rx = "rx_pkt s" and tx = "tx_pkt s"]
    by (simp_all add: call_def)
  show "calls_only s ((call OpenProtocol s)\<lparr>snp_ptr := b\<rparr>)"
    using I [where tr = "OpenProtocol # trace s" and r = "rng_seed s" and b = b and rx = "rx_pkt s" and tx = "tx_pkt s"]
    by (simp add: call_def)
  show "calls_only s (s\<lparr>rx_pkt := rx, tx_pkt := tx\<rparr>)"
    using I [where tr = "trace s" and r = "rng_seed s" and b = "snp_ptr s"] by simp
qed

lemma allocate_page_eq:
  "bs_ptr s \<Longrightarrow> \<exists>st page. allocate_page E s = Some (st, page, call AllocatePages s) \<and> length page = 4096 \<and>
     st = fst (fw_allocate E (AllocatePages # trace s))"
  by (simp add: allocate_page_def Let_def case_prod_unfold call_def)

lemma open_protocol_eq:
  "bs_ptr s \<Longrightarrow> \<exists>st. open_protocol E s = Some (st, (call OpenProtocol s)\<lparr>snp_ptr := \<not> EFI_ERROR st\<rparr>) \<and>
     st = fw_open E (OpenProtocol # trace s)"
  by (simp add: open_protocol_def Let_def call_def)

text \<open>Firmware that has memory and a network interface, which can be opened.\<close>

definition works :: "firmware \<Rightarrow> bool" where
  "works E \<longleftrightarrow> (\<forall>tr. \<not> EFI_ERROR (fst (fw_allocate E tr)) \<and> \<not> EFI_ERROR (fst (fw_locate E tr)) \<and>
     snd (fw_locate E tr) \<noteq> 0 \<and> \<not> EFI_ERROR (fw_open E tr))"

text \<open>
  Bring-up always returns: with an error status before anything was sent, or with the interface
  running and the invariant established.
\<close>

lemma bring_up_cases:
  assumes b: "booted s"
  obtains (failed) st s' where "bring_up E s = Some (Some st, s')" "EFI_ERROR st" "calls_only s s'" "\<not> works E"
    | (up) s' where "bring_up E s = Some (None, s')" "ready s'" "users_of s' = users_of s" "sent s' = sent s" "polls s' = polls s"
proof -
  define s0 where "s0 = rng_init E s"
  have c0: "calls_only s s0" by (simp add: s0_def calls_only_steps)
  define s1 where "s1 = call AllocatePages s0"
  have c1: "calls_only s s1" unfolding s1_def by (rule calls_only_trans [OF c0 calls_only_steps(2)])
  define s2 where "s2 = call AllocatePages s1"
  have c2: "calls_only s s2" unfolding s2_def by (rule calls_only_trans [OF c1 calls_only_steps(2)])
  have bs: "bs_ptr s0" "bs_ptr s1" using calls_only_fields(4) [OF c0] calls_only_fields(4) [OF c1] b by (simp_all add: booted_def)
  obtain st1 rx where a1: "allocate_page E s0 = Some (st1, rx, s1)" "length rx = 4096" "works E \<longrightarrow> \<not> EFI_ERROR st1"
    using works_def [of E] allocate_page_eq [OF bs(1), of E] unfolding s1_def by blast
  obtain st2 tx where a2: "allocate_page E s1 = Some (st2, tx, s2)" "length tx = 4096" "works E \<longrightarrow> \<not> EFI_ERROR st2"
    using works_def [of E] allocate_page_eq [OF bs(2), of E] unfolding s2_def by blast
  define s3 where "s3 = call LocateHandleBuffer (s2\<lparr>rx_pkt := rx, tx_pkt := tx\<rparr>)"
  have c3: "calls_only s s3"
    unfolding s3_def by (rule calls_only_trans [OF calls_only_trans [OF c2 calls_only_steps(6)] calls_only_steps(3)])
  obtain st3 n where l: "fw_locate E (trace s3) = (st3, n)" by fastforce
  have bs3: "bs_ptr s3" "bs_ptr (s2\<lparr>rx_pkt := rx, tx_pkt := tx\<rparr>)"
    using calls_only_fields(4) [OF c3] calls_only_fields(4) [OF c2] b by (simp_all add: booted_def)
  obtain st4 where o4: "open_protocol E s3 = Some (st4, (call OpenProtocol s3)\<lparr>snp_ptr := \<not> EFI_ERROR st4\<rparr>)"
    "works E \<longrightarrow> \<not> EFI_ERROR st4"
    using open_protocol_eq [OF bs3(1), of E] works_def [of E] by blast
  define s4 where "s4 = (call OpenProtocol s3)\<lparr>snp_ptr := \<not> EFI_ERROR st4\<rparr>"
  have c4: "calls_only s s4" unfolding s4_def by (rule calls_only_trans [OF c3 calls_only_steps(5)])
  define s5 where "s5 = call DisconnectController s4"
  have c5: "calls_only s s5" unfolding s5_def by (rule calls_only_trans [OF c4 calls_only_steps(4)])
  have bs5: "bs_ptr s5" using calls_only_fields(4) [OF c5] b by (simp add: booted_def)
  obtain st6 where o6: "open_protocol E s5 = Some (st6, (call OpenProtocol s5)\<lparr>snp_ptr := \<not> EFI_ERROR st6\<rparr>)"
    using open_protocol_eq [OF bs5] by blast
  define s6 where "s6 = (call OpenProtocol s5)\<lparr>snp_ptr := \<not> EFI_ERROR st6\<rparr>"
  have c6: "calls_only s s6" unfolding s6_def by (rule calls_only_trans [OF c5 calls_only_steps(5)])
  define st7 s7 where "st7 = (if EFI_ERROR st4 then st6 else st4)" and "s7 = (if EFI_ERROR st4 then s6 else s4)"
  have c7: "calls_only s s7" using c4 c6 by (simp add: s7_def)
  have eq: "bring_up E s =
      (if EFI_ERROR st1 then Some (Some EFI_OUT_OF_RESOURCES, s1)
       else if EFI_ERROR st2 then Some (Some EFI_OUT_OF_RESOURCES, s2)
       else if EFI_ERROR st3 \<or> n = 0 then Some (Some (if EFI_ERROR st3 then st3 else EFI_NOT_FOUND), s3)
       else if EFI_ERROR st7 then Some (Some st7, s7)
       else start_nic E s7 \<bind> (\<lambda>s. Some (None, s)))"
    using a1(1) a2(1) l bs3 o4(1) o6
    by (simp add: bring_up_def Let_def st7_def s7_def flip: s0_def s3_def s4_def s5_def s6_def)
  consider "EFI_ERROR st1" | "\<not> EFI_ERROR st1" "EFI_ERROR st2" | "\<not> EFI_ERROR st1" "\<not> EFI_ERROR st2" "EFI_ERROR st3 \<or> n = 0"
    | "\<not> EFI_ERROR st1" "\<not> EFI_ERROR st2" "\<not> EFI_ERROR st3" "n \<noteq> 0" "EFI_ERROR st7"
    | "\<not> EFI_ERROR st1" "\<not> EFI_ERROR st2" "\<not> EFI_ERROR st3" "n \<noteq> 0" "\<not> EFI_ERROR st7" by blast
  then show thesis
  proof cases
    case 1 then show thesis using failed [OF _ _ c1] eq a1(3) by simp
  next
    case 2 then show thesis using failed [OF _ _ c2] eq a2(3) by simp
  next
    case 3
    then have "\<not> works E" using l works_def [of E] by (metis fst_conv snd_conv)
    then show thesis using 3 failed [OF _ _ c3] eq by (auto split: if_splits)
  next
    case 4
    then have "\<not> works E" using o4(2) by (auto simp: st7_def split: if_splits)
    then show thesis using 4 failed [OF _ _ c7] eq by simp
  next
    case 5
    have snp: "snp_ptr s7" using 5(5) by (auto simp: st7_def s7_def s4_def s6_def)
    have pages: "length (rx_pkt s7) = 4096" "length (tx_pkt s7) = 4096"
      using a1(2) a2(2) by (simp_all add: s7_def s4_def s5_def s6_def s3_def call_def)
    obtain s' where s': "start_nic E s7 = Some s'" "ready s'" "users_of s' = users_of s7" "sent s' = sent s7"
      "polls s' = polls s7"
      using start_nic_ready [OF _ snp pages] calls_only_fields(1) [OF c7] b by blast
    then show thesis using up 5 eq calls_only_fields(2,3,5) [OF c7] by simp
  qed
qed

subsection \<open>The gateway\<close>

lemma arp_request_effect:
  "ready s \<Longrightarrow> arp_request E ip s = Some s' \<Longrightarrow> ready s' \<and> polls s' = polls s \<and> flags_kept s s'"
  using send_frame_Some [of E "arp_request_frame s ip" s s'] length_arp_request_frame [of s ip]
  by (auto simp: arp_request_eq handled_def dest!: sends_handled)

lemma arp_request_total: "sane s \<Longrightarrow> \<exists>s'. arp_request E (router_ip s) s = Some s' \<and> sane s'"
  using send_frame_sane [of s "arp_request_frame s (router_ip s)" E] length_arp_request_frame [of s "router_ip s"]
  by (auto simp: arp_request_eq sane_def)

text \<open>Success means the gateway's address was learnt; otherwise the loop ran 200000 rounds.\<close>

lemma resolve_gateway_result:
  assumes r: "ready s" and g: "resolve_gateway E s = Some (st, s')"
  shows "ready s' \<and> (if arp_resolved s' then st = EFI_SUCCESS else st = EFI_TIMEOUT \<and> polls s' = polls s + 200000) \<and>
    polls s' \<le> polls s + 200000"
proof -
  let ?s = "s\<lparr>arp_resolved := False, arp_target_ip := router_ip s\<rparr>"
  have s': "retry_loop E (\<lambda>s. arp_request E (router_ip s) s) arp_resolved never TIMEOUT_ARP_LOOPS 0 0 ?s = Some s'"
    "st = (if arp_resolved s' then EFI_SUCCESS else EFI_TIMEOUT)"
    using g by (auto simp: resolve_gateway_def bind_Some_iff)
  have "waited arp_resolved never (unat TIMEOUT_ARP_LOOPS - unat (0 :: u32)) ?s s'"
    by (rule retry_loop_waited [OF _ _ s'(1)]) (use r arp_request_effect in \<open>simp_all add: const_vals\<close>)
  moreover have "polls ?s = polls s" by (simp add: polls_def)
  ultimately show ?thesis using s'(2) by (auto simp: waited_def const_vals)
qed

lemma resolve_gateway_total:
  assumes s: "sane s" and n: "net_safe E"
  shows "\<exists>st s'. resolve_gateway E s = Some (st, s') \<and> sane s'"
proof -
  let ?s = "s\<lparr>arp_resolved := False, arp_target_ip := router_ip s\<rparr>"
  have "sane ?s" by (rule sane_users [OF _ _ s]) (use s in \<open>simp_all add: sane_def\<close>)
  then have "\<exists>s'. retry_loop E (\<lambda>s. arp_request E (router_ip s) s) arp_resolved never TIMEOUT_ARP_LOOPS 0 0 ?s = Some s' \<and> sane s'"
    using arp_request_total by (intro retry_loop_total [OF _ _ n])
  then show ?thesis by (auto simp: resolve_gateway_def)
qed

subsection \<open>The two ways in\<close>

lemma dhcp_start_inv: "ready s \<Longrightarrow> dhcp_inv (users_of s) xid 0 0 s"
  by (simp add: dhcp_inv_def)

text \<open>
  \<open>init_network\<close> succeeds only bound and with the gateway's address learnt, and then the stack is
  ready; every failure is an error status.
\<close>

lemma init_network_result:
  assumes b: "booted s" and i: "init_network E s = Some (st, s')"
  shows "if EFI_ERROR st then True else st = EFI_SUCCESS \<and> ready s' \<and> arp_resolved s'"
proof (rule bring_up_cases [OF b, of E])
  fix st1 s1 assume "bring_up E s = Some (Some st1, s1)" "EFI_ERROR st1" "calls_only s s1"
  then show ?thesis using i by (simp add: init_network_def)
next
  fix s1 assume up: "bring_up E s = Some (None, s1)" "ready s1"
  define xid where "xid = fst (get_u32 s1)"
  have r: "ready (snd (get_u32 s1))" using up(2) by simp
  obtain d s2 t2 where l: "dhcp_loop E xid 0 0 0 (snd (get_u32 s1)) = Some (d, s2)" "dhcp_inv (users_of (snd (get_u32 s1))) xid d t2 s2"
    using dhcp_loop_total [OF dhcp_start_inv [OF r], of E xid 0] by blast
  have eq: "init_network E s = (if d \<noteq> 2 then Some (EFI_TIMEOUT, s2) else resolve_gateway E s2)"
    using up(1) l(1)
    by (simp add: init_network_def case_prod_unfold xid_def DHCP_STATE_DISCOVER_def DHCP_STATE_BOUND_def)
  show ?thesis
  proof (cases "d = 2")
    case True
    then have "resolve_gateway E s2 = Some (st, s')" using i eq by simp
    from resolve_gateway_result [OF _ this] l(2) show ?thesis by (auto simp: dhcp_inv_def split: if_splits)
  next
    case False
    then show ?thesis using i eq by simp
  qed
qed

lemma init_network_static_result:
  assumes b: "booted s" and i: "init_network_static E ip gw nm dns s = Some (st, s')"
  shows "if EFI_ERROR st then True else st = EFI_SUCCESS \<and> ready s' \<and> arp_resolved s'"
proof (rule bring_up_cases [OF b, of E])
  fix st1 s1 assume "bring_up E s = Some (Some st1, s1)" "EFI_ERROR st1" "calls_only s s1"
  then show ?thesis using i by (simp add: init_network_static_def)
next
  fix s1 assume up: "bring_up E s = Some (None, s1)" "ready s1"
  then have "resolve_gateway E (s1\<lparr>my_ip := ip, router_ip := gw, subnet_mask := nm, dns_server_ip := dns\<rparr>) = Some (st, s')"
    using i by (simp add: init_network_static_def)
  from resolve_gateway_result [OF _ this] up(2) show ?thesis by (auto split: if_splits)
qed

text \<open>On a safe network both return, and leave the stack sane whenever they succeed.\<close>

definition fresh :: "state \<Rightarrow> bool" where
  "fresh s \<longleftrightarrow> booted s \<and> (\<exists>c. tcp_rel s c) \<and> udp_inbox_ok s"

lemma fresh_sane: "fresh s \<Longrightarrow> users_of s' = users_of s \<Longrightarrow> ready s' \<Longrightarrow> sane s'"
  unfolding fresh_def sane_def users_of_def by (auto simp: udp_inbox_ok_def cong: option.case_cong dest: tcp_rel_view)

lemma init_network_total:
  assumes f: "fresh s" and n: "net_safe E"
  shows "\<exists>st s'. init_network E s = Some (st, s') \<and> (EFI_ERROR st \<or> sane s')"
proof -
  have b: "booted s" using f by (simp add: fresh_def)
  show ?thesis
  proof (rule bring_up_cases [OF b, of E])
    fix st1 s1 assume "bring_up E s = Some (Some st1, s1)" "EFI_ERROR st1" "calls_only s s1"
    then show ?thesis by (simp add: init_network_def)
  next
    fix s1 assume up: "bring_up E s = Some (None, s1)" "ready s1" "users_of s1 = users_of s"
    define xid where "xid = fst (get_u32 s1)"
    have r: "ready (snd (get_u32 s1))" using up(2) by simp
    obtain d s2 t2 where l: "dhcp_loop E xid 0 0 0 (snd (get_u32 s1)) = Some (d, s2)"
      "dhcp_inv (users_of (snd (get_u32 s1))) xid d t2 s2"
      using dhcp_loop_total [OF dhcp_start_inv [OF r], of E xid 0] by blast
    have eq: "init_network E s = (if d \<noteq> 2 then Some (EFI_TIMEOUT, s2) else resolve_gateway E s2)"
      using up(1) l(1)
      by (simp add: init_network_def case_prod_unfold xid_def DHCP_STATE_DISCOVER_def DHCP_STATE_BOUND_def)
    have "sane s2" using fresh_sane [OF f, of s2] l(2) up(3) by (simp add: dhcp_inv_def)
    then show ?thesis using resolve_gateway_total [OF _ n, of s2] by (auto simp: eq)
  qed
qed

lemma init_network_static_total:
  assumes f: "fresh s" and n: "net_safe E"
  shows "\<exists>st s'. init_network_static E ip gw nm dns s = Some (st, s') \<and> (EFI_ERROR st \<or> sane s')"
proof -
  have b: "booted s" using f by (simp add: fresh_def)
  show ?thesis
  proof (rule bring_up_cases [OF b, of E])
    fix st1 s1 assume "bring_up E s = Some (Some st1, s1)" "EFI_ERROR st1" "calls_only s s1"
    then show ?thesis by (simp add: init_network_static_def)
  next
    fix s1 assume up: "bring_up E s = Some (None, s1)" "ready s1" "users_of s1 = users_of s"
    let ?s = "s1\<lparr>my_ip := ip, router_ip := gw, subnet_mask := nm, dns_server_ip := dns\<rparr>"
    have "sane ?s" by (rule fresh_sane [OF f]) (use up in simp_all)
    from resolve_gateway_total [OF this n] show ?thesis using up(1) by (auto simp: init_network_static_def)
  qed
qed

end
