(* ===== verification/Net_Http.thy ===== *)
theory Net_Http
  imports Net_Api
begin

text \<open>
  \<open>http_get\<close> of \<^verbatim>\<open>api.hpp\<close>: resolve, connect to port 80, build the request in a 512-byte array, send
  it, receive once, close.  The request is related to its text; the call as a whole is one run of
  the abstract TCP client.
\<close>

text \<open>A string literal of the source, with its terminating zero.\<close>

definition ascii_z :: "string \<Rightarrow> bytes" where
  "ascii_z cs = map of_char cs @ [0]"

text \<open>The copy loop of one part; \<open>i\<close> is the position in the part, \<open>offset\<close> the one in the array.\<close>

function copy_part :: "bytes \<Rightarrow> nat \<Rightarrow> bytes \<Rightarrow> nat \<Rightarrow> (bytes \<times> nat) option" where
  "copy_part p i req offset =
     (case rd p i of
        None \<Rightarrow> None
      | Some c \<Rightarrow>
          if c \<noteq> 0x00 \<and> offset < HTTP_REQ_SIZE - 0x01
          then do {
            req \<leftarrow> store req offset [c];
            copy_part p (i + 1) req (offset + 1) }
          else Some (req, offset))"
  by pat_completeness auto
termination
  by (relation "measure (\<lambda>(p, i, req, offset). length p - i)") (auto simp: rd_def split: if_splits)

declare copy_part.simps [simp del]

fun copy_parts :: "bytes list \<Rightarrow> bytes \<Rightarrow> nat \<Rightarrow> (bytes \<times> nat) option" where
  "copy_parts [] req offset = Some (req, offset)"
| "copy_parts (p # ps) req offset = do {
     (req, offset) \<leftarrow> copy_part p 0 req offset;
     copy_parts ps req offset }"

definition request_parts :: "bytes \<Rightarrow> bytes \<Rightarrow> bytes list" where
  "request_parts hostname path =
     [ascii_z ''GET '', path,
      ascii_z ('' HTTP/1.1'' @ [CHR 0x0D, CHR 0x0A] @ ''Host: ''), hostname,
      ascii_z ([CHR 0x0D, CHR 0x0A] @ ''Connection: close'' @ [CHR 0x0D, CHR 0x0A, CHR 0x0D, CHR 0x0A])]"

definition build_request :: "bytes \<Rightarrow> bytes \<Rightarrow> (bytes \<times> nat) option" where
  "build_request hostname path = do {
     req \<leftarrow> local_zero_mem (replicate HTTP_REQ_SIZE 0) 0 HTTP_REQ_SIZE;
     copy_parts (request_parts hostname path) req 0 }"

definition http_get ::
  "firmware \<Rightarrow> bytes \<Rightarrow> bytes \<Rightarrow> bytes option \<Rightarrow> u64 \<Rightarrow> u64 \<Rightarrow> state \<Rightarrow>
   (efi_status \<times> bytes option \<times> u64 \<times> state) option" where
  "http_get E hostname path response_buffer max_len actual_len s = do {
     (st, target_ip, s) \<leftarrow> resolve_hostname E hostname 0x00 s;
     if EFI_ERROR st then Some (st, response_buffer, actual_len, s)
     else do {
       (st, s) \<leftarrow> tcp_connect E target_ip 0x50 s;
       if EFI_ERROR st then Some (st, response_buffer, actual_len, s)
       else do {
         (req, offset) \<leftarrow> build_request hostname path;
         (st, s) \<leftarrow> tcp_send E (Some req) (of_nat offset) s;
         if EFI_ERROR st then do {
           (_, s) \<leftarrow> tcp_close E s;
           Some (st, response_buffer, actual_len, s) }
         else do {
           (st, response_buffer, actual_len, s) \<leftarrow> tcp_receive E response_buffer max_len 0x1388 s;
           (_, s) \<leftarrow> tcp_close E s;
           Some (st, response_buffer, actual_len, s) } } } }"

subsection \<open>The request text\<close>

definition crlf8 :: bytes where
  "crlf8 = [0x0D, 0x0A]"

definition request_text :: "bytes \<Rightarrow> bytes \<Rightarrow> bytes" where
  "request_text hostname path =
     map of_char ''GET '' @ path @ map of_char '' HTTP/1.1'' @ crlf8 @ map of_char ''Host: '' @ hostname @ crlf8 @
     map of_char ''Connection: close'' @ crlf8 @ crlf8"

definition request_array :: "bytes \<Rightarrow> bytes \<times> nat" where
  "request_array t = (take 511 t @ replicate (512 - length (take 511 t)) 0, length (take 511 t))"

lemma copy_part_spec:
  "0 \<in> set (drop i p) \<Longrightarrow>
   copy_part p i (fst (request_array t)) (snd (request_array t)) = Some (request_array (take 511 t @ cstring (drop i p)))"
proof (induction "length p - i" arbitrary: i t rule: less_induct)
  case less
  have i: "i < length p" using less.prems by (metis drop_all empty_iff linorder_not_less list.set(1))
  then have d: "drop i p = p ! i # drop (Suc i) p" by (simp add: Cons_nth_drop_Suc)
  have ra: "request_array (take 511 t) = request_array t" by (simp add: request_array_def)
  show ?case
  proof (cases "p ! i \<noteq> 0 \<and> length (take 511 t) < 511")
    case True
    then have l: "length t < 511" by auto
    let ?t = "t @ [p ! i]"
    have st: "store (fst (request_array t)) (snd (request_array t)) [p ! i] = Some (fst (request_array ?t))"
      using l by (simp add: request_array_def store_def)
    have sn: "snd (request_array ?t) = snd (request_array t) + 1" using l by (simp add: request_array_def)
    have "copy_part p i (fst (request_array t)) (snd (request_array t)) =
        copy_part p (i + 1) (fst (request_array ?t)) (snd (request_array ?t))"
      using i True st sn by (subst copy_part.simps) (simp add: request_array_def const_vals)
    also have "\<dots> = Some (request_array (take 511 ?t @ cstring (drop (i + 1) p)))"
      by (rule less.hyps) (use less.prems i d True in auto)
    also have "take 511 ?t @ cstring (drop (i + 1) p) = take 511 t @ cstring (drop i p)"
      using True l d by (simp add: cstring_def)
    finally show ?thesis .
  next
    case False
    then have e: "copy_part p i (fst (request_array t)) (snd (request_array t)) = Some (request_array t)"
      using i by (subst copy_part.simps) (auto simp: request_array_def const_vals)
    have "request_array (take 511 t @ cstring (drop i p)) = request_array t"
    proof (cases "p ! i = 0")
      case True
      then show ?thesis using d ra by (simp add: cstring_def)
    next
      case 2: False
      then have "511 \<le> length t" using False by auto
      then show ?thesis by (simp add: request_array_def)
    qed
    then show ?thesis using e by simp
  qed
qed

lemma copy_parts_spec:
  "list_all (\<lambda>p. 0 \<in> set p) ps \<Longrightarrow>
   copy_parts ps (fst (request_array t)) (snd (request_array t)) = Some (request_array (take 511 t @ concat (map cstring ps)))"
proof (induction ps arbitrary: t)
  case Nil
  then show ?case by (simp add: request_array_def)
next
  case (Cons p ps)
  have "request_array (take 511 (take 511 t @ cstring p) @ concat (map cstring ps)) =
      request_array (take 511 t @ cstring p @ concat (map cstring ps))"
    by (simp add: request_array_def min_def)
  then show ?case using Cons copy_part_spec [of 0 p t] by (simp add: case_prod_unfold)
qed

lemma cstring_ascii: "0 \<notin> set (map of_char cs :: bytes) \<Longrightarrow> cstring (ascii_z cs) = map of_char cs"
  by (simp add: cstring_def ascii_z_def takeWhile_append) (metis image_eqI)

lemma request_parts_text:
  "concat (map cstring (request_parts hostname path)) = request_text (cstring hostname) (cstring path)"
  by (simp add: request_parts_def request_text_def cstring_ascii crlf8_def)

lemma build_request_eq:
  assumes "0 \<in> set hostname" "0 \<in> set path"
  shows "build_request hostname path = Some (request_array (request_text (cstring hostname) (cstring path)))"
proof -
  have "list_all (\<lambda>p. 0 \<in> set p) (request_parts hostname path)"
    using assms by (simp add: request_parts_def ascii_z_def)
  from copy_parts_spec [OF this, of "[]"] show ?thesis
    by (simp add: build_request_def request_parts_text mem_simps const_vals) (simp add: request_array_def)
qed

text \<open>What is sent is the text, cut off at 511 bytes.\<close>

lemma request_payload:
  "payload_arg (Some (fst (request_array t))) (take 511 t)" "snd (request_array t) = length (take 511 t)"
  "length (take 511 t) \<le> 511"
  by (auto simp: request_array_def payload_arg_def min_def)

subsection \<open>The call as a run of the client\<close>

lemma dns_query_runs:
  assumes h: "0 \<in> set hostname" "length (cstring hostname) \<le> 540"
    and t: "tcp_runs E K c s" and q: "dns_query E hostname s = Some s'"
  shows "tcp_runs E K c s'"
proof -
  have r: "ready s" using t by (simp add: tcp_runs_def)
  let ?f = "dns_frame (dns_prepare s) (ucast (fst (get_u32 s) AND 0xFFFF)) (cstring hostname)"
  have "length ?f \<le> 4096" using h(2) length_dns_frame [OF ready_dns_prepare [OF r]] by simp
  then have s': "sends (dns_prepare s) ?f s'" "ready s'"
    using send_frame_Some [of E ?f "dns_prepare s" s'] ready_dns_prepare [OF r] q unfolding dns_query_eq [OF r h] by blast+
  have "tcp_view s' = tcp_view s"
    using sends_view [OF s'(1)] dns_prepare_users [of s] by (simp add: users_of_def)
  then show ?thesis by (rule tcp_runs_view [OF t _ s'(2)])
qed

lemma resolve_runs:
  assumes h: "0 \<in> set hostname" "length (cstring hostname) \<le> 540"
    and s: "ready s" "tcp_rel s c" "net_sound E" and q: "resolve_hostname E hostname out_ip s = Some (st, ip, s')"
  obtains gs outs c' where "tcp_run c (map Segment gs) outs c'" "tcp_rel s' c'" "ready s'"
proof -
  let ?s = "s\<lparr>dns_resolved := False, dns_resolved_ip := 0\<rparr>"
  have "tcp_runs E (\<lambda>_. False) c ?s"
    using tcp_runs_view [OF tcp_runs_start [OF s(1,3,2)], of ?s "\<lambda>_. False"] s(1) by (simp add: tcp_view_def)
  moreover have "retry_loop E (dns_query E hostname) dns_resolved never TIMEOUT_TCP_LOOPS 0 0 ?s = Some s'"
    using q by (auto simp: resolve_hostname_def bind_Some_iff split: if_splits)
  ultimately have "tcp_runs E (\<lambda>_. False) c s'"
    by (rule tcp_wait.retry_loop_I [rotated]) (rule dns_query_runs [OF h])
  then show thesis using that by (rule tcp_runs_segments)
qed

lemma http_get_successE:
  assumes "http_get E hostname path (Some buf) max_len k0 s = Some (EFI_SUCCESS, buffer, k, s')"
    "0 \<in> set hostname" "0 \<in> set path"
  obtains st1 ip s1 st2 s2 st3 s3 s4 st5 where
    "resolve_hostname E hostname 0 s = Some (st1, ip, s1)" "\<not> EFI_ERROR st1"
    "tcp_connect E ip 0x50 s1 = Some (st2, s2)" "\<not> EFI_ERROR st2"
    "tcp_send E (Some (fst (request_array (request_text (cstring hostname) (cstring path)))))
       (of_nat (length (take 511 (request_text (cstring hostname) (cstring path))))) s2 = Some (st3, s3)" "\<not> EFI_ERROR st3"
    "tcp_receive E (Some buf) max_len 0x1388 s3 = Some (EFI_SUCCESS, buffer, k, s4)"
    "tcp_close E s4 = Some (st5, s')"
proof -
  have ok: "\<not> EFI_ERROR EFI_SUCCESS" by simp
  obtain st1 ip s1 where 1: "resolve_hostname E hostname 0 s = Some (st1, ip, s1)"
    using assms(1) by (auto simp: http_get_def elim!: bind_Some_E)
  then have n1: "\<not> EFI_ERROR st1" using assms(1) ok by (auto simp: http_get_def)
  obtain st2 s2 where 2: "tcp_connect E ip 0x50 s1 = Some (st2, s2)"
    using assms(1) 1 n1 by (auto simp: http_get_def elim!: bind_Some_E)
  then have n2: "\<not> EFI_ERROR st2" using assms(1) ok 1 n1 by (auto simp: http_get_def)
  note rest = assms(1) [unfolded http_get_def 1 bind.bind_lunit case_prod_unfold fst_conv snd_conv
      if_not_P [OF n1] 2 if_not_P [OF n2] build_request_eq [OF assms(2,3)] request_payload(2)]
  obtain st3 s3 where 3: "tcp_send E (Some (fst (request_array (request_text (cstring hostname) (cstring path)))))
       (of_nat (length (take 511 (request_text (cstring hostname) (cstring path))))) s2 = Some (st3, s3)"
    using rest by (rule bind_Some_E) (metis surj_pair)
  have n3: "\<not> EFI_ERROR st3" using rest ok unfolding 3 by (auto elim!: bind_Some_E split: if_splits)
  obtain s4 st5 where "tcp_receive E (Some buf) max_len 0x1388 s3 = Some (EFI_SUCCESS, buffer, k, s4)"
    "tcp_close E s4 = Some (st5, s')"
    using rest n3 unfolding 3 by (auto elim!: bind_Some_E)
  then show thesis using that 1 n1 2 n2 3 n3 by blast
qed

text \<open>
  When \<open>http_get\<close> reports success, the caller's buffer starts with what arrived on one connection:
  the client connected (a SYN was answered by SYN and ACK), pushed the request text, posted the
  buffer, received, and closed.
\<close>

lemma http_get_run:
  assumes h: "0 \<in> set hostname" "length (cstring hostname) \<le> 540" "0 \<in> set path"
    and s: "ready s" "tcp_rel s c" "net_sound E" and b: "unat max_len \<le> length buf"
    and t: "http_get E hostname path (Some buf) max_len k0 s = Some (EFI_SUCCESS, Some buf', k, s')"
  shows "\<exists>gs0 isn es gs es2 outs outs2 c2 c'.
    tcp_run c (map Segment gs0 @ (Connect isn # es) @
      [Push (take 511 (request_text (cstring hostname) (cstring path))), Post (unat max_len)] @ map Segment gs) outs c2 \<and>
    (\<forall>e\<in>set es. e = Syn \<or> (\<exists>g. e = Segment g)) \<and> (\<exists>g. Segment g \<in> set es \<and> is_syn_ack g \<and> \<not> is_rst g) \<and>
    c_inbox c2 = Some (take (unat k) buf') \<and> c_signal c2 \<and>
    tcp_run c2 (Withdraw # es2 @ [Shut]) outs2 c' \<and> (\<forall>e\<in>set es2. e = Finish \<or> (\<exists>g. e = Segment g)) \<and>
    tcp_rel s' c' \<and> c_phase c' = Closed"
proof -
  let ?text = "take 511 (request_text (cstring hostname) (cstring path))"
  let ?req = "fst (request_array (request_text (cstring hostname) (cstring path)))"
  obtain st1 ip s1 st2 s2 st3 s3 s4 st5 where
    1: "resolve_hostname E hostname 0 s = Some (st1, ip, s1)" and
    2: "tcp_connect E ip 0x50 s1 = Some (st2, s2)" "\<not> EFI_ERROR st2" and
    3: "tcp_send E (Some ?req) (of_nat (length ?text)) s2 = Some (st3, s3)" and
    4: "tcp_receive E (Some buf) max_len 0x1388 s3 = Some (EFI_SUCCESS, Some buf', k, s4)" and
    5: "tcp_close E s4 = Some (st5, s')"
    by (rule http_get_successE [OF t h(1,3)])
  obtain gs0 o0 c0 where r0: "tcp_run c (map Segment gs0) o0 c0" "tcp_rel s1 c0" "ready s1"
    using resolve_runs [OF h(1,2) s 1] by blast
  obtain isn es o1 c1 where r1: "tcp_run c0 (Connect isn # es) o1 c1" "tcp_rel s2 c1" "ready s2"
    "\<forall>e\<in>set es. e = Syn \<or> (\<exists>g. e = Segment g)" "st2 = EFI_SUCCESS \<longleftrightarrow> c_phase c1 = Established"
    "st2 = EFI_SUCCESS \<or> st2 = EFI_TIMEOUT"
    using tcp_connect_run [OF r0(3,2) s(3) 2(1)] by blast
  have e1: "c_phase c1 = Established" using 2(2) r1(5,6) EFI_ERROR_codes(5) by blast
  have "\<exists>g. Segment g \<in> set es \<and> is_syn_ack g \<and> \<not> is_rst g" by (rule connect_established [OF r1(1) e1])
  moreover have le: "length ?text \<le> 1446" using request_payload(3) [of "request_text (cstring hostname) (cstring path)"] by linarith
  obtain c3 where r3: "tcp_step c1 (Push ?text) [(0x18, c_seq c1, c_ack c1, ?text)] c3" "tcp_rel s3 c3" "ready s3"
    using tcp_send_run [OF r1(3,2) e1 request_payload(1) le, of E] 3 by auto
  obtain gs o4 c4 where r4: "ready s4"
    "tcp_run (c3\<lparr>c_inbox := Some [], c_cap := unat max_len, c_signal := False\<rparr>) (map Segment gs) o4 c4"
    "c_inbox c4 = Some (take (unat k) buf')" "tcp_rel s4 (c4\<lparr>c_inbox := None\<rparr>)" "c_signal c4"
    using tcp_receive_run [OF r3(3,2) s(3) b 4] by (auto simp: const_vals split: if_splits)
  obtain es2 o5 c' where r5: "tcp_run (c4\<lparr>c_inbox := None\<rparr>) (es2 @ [Shut]) o5 c'" "tcp_rel s' c'" "c_phase c' = Closed"
    "ready s'" "\<forall>e\<in>set es2. e = Finish \<or> (\<exists>g. e = Segment g)"
    using tcp_close_run [OF r4(1,4) s(3) 5] by blast
  have "tcp_run c (map Segment gs0 @ (Connect isn # es) @ [Push ?text, Post (unat max_len)] @ map Segment gs)
      (o0 @ o1 @ [(0x18, c_seq c1, c_ack c1, ?text)] @ [] @ o4) c4"
    using tcp_run_append [OF r0(1) tcp_run_append [OF r1(1) tcp_run.more [OF r3(1) tcp_run.more [OF tcp_step.post r4(2)]]]]
    by simp
  moreover have "tcp_run c4 (Withdraw # es2 @ [Shut]) ([] @ o5) c'"
    by (rule tcp_run.more [OF tcp_step.withdraw r5(1)])
  ultimately show ?thesis using r1(4) r4(3,5) r5 by blast
qed

subsection \<open>The call returns\<close>

lemma http_get_total:
  assumes s: "sane s" and n: "net_safe E" and h: "0 \<in> set hostname" "length (cstring hostname) \<le> 540" "0 \<in> set path"
    and b: "unat max_len \<le> length buf"
  shows "\<exists>st b' k s'. http_get E hostname path (Some buf) max_len k0 s = Some (st, Some b', k, s') \<and> sane s' \<and>
    length b' = length buf \<and> (EFI_ERROR st \<or> unat k \<le> length b')"
proof -
  let ?text = "take 511 (request_text (cstring hostname) (cstring path))"
  let ?req = "fst (request_array (request_text (cstring hostname) (cstring path)))"
  have le: "length ?text \<le> 1446" using request_payload(3) [of "request_text (cstring hostname) (cstring path)"] by linarith
  obtain st1 ip s1 where 1: "resolve_hostname E hostname 0 s = Some (st1, ip, s1)" "sane s1"
    using resolve_total [OF s n h(1,2)] by blast
  obtain st2 s2 where 2: "tcp_connect E ip 0x50 s1 = Some (st2, s2)" "sane s2"
    using tcp_connect_total [OF 1(2) n] by blast
  obtain st3 s3 where 3: "tcp_send E (Some ?req) (of_nat (length ?text)) s2 = Some (st3, s3)" "sane s3"
    using tcp_send_total [OF 2(2) request_payload(1) le] by blast
  obtain st4 b4 k4 s4 where 4: "tcp_receive E (Some buf) max_len 0x1388 s3 = Some (st4, Some b4, k4, s4)" "sane s4"
    "unat k4 \<le> length b4" "length b4 = length buf"
    using tcp_receive_total [OF 3(2) n b] by blast
  obtain s5 where 5: "tcp_close E s4 = Some (EFI_SUCCESS, s5)" "sane s5" using tcp_close_total [OF 4(2) n] by blast
  obtain s6 where 6: "tcp_close E s3 = Some (EFI_SUCCESS, s6)" "sane s6" using tcp_close_total [OF 3(2) n] by blast
  have eq: "http_get E hostname path (Some buf) max_len k0 s =
      (if EFI_ERROR st1 then Some (st1, Some buf, k0, s1)
       else if EFI_ERROR st2 then Some (st2, Some buf, k0, s2)
       else if EFI_ERROR st3 then Some (st3, Some buf, k0, s6) else Some (st4, Some b4, k4, s5))"
    unfolding http_get_def 1(1) bind.bind_lunit case_prod_unfold fst_conv snd_conv 2(1)
      build_request_eq [OF h(1,3)] request_payload(2) 3(1) 4(1) 5(1) 6(1) ..
  show ?thesis unfolding eq using 1(2) 2(2) 4(3,4) 5(2) 6(2) by simp
qed

end
