(* ===== verification/Net_Main.thy ===== *)
theory Net_Main
  imports Net_Console Net_Init Net_Http
begin

text \<open>
  \<^verbatim>\<open>main.cpp\<close>: the demonstration program, and what the programs share.  A program is the
  composition of the API and of the console helpers; the theorem about one is that it returns, that
  is, that every call it makes is within the bounds the API needs.  \<open>returns\<close> carries such a proof
  through a program, step by step.
\<close>

text \<open>The first lines of every \<open>EfiMain\<close>: the firmware's tables are not null.\<close>

definition enter :: "u64 \<Rightarrow> state \<Rightarrow> state" where
  "enter handle s = s\<lparr>bs_ptr := True, st_ptr := True, rt_ptr := True, image_handle := handle\<rparr>"

definition print_address :: "firmware \<Rightarrow> wide \<Rightarrow> u32 \<Rightarrow> wide \<Rightarrow> state \<Rightarrow> state option" where
  "print_address E before ip after s = do {
     let s = print_str E before s;
     s \<leftarrow> print_ip E ip s;
     Some (print_str E after s) }"

definition print_number :: "firmware \<Rightarrow> wide \<Rightarrow> u64 \<Rightarrow> wide \<Rightarrow> state \<Rightarrow> state option" where
  "print_number E before n after s = do {
     let s = print_str E before s;
     s \<leftarrow> print_dec E n s;
     Some (print_str E after s) }"

definition main_banner :: "firmware \<Rightarrow> state \<Rightarrow> state" where
  "main_banner E s =
     (let s = print_str E crlf s;
          s = print_str E (wstr (replicate 56 CHR ''='') @ crlf) s;
          s = print_str E (wstr ''  UEFI Bare-Metal Network Stack v1.0'' @ crlf) s;
          s = print_str E (wstr ''  IA made but it works i think...'' @ crlf) s
      in print_str E (wstr (replicate 56 CHR ''='') @ crlf @ crlf) s)"

definition main_configuration :: "firmware \<Rightarrow> state \<Rightarrow> state option" where
  "main_configuration E s = do {
     let s = print_str E (wstr ''--- Network Configuration ---'' @ crlf) s;
     let s = print_str E (wstr ''  MAC Address : '') s;
     s \<leftarrow> print_mac E (my_mac s) s;
     let s = print_str E crlf s;
     s \<leftarrow> print_address E (wstr ''  IP Address  : '') (my_ip s) crlf s;
     s \<leftarrow> print_address E (wstr ''  Subnet Mask : '') (subnet_mask s) crlf s;
     s \<leftarrow> print_address E (wstr ''  Gateway     : '') (router_ip s) crlf s;
     s \<leftarrow> print_address E (wstr ''  DNS Server  : '') (dns_server_ip s) crlf s;
     s \<leftarrow> (if dhcp_lease_time s > 0x00
          then print_number E (wstr ''  Lease Time  : '') (ucast (dhcp_lease_time s)) (wstr '' seconds'' @ crlf) s
          else Some s);
     Some (print_str E (wstr ''-----------------------------'' @ crlf @ crlf) s) }"

definition main_ping :: "firmware \<Rightarrow> state \<Rightarrow> state option" where
  "main_ping E s = do {
     s \<leftarrow> print_address E (wstr ''[*] Pinging gateway ('') (router_ip s) (wstr '')...'' @ crlf) s;
     (st, s) \<leftarrow> ping E (router_ip s) 0x0BB8 s;
     Some (if \<not> EFI_ERROR st
           then print_str E (wstr ''[+] Ping reply received!'' @ crlf @ crlf) s
           else print_str E (wstr ''[-] Ping timeout (gateway may block ICMP)'' @ crlf @ crlf) s) }"

definition main_resolve :: "firmware \<Rightarrow> state \<Rightarrow> state option" where
  "main_resolve E s = do {
     let s = print_str E (wstr ''[*] Resolving example.com...'' @ crlf) s;
     (st, resolved_ip, s) \<leftarrow> resolve_hostname E (ascii_z ''example.com'') 0x00 s;
     if \<not> EFI_ERROR st
     then print_address E (wstr ''[+] example.com -> '') resolved_ip (crlf @ crlf) s
     else Some (print_str E (wstr ''[-] DNS resolution failed.'' @ crlf @ crlf) s) }"

definition main_fetch :: "firmware \<Rightarrow> state \<Rightarrow> state option" where
  "main_fetch E s = do {
     let s = print_str E (wstr ''[*] Fetching http://example.com/ ...'' @ crlf) s;
     rx_buf \<leftarrow> local_zero_mem (replicate 0x1000 0) 0 0x1000;
     (st, rx_buf, rx_len, s) \<leftarrow>
       http_get E (ascii_z ''example.com'') (ascii_z ''/'') (Some rx_buf) (0x1000 - 0x01) 0x00 s;
     if \<not> EFI_ERROR st \<and> rx_len > 0x00
     then do {
       s \<leftarrow> print_number E (crlf @ wstr ''--- HTTP Response ('') rx_len (wstr '' bytes) ---'' @ crlf) s;
       s \<leftarrow> print_ascii_n E rx_buf rx_len s;
       Some (print_str E (crlf @ wstr ''--- End of Response ---'' @ crlf) s) }
     else Some (print_str E (wstr ''[-] HTTP request failed.'' @ crlf) s) }"

definition efi_main :: "firmware \<Rightarrow> u64 \<Rightarrow> state \<Rightarrow> (efi_status \<times> state) option" where
  "efi_main E handle s = do {
     let s = enter handle s;
     let s = main_banner E s;
     let s = print_str E (wstr ''[*] Initializing network (DHCP)...'' @ crlf) s;
     (st, s) \<leftarrow> init_network E s;
     if EFI_ERROR st
     then do {
       let s = print_str E (wstr ''[!] Network initialization failed: '') s;
       s \<leftarrow> print_hex E st s;
       Some (st, print_str E crlf s) }
     else do {
       let s = print_str E (wstr ''[+] Network initialized successfully!'' @ crlf @ crlf) s;
       s \<leftarrow> main_configuration E s;
       s \<leftarrow> main_ping E s;
       s \<leftarrow> main_resolve E s;
       s \<leftarrow> main_fetch E s;
       let s = print_str E (crlf @ wstr ''[*] Demo complete. Press reset to reboot.'' @ crlf) s;
       Some (EFI_SUCCESS, s) } }"

subsection \<open>Programs that return\<close>

definition returns :: "('a \<Rightarrow> bool) \<Rightarrow> 'a option \<Rightarrow> bool" where
  "returns P m \<longleftrightarrow> (\<exists>r. m = Some r \<and> P r)"

lemma returns_Some: "P r \<Longrightarrow> returns P (Some r)"
  by (simp add: returns_def)

lemma returns_bind: "returns P m \<Longrightarrow> (\<And>r. P r \<Longrightarrow> returns Q (f r)) \<Longrightarrow> returns Q (m \<bind> f)"
  by (auto simp: returns_def)

lemma returns_if: "(b \<Longrightarrow> returns P x) \<Longrightarrow> (\<not> b \<Longrightarrow> returns P y) \<Longrightarrow> returns P (if b then x else y)"
  by simp

lemma returns_mono: "returns P m \<Longrightarrow> (\<And>r. P r \<Longrightarrow> Q r) \<Longrightarrow> returns Q m"
  by (auto simp: returns_def)

named_theorems steps "console and API steps that return"

lemma shows_users: "shows_text E w s s' \<Longrightarrow> users_of s' = users_of s \<and> ready s' = ready s"
  by (auto simp: shows_text_def users_of_def tcp_view_def)

lemma shows_sane: "shows_text E w s s' \<Longrightarrow> sane s \<Longrightarrow> sane s'"
  using shows_users [of E w s s'] sane_users [of s' s] by (simp add: sane_def)

lemma sane_print_str [steps]: "sane s \<Longrightarrow> sane (print_str E w s)"
  by (rule shows_sane [OF print_str_shows])

lemma print_ip_returns [steps]: "sane s \<Longrightarrow> returns sane (print_ip E ip s)"
  using print_ip_shows [of E ip s] shows_sane by (auto simp: returns_def)

lemma print_dec_returns [steps]: "sane s \<Longrightarrow> returns sane (print_dec E n s)"
  using print_dec_shows [of E n s] shows_sane by (auto simp: returns_def)

lemma print_mac_returns [steps]: "sane s \<Longrightarrow> 6 \<le> length mac \<Longrightarrow> returns sane (print_mac E mac s)"
  using print_mac_shows [of mac E s] shows_sane by (auto simp: returns_def)

lemma print_ascii_returns [steps]: "sane s \<Longrightarrow> unat n \<le> length b \<Longrightarrow> returns sane (print_ascii_n E (Some b) n s)"
  using print_ascii_shows [of n b E s] shows_sane by (auto simp: returns_def)

lemma print_address_returns [steps]: "sane s \<Longrightarrow> returns sane (print_address E a ip b s)"
  unfolding print_address_def Let_def
  by (intro returns_bind [of sane] returns_Some steps)

lemma print_number_returns [steps]: "sane s \<Longrightarrow> returns sane (print_number E a n b s)"
  unfolding print_number_def Let_def
  by (intro returns_bind [of sane] returns_Some steps)

lemma ping_returns [steps]: "sane s \<Longrightarrow> net_safe E \<Longrightarrow> returns (\<lambda>(st, s). sane s) (ping E ip ms s)"
  using ping_total [of s E ip ms] by (auto simp: returns_def)

lemma resolve_returns [steps]:
  "sane s \<Longrightarrow> net_safe E \<Longrightarrow> 0 \<in> set h \<Longrightarrow> length (cstring h) \<le> 540 \<Longrightarrow>
   returns (\<lambda>(st, ip, s). sane s) (resolve_hostname E h ip0 s)"
  using resolve_total [of s E h ip0] by (auto simp: returns_def)

lemma http_get_returns:
  "sane s \<Longrightarrow> net_safe E \<Longrightarrow> 0 \<in> set h \<Longrightarrow> length (cstring h) \<le> 540 \<Longrightarrow> 0 \<in> set p \<Longrightarrow> unat m \<le> length buf \<Longrightarrow>
   returns (\<lambda>(st, b, k, s). sane s \<and> (EFI_ERROR st \<or> (\<exists>b'. b = Some b' \<and> unat k \<le> length b'))) (http_get E h p (Some buf) m k0 s)"
  using http_get_total [of s E h p m buf k0] by (auto simp: returns_def)

lemma ascii_z_zero [simp]: "0 \<in> set (ascii_z cs)"
  by (simp add: ascii_z_def)

lemma length_cstring_ascii [simp]: "length (cstring (ascii_z cs)) \<le> length cs"
  by (simp add: cstring_def ascii_z_def takeWhile_append length_takeWhile_le [THEN order_trans])

subsection \<open>The demonstration\<close>

lemma main_banner_sane [steps]: "sane s \<Longrightarrow> sane (main_banner E s)"
  unfolding main_banner_def Let_def by (intro steps)

lemma main_configuration_returns: "sane s \<Longrightarrow> returns sane (main_configuration E s)"
proof -
  assume s: "sane s"
  then have "6 \<le> length (my_mac s)" by (simp add: sane_def ready_def)
  then show ?thesis
    using s unfolding main_configuration_def Let_def
    by (intro returns_bind [of sane] returns_if returns_Some steps) (simp_all add: print_str_def call_def)
qed

lemma main_ping_returns: "sane s \<Longrightarrow> net_safe E \<Longrightarrow> returns sane (main_ping E s)"
  unfolding main_ping_def
  by (rule returns_bind [of sane], rule steps, assumption, rule returns_bind, rule steps)
    (auto simp: case_prod_unfold intro!: returns_Some steps)

lemma main_resolve_returns: "sane s \<Longrightarrow> net_safe E \<Longrightarrow> returns sane (main_resolve E s)"
  unfolding main_resolve_def Let_def
  by (rule returns_bind, rule resolve_returns)
    (auto simp: case_prod_unfold intro!: returns_Some steps order_trans [OF length_cstring_ascii])

lemma main_fetch_returns:
  assumes "sane s" "net_safe E"
  shows "returns sane (main_fetch E s)"
proof -
  have z: "local_zero_mem (replicate 0x1000 0) 0 0x1000 = Some (replicate 4096 0)" by (simp add: mem_simps)
  show ?thesis
    unfolding main_fetch_def Let_def z bind.bind_lunit
  proof (rule returns_bind, rule http_get_returns)
    fix r :: "efi_status \<times> bytes option \<times> u64 \<times> state"
    assume r: "case r of (st, b, k, s) \<Rightarrow> sane s \<and> (EFI_ERROR st \<or> (\<exists>b'. b = Some b' \<and> unat k \<le> length b'))"
    obtain st b k s2 where e: "r = (st, b, k, s2)" by (cases r)
    have s2: "sane s2" using r e by simp
    show "returns sane (case r of (st, rx_buf, rx_len, s) \<Rightarrow>
        if \<not> EFI_ERROR st \<and> 0 < rx_len
        then print_number E (crlf @ wstr ''--- HTTP Response ('') rx_len (wstr '' bytes) ---'' @ crlf) s \<bind>
             (\<lambda>s. print_ascii_n E rx_buf rx_len s \<bind>
             (\<lambda>s. Some (print_str E (crlf @ wstr ''--- End of Response ---'' @ crlf) s)))
        else Some (print_str E (wstr ''[-] HTTP request failed.'' @ crlf) s))"
      unfolding e prod.case
    proof (rule returns_if)
      assume "\<not> EFI_ERROR st \<and> 0 < k"
      then obtain b' where "b = Some b'" "unat k \<le> length b'" using r e by auto
      then show "returns sane (print_number E (crlf @ wstr ''--- HTTP Response ('') k (wstr '' bytes) ---'' @ crlf) s2 \<bind>
             (\<lambda>s. print_ascii_n E b k s \<bind>
             (\<lambda>s. Some (print_str E (crlf @ wstr ''--- End of Response ---'' @ crlf) s))))"
        using s2 by (auto intro!: returns_bind [of sane] returns_Some steps)
    qed (use s2 in \<open>intro returns_Some steps\<close>)
  qed (use assms in \<open>auto intro!: steps order_trans [OF length_cstring_ascii]\<close>)
qed

text \<open>
  On a safe network the program returns: with the error of \<open>init_network\<close>, or, whatever became of
  the ping, the lookup and the request, with success.
\<close>

lemma init_returns:
  "fresh s \<Longrightarrow> net_safe E \<Longrightarrow> returns (\<lambda>(st, s). EFI_ERROR st \<or> sane s) (init_network E s)"
  using init_network_total [of s E] by (auto simp: returns_def)

lemma fresh_users: "fresh s \<Longrightarrow> users_of s' = users_of s \<Longrightarrow> booted s' \<Longrightarrow> fresh s'"
proof -
  assume f: "fresh s" and u: "users_of s' = users_of s" and b: "booted s'"
  obtain c where "tcp_rel s c" using f by (auto simp: fresh_def)
  moreover have "tcp_view s' = tcp_view s" using u by (simp add: users_of_def)
  ultimately have "tcp_rel s' c" using tcp_rel_view [of s' s c] by simp
  moreover have "udp_inbox_ok s'" using f u by (simp add: fresh_def udp_inbox_ok_def users_of_def cong: option.case_cong)
  ultimately show ?thesis using b by (auto simp: fresh_def)
qed

lemma fresh_print_str [steps]: "fresh s \<Longrightarrow> fresh (print_str E w s)"
  by (rule fresh_users [of s]) (simp_all add: print_str_def fresh_def booted_def call_def users_of_def tcp_view_def)

lemma main_returns:
  assumes "fresh (enter h s)" "net_safe E"
  shows "returns (\<lambda>(st, s'). EFI_ERROR st \<or> st = EFI_SUCCESS \<and> sane s') (efi_main E h s)"
proof -
  let ?s = "print_str E (wstr ''[*] Initializing network (DHCP)...'' @ crlf) (main_banner E (enter h s))"
  have "fresh ?s" using assms(1) unfolding main_banner_def Let_def by (intro steps)
  then obtain st s1 where i: "init_network E ?s = Some (st, s1)" "EFI_ERROR st \<or> sane s1"
    using init_network_total [OF _ assms(2), of ?s] by blast
  show ?thesis
  proof (cases "EFI_ERROR st")
    case True
    then show ?thesis
      using print_hex_eq [of E st "print_str E (wstr ''[!] Network initialization failed: '') s1"]
      by (auto simp: efi_main_def Let_def i returns_def)
  next
    case False
    let ?m = "print_str E (wstr ''[+] Network initialized successfully!'' @ crlf @ crlf) s1"
    have m: "sane ?m" using i(2) False by (intro steps) simp
    have "returns sane (main_configuration E ?m \<bind> main_ping E \<bind> main_resolve E \<bind> main_fetch E)"
      using m assms(2)
      by (intro returns_bind [of sane] main_configuration_returns main_ping_returns main_resolve_returns main_fetch_returns)
    then obtain s2 where "main_configuration E ?m \<bind> main_ping E \<bind> main_resolve E \<bind> main_fetch E = Some s2" "sane s2"
      by (auto simp only: returns_def)
    then show ?thesis
      using False sane_print_str [of s2 E] by (auto simp: efi_main_def Let_def i returns_def bind_eq_Some_conv)
  qed
qed

end
