(* ===== verification/Net_Examples.thy ===== *)
theory Net_Examples
  imports Net_Main
begin

text \<open>
  \<^verbatim>\<open>examples/\<close>: the six example programs.  Each is the composition of the API and the console
  helpers, as \<^verbatim>\<open>main.cpp\<close> is, and each is shown to return.  Five of them start by the same lines,
  \<open>with_network\<close>.
\<close>

definition with_network ::
  "firmware \<Rightarrow> (state \<Rightarrow> (efi_status \<times> state) option) \<Rightarrow> state \<Rightarrow> (efi_status \<times> state) option" where
  "with_network E body s = do {
     (st, s) \<leftarrow> init_network E s;
     if EFI_ERROR st
     then Some (st, print_str E (wstr ''[!] Network init failed.'' @ crlf) s)
     else body s }"

subsection \<open>DNS lookup\<close>

fun lookup_hosts :: "firmware \<Rightarrow> string list \<Rightarrow> state \<Rightarrow> state option" where
  "lookup_hosts E [] s = Some s"
| "lookup_hosts E (host # hosts) s = do {
     let s = print_str E (wstr ''  '') s;
     let s = print_str E (wstr host) s;
     let s = print_str E (wstr '' -> '') s;
     (st, ip, s) \<leftarrow> resolve_hostname E (ascii_z host) 0 s;
     s \<leftarrow> (if \<not> EFI_ERROR st then print_ip E ip s else Some (print_str E (wstr ''FAILED'') s));
     let s = print_str E crlf s;
     lookup_hosts E hosts s }"

definition example_dns_lookup :: "firmware \<Rightarrow> u64 \<Rightarrow> state \<Rightarrow> (efi_status \<times> state) option" where
  "example_dns_lookup E handle s = do {
     let s = enter handle s;
     let s = print_str E (crlf @ wstr ''=== Example: DNS Lookup ==='' @ crlf @ crlf) s;
     with_network E (\<lambda>s. do {
       s \<leftarrow> print_address E (wstr ''[+] DNS Server: '') (dns_server_ip s) (crlf @ crlf) s;
       s \<leftarrow> lookup_hosts E [''example.com'', ''google.com'', ''github.com'', ''cloudflare.com''] s;
       let s = print_str E (crlf @ wstr ''[*] Done.'' @ crlf) s;
       Some (EFI_SUCCESS, s) }) s }"

subsection \<open>HTTP GET\<close>

definition example_http_get :: "firmware \<Rightarrow> u64 \<Rightarrow> state \<Rightarrow> (efi_status \<times> state) option" where
  "example_http_get E handle s = do {
     let s = enter handle s;
     let s = print_str E (crlf @ wstr ''=== Example: HTTP GET ==='' @ crlf @ crlf) s;
     with_network E (\<lambda>s. do {
       s \<leftarrow> print_address E (wstr ''[+] IP: '') (my_ip s) (crlf @ crlf) s;
       response \<leftarrow> local_zero_mem (replicate 0x1000 0) 0 0x1000;
       let s = print_str E (wstr ''[*] GET http://example.com/ ...'' @ crlf) s;
       (st, response, len, s) \<leftarrow>
         http_get E (ascii_z ''example.com'') (ascii_z ''/'') (Some response) (0x1000 - 1) 0x00 s;
       s \<leftarrow> (if \<not> EFI_ERROR st \<and> len > 0x00
            then do {
              let s = print_str E crlf s;
              s \<leftarrow> print_ascii_n E response len s;
              print_number E (crlf @ crlf @ wstr ''[+] Received '') len (wstr '' bytes.'' @ crlf) s }
            else Some (print_str E (wstr ''[-] Request failed.'' @ crlf) s));
       Some (EFI_SUCCESS, s) }) s }"

subsection \<open>Ping\<close>

fun ping_rounds :: "firmware \<Rightarrow> u64 list \<Rightarrow> state \<Rightarrow> state option" where
  "ping_rounds E [] s = Some s"
| "ping_rounds E (i # is) s = do {
     s \<leftarrow> print_address E (wstr ''[*] Ping '') (router_ip s) (wstr '' #'') s;
     s \<leftarrow> print_dec E (i + 1) s;
     let s = print_str E (wstr '' ... '') s;
     (st, s) \<leftarrow> ping E (router_ip s) 3000 s;
     let s = (if \<not> EFI_ERROR st then print_str E (wstr ''Reply received!'' @ crlf) s
              else print_str E (wstr ''Timeout.'' @ crlf) s);
     s \<leftarrow> stall 1000000 s;
     ping_rounds E is s }"

definition example_ping :: "firmware \<Rightarrow> u64 \<Rightarrow> state \<Rightarrow> (efi_status \<times> state) option" where
  "example_ping E handle s = do {
     let s = enter handle s;
     let s = print_str E (crlf @ wstr ''=== Example: ICMP Ping ==='' @ crlf @ crlf) s;
     with_network E (\<lambda>s. do {
       s \<leftarrow> print_address E (wstr ''[+] Network ready. IP: '') (my_ip s) (crlf @ crlf) s;
       s \<leftarrow> ping_rounds E [0, 1, 2, 3, 4] s;
       let s = print_str E (crlf @ wstr ''[*] Done.'' @ crlf) s;
       Some (EFI_SUCCESS, s) }) s }"

subsection \<open>Static addresses\<close>

definition example_static_ip :: "firmware \<Rightarrow> u64 \<Rightarrow> state \<Rightarrow> (efi_status \<times> state) option" where
  "example_static_ip E handle s = do {
     let s = enter handle s;
     let s = print_str E (crlf @ wstr ''=== Example: Static IP Configuration ==='' @ crlf @ crlf) s;
     let ip = make_ipv4 192 168 1 200;
     let gateway = make_ipv4 192 168 1 1;
     let mask = make_ipv4 255 255 255 0;
     let dns = make_ipv4 8 8 8 8;
     let s = print_str E (wstr ''[*] Configuring static IP...'' @ crlf) s;
     s \<leftarrow> print_address E (wstr ''  IP      : '') ip crlf s;
     s \<leftarrow> print_address E (wstr ''  Gateway : '') gateway crlf s;
     s \<leftarrow> print_address E (wstr ''  Mask    : '') mask crlf s;
     s \<leftarrow> print_address E (wstr ''  DNS     : '') dns (crlf @ crlf) s;
     (st, s) \<leftarrow> init_network_static E ip gateway mask dns s;
     if EFI_ERROR st
     then do {
       let s = print_str E (wstr ''[!] Static init failed (ARP timeout?): '') s;
       s \<leftarrow> print_hex E st s;
       let s = print_str E crlf s;
       Some (st, s) }
     else do {
       let s = print_str E (wstr ''[+] Network ready with static IP!'' @ crlf) s;
       let s = print_str E (wstr ''[+] Gateway MAC: '') s;
       s \<leftarrow> print_mac E (router_mac s) s;
       let s = print_str E (crlf @ crlf) s;
       let s = print_str E (wstr ''[*] Pinging gateway...'' @ crlf) s;
       (st, s) \<leftarrow> ping E gateway 3000 s;
       let s = (if \<not> EFI_ERROR st then print_str E (wstr ''[+] Gateway is reachable!'' @ crlf) s
                else print_str E (wstr ''[-] Ping timeout.'' @ crlf) s);
       let s = print_str E (crlf @ wstr ''[*] Resolving google.com...'' @ crlf) s;
       (st, resolved, s) \<leftarrow> resolve_hostname E (ascii_z ''google.com'') 0 s;
       s \<leftarrow> (if \<not> EFI_ERROR st then print_address E (wstr ''[+] google.com -> '') resolved crlf s
            else Some (print_str E (wstr ''[-] DNS failed.'' @ crlf) s));
       let s = print_str E (crlf @ wstr ''[*] Done.'' @ crlf) s;
       Some (EFI_SUCCESS, s) } }"

subsection \<open>TCP client\<close>

definition client_request :: string where
  "client_request = (''GET / HTTP/1.1'' @ [CHR 0x0D, CHR 0x0A] @ ''Host: example.com'' @ [CHR 0x0D, CHR 0x0A] @
     ''Connection: close'' @ [CHR 0x0D, CHR 0x0A, CHR 0x0D, CHR 0x0A])"

definition client_exchange :: "firmware \<Rightarrow> state \<Rightarrow> (efi_status \<times> state) option" where
  "client_exchange E s = do {
     req_len \<leftarrow> ascii_str_len (ascii_z client_request) 0;
     s \<leftarrow> print_number E (wstr ''[*] Sending request ('') (of_nat req_len) (wstr '' bytes)...'' @ crlf) s;
     (st, s) \<leftarrow> tcp_send E (Some (ascii_z client_request)) (of_nat req_len) s;
     if EFI_ERROR st
     then do {
       let s = print_str E (wstr ''[!] Send failed.'' @ crlf) s;
       (_, s) \<leftarrow> tcp_close E s;
       Some (st, s) }
     else do {
       buf \<leftarrow> local_zero_mem (replicate 0x1000 0) 0 0x1000;
       let s = print_str E (wstr ''[*] Waiting for response...'' @ crlf) s;
       (st, buf, rx_len, s) \<leftarrow> tcp_receive E (Some buf) (0x1000 - 1) 5000 s;
       s \<leftarrow> (if \<not> EFI_ERROR st \<and> rx_len > 0
            then do {
              s \<leftarrow> print_number E (crlf @ wstr ''--- Response ('') rx_len (wstr '' bytes) ---'' @ crlf) s;
              s \<leftarrow> print_ascii_n E buf rx_len s;
              Some (print_str E (crlf @ wstr ''--- End ---'' @ crlf) s) }
            else Some (print_str E (wstr ''[-] No response received.'' @ crlf) s));
       (_, s) \<leftarrow> tcp_close E s;
       let s = print_str E (crlf @ wstr ''[*] Connection closed. Done.'' @ crlf) s;
       Some (EFI_SUCCESS, s) } }"

definition example_tcp_client :: "firmware \<Rightarrow> u64 \<Rightarrow> state \<Rightarrow> (efi_status \<times> state) option" where
  "example_tcp_client E handle s = do {
     let s = enter handle s;
     let s = print_str E (crlf @ wstr ''=== Example: TCP Client ==='' @ crlf @ crlf) s;
     with_network E (\<lambda>s. do {
       let s = print_str E (wstr ''[*] Resolving example.com...'' @ crlf) s;
       (st, server_ip, s) \<leftarrow> resolve_hostname E (ascii_z ''example.com'') 0 s;
       if EFI_ERROR st
       then Some (st, print_str E (wstr ''[!] DNS failed.'' @ crlf) s)
       else do {
         s \<leftarrow> print_address E (wstr ''[+] Server IP: '') server_ip crlf s;
         let s = print_str E (wstr ''[*] Connecting to port 80...'' @ crlf) s;
         (st, s) \<leftarrow> tcp_connect E server_ip 80 s;
         if EFI_ERROR st
         then Some (st, print_str E (wstr ''[!] TCP connect failed.'' @ crlf) s)
         else do {
           let s = print_str E (wstr ''[+] Connected!'' @ crlf) s;
           client_exchange E s } } }) s }"

subsection \<open>UDP echo\<close>

definition example_udp_echo :: "firmware \<Rightarrow> u64 \<Rightarrow> state \<Rightarrow> (efi_status \<times> state) option" where
  "example_udp_echo E handle s = do {
     let s = enter handle s;
     let s = print_str E (crlf @ wstr ''=== Example: UDP Echo ==='' @ crlf @ crlf) s;
     with_network E (\<lambda>s. do {
       s \<leftarrow> print_address E (wstr ''[+] IP: '') (my_ip s) (crlf @ crlf) s;
       let target_ip = router_ip s;
       let target_port = (7777 :: u16);
       let message = ascii_z ''Hello from UEFI!'';
       msg_len \<leftarrow> ascii_str_len message 0;
       let (port, s) = get_ephemeral_port s;
       let s = s\<lparr>udp_local_port := port\<rparr>;
       s \<leftarrow> print_address E (wstr ''[*] Sending UDP to '') target_ip (wstr '':'') s;
       s \<leftarrow> print_dec E (ucast target_port) s;
       let s = print_str E crlf s;
       (st, s) \<leftarrow> udp_send E target_ip target_port (Some message) (of_nat msg_len) s;
       s \<leftarrow> print_number E (wstr ''[+] Sent '') (of_nat msg_len) (wstr '' bytes.'' @ crlf) s;
       reply \<leftarrow> local_zero_mem (replicate 0x200 0) 0 0x200;
       let s = print_str E (wstr ''[*] Waiting for reply (5 sec timeout)...'' @ crlf) s;
       (st, reply, reply_len, s) \<leftarrow> udp_receive E (Some reply) (0x200 - 1) 5000 s;
       s \<leftarrow> (if \<not> EFI_ERROR st \<and> reply_len > 0
            then do {
              s \<leftarrow> print_number E (wstr ''[+] Received '') reply_len (wstr '' bytes: '') s;
              s \<leftarrow> print_ascii_n E reply reply_len s;
              Some (print_str E crlf s) }
            else Some (print_str E (wstr ''[-] No reply (timeout or server not running).'' @ crlf) s));
       let s = print_str E (crlf @ wstr ''[*] Done.'' @ crlf) s;
       Some (EFI_SUCCESS, s) }) s }"

subsection \<open>The examples return\<close>

text \<open>One rule per call: the rest of the program is shown to return from any sane state.\<close>

lemma returns_prod:
  "returns (\<lambda>(a, b). P a b) m \<Longrightarrow> (\<And>a b. P a b \<Longrightarrow> returns Q (f a b)) \<Longrightarrow> returns Q (m \<bind> case_prod f)"
  by (auto simp: returns_def)

named_theorems calls "what follows a call, from any state the call leaves"

lemmas print_calls [calls] =
  returns_bind [OF print_ip_returns] returns_bind [OF print_dec_returns] returns_bind [OF print_mac_returns]
  returns_bind [OF print_address_returns] returns_bind [OF print_number_returns] returns_bind [OF print_ascii_returns]

lemma stall_calls [calls]: "sane s \<Longrightarrow> (\<And>s. sane s \<Longrightarrow> returns Q (f s)) \<Longrightarrow> returns Q (stall us s \<bind> f)"
  using stall_ready [of s us] sane_call [of s] by (auto simp: sane_def)

lemma api_calls [calls]:
  "sane s \<Longrightarrow> net_safe E \<Longrightarrow> (\<And>st s. sane s \<Longrightarrow> returns Q (f1 st s)) \<Longrightarrow> returns Q (ping E ip ms s \<bind> case_prod f1)"
  "sane s \<Longrightarrow> net_safe E \<Longrightarrow> (\<And>st s. sane s \<Longrightarrow> returns Q (f1 st s)) \<Longrightarrow>
   returns Q (tcp_connect E ip port s \<bind> case_prod f1)"
  "sane s \<Longrightarrow> net_safe E \<Longrightarrow> (\<And>st s. sane s \<Longrightarrow> returns Q (f1 st s)) \<Longrightarrow> returns Q (tcp_close E s \<bind> case_prod f1)"
  "sane s \<Longrightarrow> net_safe E \<Longrightarrow> length cs \<le> 540 \<Longrightarrow> (\<And>st ip s. sane s \<Longrightarrow> returns Q (f2 st ip s)) \<Longrightarrow>
   returns Q (resolve_hostname E (ascii_z cs) ip s \<bind> (\<lambda>(st, ip, s). f2 st ip s))"
  "sane s \<Longrightarrow> net_safe E \<Longrightarrow> unat m \<le> length b \<Longrightarrow>
   (\<And>st b k s. sane s \<Longrightarrow> unat k \<le> length b \<Longrightarrow> returns Q (f3 st (Some b) k s)) \<Longrightarrow>
   returns Q (tcp_receive E (Some b) m ms s \<bind> (\<lambda>(st, b, k, s). f3 st b k s))"
  "sane s \<Longrightarrow> net_safe E \<Longrightarrow> unat m \<le> length b \<Longrightarrow>
   (\<And>st b k s. sane s \<Longrightarrow> unat k \<le> length b \<Longrightarrow> returns Q (f3 st (Some b) k s)) \<Longrightarrow>
   returns Q (udp_receive E (Some b) m ms s \<bind> (\<lambda>(st, b, k, s). f3 st b k s))"
  subgoal using ping_total [of s E ip ms] by auto
  subgoal using tcp_connect_total [of s E ip port] by auto
  subgoal using tcp_close_total [of s E] by auto
  subgoal using resolve_total [of s E "ascii_z cs" ip] order_trans [OF length_cstring_ascii, of cs 540] by auto
  subgoal using tcp_receive_total [of s E m b ms] by auto
  subgoal using udp_receive_total [of s E m b ms] by auto
  done

text \<open>A program ends with an error, or with success and a sane state.\<close>

definition ends :: "efi_status \<times> state \<Rightarrow> bool" where
  "ends r \<longleftrightarrow> EFI_ERROR (fst r) \<or> fst r = EFI_SUCCESS \<and> sane (snd r)"

lemma ends_success: "sane s \<Longrightarrow> returns ends (Some (EFI_SUCCESS, s))"
  by (simp add: returns_def ends_def)

lemma ends_error: "EFI_ERROR st \<Longrightarrow> returns ends (Some (st, s))"
  by (simp add: returns_def ends_def)

lemma endsI: "sane s \<Longrightarrow> ends (EFI_SUCCESS, s)" "EFI_ERROR st \<Longrightarrow> ends (st, s)"
  by (simp_all add: ends_def)

lemma with_network_ends:
  assumes "fresh s" "net_safe E" "\<And>s. sane s \<Longrightarrow> returns ends (body s)"
  shows "returns ends (with_network E body s)"
  using init_network_total [OF assms(1,2)] assms(3) by (auto simp: with_network_def intro!: ends_error)

lemma lookup_hosts_returns:
  "list_all (\<lambda>h. length h \<le> 540) hosts \<Longrightarrow> sane s \<Longrightarrow> net_safe E \<Longrightarrow> returns sane (lookup_hosts E hosts s)"
proof (induction hosts arbitrary: s)
  case (Cons h hosts)
  then show ?case
    unfolding lookup_hosts.simps Let_def
    by (intro calls returns_bind [of sane] returns_if returns_Some steps) (auto intro: steps)
qed (simp add: returns_def)

lemma ping_rounds_returns: "sane s \<Longrightarrow> net_safe E \<Longrightarrow> returns sane (ping_rounds E is s)"
proof (induction "is" arbitrary: s)
  case (Cons i "is")
  show ?case
    unfolding ping_rounds.simps Let_def by (intro calls Cons) (use Cons in \<open>auto intro!: steps\<close>)
qed (simp add: returns_def)

lemma message_length:
  "0 \<notin> set (map of_char cs :: bytes) \<Longrightarrow> ascii_str_len (ascii_z cs) 0 = Some (length cs)"
  using ascii_str_len_from [of 0 "ascii_z cs"] by (simp add: cstring_ascii)

lemma http_get_calls [calls]:
  assumes "sane s" "net_safe E" "length h \<le> 540" "unat m \<le> length b"
    and ok: "\<And>st b k s. sane s \<Longrightarrow> \<not> EFI_ERROR st \<Longrightarrow> unat k \<le> length b \<Longrightarrow> returns Q (f st (Some b) k s)"
    and err: "\<And>st b k s. sane s \<Longrightarrow> EFI_ERROR st \<Longrightarrow> returns Q (f st b k s)"
  shows "returns Q (http_get E (ascii_z h) (ascii_z p) (Some b) m k0 s \<bind> (\<lambda>(st, b, k, s). f st b k s))"
proof -
  obtain st b' k s' where "http_get E (ascii_z h) (ascii_z p) (Some b) m k0 s = Some (st, b', k, s')" "sane s'"
    "EFI_ERROR st \<or> (\<exists>b. b' = Some b \<and> unat k \<le> length b)"
    using http_get_total [of s E "ascii_z h" "ascii_z p" m b k0] assms(1-4) order_trans [OF length_cstring_ascii assms(3)]
    by auto
  then show ?thesis using ok err by (cases "EFI_ERROR st") auto
qed

lemma send_calls [calls]:
  "sane s \<Longrightarrow> length cs \<le> 1458 \<Longrightarrow> (\<And>s. sane s \<Longrightarrow> returns Q (f EFI_SUCCESS s)) \<Longrightarrow>
   returns Q (udp_send E ip port (Some (ascii_z cs)) (of_nat (length cs)) s \<bind> case_prod f)"
  "sane s \<Longrightarrow> length cs \<le> 1446 \<Longrightarrow> (\<And>st s. sane s \<Longrightarrow> returns Q (g st s)) \<Longrightarrow>
   returns Q (tcp_send E (Some (ascii_z cs)) (of_nat (length cs)) s \<bind> case_prod g)"
  subgoal using udp_send_total [of s "map of_char cs" "ascii_z cs" E ip port] by (auto simp: ascii_z_def)
  subgoal using tcp_send_total [of s "Some (ascii_z cs)" "map of_char cs" E] by (auto simp: ascii_z_def payload_arg_def)
  done

lemma dns_lookup_ends:
  "fresh (enter h s) \<Longrightarrow> net_safe E \<Longrightarrow> returns ends (example_dns_lookup E h s)"
  unfolding example_dns_lookup_def Let_def
  by (intro with_network_ends steps calls returns_bind [OF lookup_hosts_returns] ends_success) simp_all

lemma ping_ends:
  "fresh (enter h s) \<Longrightarrow> net_safe E \<Longrightarrow> returns ends (example_ping E h s)"
  unfolding example_ping_def Let_def
  by (intro with_network_ends steps calls returns_bind [OF ping_rounds_returns] ends_success)

lemma zero_array: "local_zero_mem (replicate n 0) 0 n = Some (replicate n 0)"
  by (simp add: mem_simps)

lemma http_get_ends:
  assumes "fresh (enter h s)" "net_safe E"
  shows "returns ends (example_http_get E h s)"
  unfolding example_http_get_def Let_def zero_array bind.bind_lunit
  by (intro with_network_ends steps calls)
    (use assms in \<open>auto intro!: steps calls endsI(1) returns_bind [of sane] returns_Some\<close>)

lemma print_address_fresh:
  assumes "fresh s"
  obtains s' where "print_address E a ip b s = Some s'" "fresh s'"
proof -
  obtain s1 w where s1: "print_ip E ip (print_str E a s) = Some s1" "shows_text E w (print_str E a s) s1"
    using print_ip_shows [of E ip "print_str E a s"] by blast
  have "fresh s1"
  proof (rule fresh_users)
    show "fresh (print_str E a s)" by (intro steps assms)
  qed (use s1 assms in \<open>auto simp: shows_users fresh_def booted_def shows_text_def print_str_def call_def\<close>)
  then show ?thesis using that s1(1) by (simp add: print_address_def Let_def fresh_print_str)
qed

lemma fresh_calls:
  "fresh s \<Longrightarrow> (\<And>s. fresh s \<Longrightarrow> returns Q (f s)) \<Longrightarrow> returns Q (print_address E a ip b s \<bind> f)"
  "fresh s \<Longrightarrow> net_safe E \<Longrightarrow> (\<And>st s. EFI_ERROR st \<Longrightarrow> returns Q (g st s)) \<Longrightarrow>
   (\<And>st s. \<not> EFI_ERROR st \<Longrightarrow> sane s \<Longrightarrow> returns Q (g st s)) \<Longrightarrow>
   returns Q (init_network_static E ip gw nm dns s \<bind> case_prod g)"
  subgoal by (rule print_address_fresh [of s E a ip b]) auto
  subgoal using init_network_static_total [of s E ip gw nm dns] by (cases "\<exists>st s'. init_network_static E ip gw nm dns s = Some (st, s') \<and> EFI_ERROR st") auto
  done

lemma router_mac_length [steps]: "sane s \<Longrightarrow> 6 \<le> length (router_mac s)"
  by (simp add: sane_def ready_def)

lemma print_mac_router [simp]: "router_mac (print_str E w s) = router_mac s"
  by (simp add: print_str_def call_def)

lemma static_ip_ends:
  assumes f: "fresh (enter h s)" and n: "net_safe E"
  shows "returns ends (example_static_ip E h s)"
  unfolding example_static_ip_def Let_def
  by (intro fresh_calls fresh_print_str f n returns_if; (simp add: print_hex_eq)?)
    (use n in \<open>auto intro!: steps calls endsI(1) returns_bind [of sane] returns_Some intro: endsI(2)\<close>)

lemma client_exchange_ends:
  assumes "sane s" "net_safe E"
  shows "returns ends (client_exchange E s)"
proof -
  have l: "ascii_str_len (ascii_z client_request) 0 = Some (length client_request)"
    by (rule message_length) (simp add: client_request_def)
  have k: "length client_request \<le> 1446" by (simp add: client_request_def)
  show ?thesis
    unfolding client_exchange_def Let_def zero_array bind.bind_lunit l
    by (intro calls assms k)
      (use assms in \<open>auto intro!: steps calls endsI(1) returns_bind [of sane] returns_Some intro: endsI(2)\<close>)
qed

lemma tcp_client_ends:
  assumes "fresh (enter h s)" "net_safe E"
  shows "returns ends (example_tcp_client E h s)"
  unfolding example_tcp_client_def Let_def
  by (intro with_network_ends steps calls)
    (use assms in \<open>auto intro!: steps calls client_exchange_ends returns_Some intro: endsI(2)\<close>)

lemma port_sane [steps]: "sane s \<Longrightarrow> sane (snd (get_ephemeral_port s)\<lparr>udp_local_port := p\<rparr>)"
  by (rule sane_users [of _ s]) (simp_all add: sane_def)

lemma udp_echo_ends:
  assumes "fresh (enter h s)" "net_safe E"
  shows "returns ends (example_udp_echo E h s)"
proof -
  have l: "ascii_str_len (ascii_z ''Hello from UEFI!'') 0 = Some (length ''Hello from UEFI!'')"
    by (rule message_length) simp
  have k: "length ''Hello from UEFI!'' \<le> 1458" by simp
  show ?thesis
    unfolding example_udp_echo_def Let_def zero_array l bind.bind_lunit case_prod_beta [of _ "get_ephemeral_port _"]
    by (intro with_network_ends steps calls k)
      (use assms in \<open>auto intro!: steps calls endsI(1) returns_bind [of sane] returns_Some\<close>)
qed

end
