(* ===== verification/Net_Delivery.thy ===== *)
theory Net_Delivery
  imports Net_Http
begin

text \<open>
  What a received frame does: \<open>poll\<close> in terms of the frame the interface hands over, and the waits of
  \<^verbatim>\<open>api.hpp\<close> in terms of the reception that brings the awaited frame.  A wait that has not run out
  makes every one of its receptions, so an answer that comes in time is acted on.
\<close>

subsection \<open>One reception\<close>

text \<open>The state in which a received frame is dispatched: it overwrites the front of the page.\<close>

definition received :: "bytes \<Rightarrow> state \<Rightarrow> state" where
  "received f s = (call (Receive 4096) s)\<lparr>rx_pkt := f @ drop (length f) (rx_pkt s)\<rparr>"

lemma received_fields [simp]:
  "ready s \<Longrightarrow> length f \<le> 4096 \<Longrightarrow> ready (received f s)"
  "config_of (received f s) = config_of s" "tcp_view (received f s) = tcp_view s"
  "flags_kept s (received f s)" "polls (received f s) = Suc (polls s)" "sent (received f s) = sent s"
  by (auto simp: received_def ready_def call_def config_of_def tcp_view_def flags_kept_def udp_len_ok_def polls_def sent_def)

lemma receive_eq:
  assumes "ready s" "fw_receive E (Receive 4096 # trace s) = (st, f)" "length f \<le> 4096"
  shows "snp_receive E 4096 s = Some (st, received f s)"
  using assms by (simp add: snp_receive_def snp_call_def received_def ready_def call_def)

text \<open>
  A frame is dispatched; an empty interface leaves the state alone; any other status resets the
  interface.
\<close>

lemma poll_eq:
  assumes r: "ready s" and f: "fw_receive E (Receive 4096 # trace s) = (st, f)" "length f \<le> 4096"
  shows "poll E s =
    (if \<not> EFI_ERROR st then dispatch E (received f s)
     else if st = EFI_NOT_READY then Some (received f s)
     else Some (call (Stall STALL_10MS) (call (ReceiveFilters rx_filters) (call SnpReset (received f s)))))"
  using receive_eq [OF assms] recover_eq [of "received f s"] r f(2) by (simp add: poll_def PKT_BUF_SIZE_def)

text \<open>The header fields of a received IPv4 frame without options.\<close>

lemma received_ipv4:
  assumes e: "valid_eth e" "eth_type e = htons 0x0800" and h: "ihl_version h = 0x45" and f: "f = ipv4_frame e h d"
  shows "rx_type (received f s) = 0x0800" "rx_ip (received f s) = h\<lparr>ip_check := checksum (enc_ip h) 20\<rparr>"
    "rx_hlen (received f s) = 20" "drop 34 (rx_pkt (received f s)) = d @ drop (length f) (rx_pkt s)"
proof -
  let ?h = "h\<lparr>ip_check := checksum (enc_ip h) 20\<rparr>"
  have l: "length (enc_eth e) = 14" "length (enc_ip ?h) = 20" using eth.length_enc [OF e(1)] ip.length_enc by simp_all
  have rx: "rx_pkt (received f s) = enc_eth e @ enc_ip ?h @ d @ drop (length f) (rx_pkt s)"
    by (simp add: received_def f ipv4_frame_def)
  show "rx_type (received f s) = 0x0800" 
    using eth.dec_enc_Nil [OF e(1)] by (simp add: rx_type_def rx l e(2) ntohs_def htons_htons)
  show i: "rx_ip (received f s) = ?h"
    using ip.dec_enc_Nil [of ?h] by (simp add: rx_ip_def rx l)
  show "rx_hlen (received f s) = 20" by (simp add: rx_hlen_def i ip_hdr_len_def h)
  show "drop 34 (rx_pkt (received f s)) = d @ drop (length f) (rx_pkt s)" by (simp add: rx l)
qed

subsection \<open>One reception of a wait\<close>

text \<open>A wait that polls past \<open>n\<close> receptions goes through a round after \<open>n\<close> receptions.\<close>

lemma wait_loop_passes:
  "wait_loop E us finished give_up max_loops loops s = Some s' \<Longrightarrow> loops \<le> max_loops \<Longrightarrow> ready s \<Longrightarrow>
   polls s \<le> n \<Longrightarrow> n < polls s' \<Longrightarrow>
   \<exists>s1 s2. ready s1 \<and> polls s1 = n \<and> config_of s1 = config_of s \<and> flags_kept s s1 \<and> \<not> finished s1 \<and>
     round_of E us s1 = Some s2 \<and> flags_kept s2 s'"
proof (induction loops s rule: counter_induct [where max_loops = max_loops])
  case (step loops s)
  from step.prems(1) show ?case
  proof (cases rule: wait_loop_SomeE)
    case stop
    then show ?thesis using step.prems(4,5) by simp
  next
    case (again s1)
    note c = stops_counter [OF again(1)]
    note r = round_effect [OF step.prems(3) again(2)]
    have fk: "flags_kept s1 s'" using wait_loop_waited [OF _ again(3) c(4)] r by (simp add: waited_def)
    show ?thesis
    proof (cases "polls s = n")
      case True
      have "flags_kept s s" by (simp add: flags_kept_def)
      then show ?thesis using True step.prems(3) again(1,2) fk by (auto simp: stops_def)
    next
      case False
      then have "polls s1 \<le> n" using r step.prems(4) by simp
      from step.IH [OF c(1) again(3) c(4) _ this step.prems(5)] r obtain s2 s3 where
        "ready s2" "polls s2 = n" "config_of s2 = config_of s1" "flags_kept s1 s2" "\<not> finished s2"
        "round_of E us s2 = Some s3" "flags_kept s3 s'" by blast
      moreover have "flags_kept s s2" using r \<open>flags_kept s1 s2\<close> by (auto simp: flags_kept_def)
      ultimately show ?thesis using r by metis
    qed
  qed
qed

text \<open>
  If whatever frame comes at that reception fulfils the awaited condition, and the condition is
  kept, the wait ends with it, by that reception at the latest.
\<close>

lemma wait_loop_answered:
  assumes w: "wait_loop E us finished never max_loops 0 s = Some s'" and r: "ready s"
    and k: "k < unat max_loops"
    and hit: "\<And>s1 s2. ready s1 \<Longrightarrow> polls s1 = polls s + k \<Longrightarrow> config_of s1 = config_of s \<Longrightarrow> flags_kept s s1 \<Longrightarrow>
      \<not> finished s1 \<Longrightarrow> round_of E us s1 = Some s2 \<Longrightarrow> finished s2"
    and kept: "\<And>s1 s2. flags_kept s1 s2 \<Longrightarrow> finished s1 \<Longrightarrow> finished s2"
  shows "finished s'"
proof (rule ccontr)
  assume nf: "\<not> finished s'"
  have "waited finished never (unat max_loops - unat (0 :: u32)) s s'"
    using wait_loop_waited [OF r w] by simp
  then have "polls s' = polls s + unat max_loops" using nf by (simp add: waited_def)
  then have "polls s + k < polls s'" using k by simp
  from wait_loop_passes [OF w _ r _ this] obtain s1 s2 where "ready s1" "polls s1 = polls s + k"
    "config_of s1 = config_of s" "flags_kept s s1" "\<not> finished s1" "round_of E us s1 = Some s2" "flags_kept s2 s'"
    by auto
  then show False using hit kept nf by blast
qed

subsection \<open>A ping that is answered\<close>

text \<open>The reply a peer running the same code makes to this stack's echo request.\<close>

definition echo_answer :: "state \<Rightarrow> u16 \<Rightarrow> state \<Rightarrow> u32 \<Rightarrow> bytes" where
  "echo_answer peer i s target_ip = icmp_reply_frame peer i (my_ip s) (drop 34 (echo_request s target_ip))"

lemma echo_request_segment:
  assumes "ready s"
  shows "\<exists>c. drop 34 (echo_request s ip) = [8, 0] @ enc16 c @ enc16 (htons (ping_id (ping_prepare s))) @
    enc16 (htons (ping_seq (ping_prepare s))) @ echo_payload"
proof -
  have "valid_eth (router_eth_hdr (ping_prepare s))" using assms by (simp add: valid_router_eth)
  then show ?thesis
    using ipv4_frame_parts(3) [of "router_eth_hdr (ping_prepare s)"]
    by (auto simp: echo_request_def Let_def echo_frame_def icmp_segment_def)
qed

lemma echo_answer_frame:
  assumes "ready s"
  shows "\<exists>c. echo_answer peer i s ip = ipv4_frame (router_eth_hdr peer) (out_ip_hdr 1 (my_ip peer) (my_ip s) i 40)
    (enc_icmp \<lparr>icmp_type = 0, icmp_code = 0, icmp_checksum = c, icmp_id = htons (ping_id (ping_prepare s)),
       icmp_seq = htons (ping_seq (ping_prepare s))\<rparr> @ echo_payload)"
proof -
  obtain c where c: "drop 34 (echo_request s ip) = [8, 0] @ enc16 c @ enc16 (htons (ping_id (ping_prepare s))) @
    enc16 (htons (ping_seq (ping_prepare s))) @ echo_payload"
    using echo_request_segment [OF assms] by blast
  show ?thesis
    unfolding echo_answer_def c icmp_reply_frame_def
    by (rule exI [of _ "checksum ([0, 0] @ enc16 0 @ enc16 (htons (ping_id (ping_prepare s))) @
      enc16 (htons (ping_seq (ping_prepare s))) @ echo_payload) 40"]) (simp add: icmp_segment_def enc_icmp_segment)
qed

lemma echo_answer_received:
  assumes r: "ready s1" and s: "ready s" and p: "ready peer"
    and i: "ping_id s1 = ping_id (ping_prepare s)" "ping_seq s1 = ping_seq (ping_prepare s)"
  shows "\<exists>s2. dispatch E (received (echo_answer peer i s ip) s1) = Some s2 \<and> ping_reply_received s2"
proof -
  let ?f = "echo_answer peer i s ip" and ?s1 = "received (echo_answer peer i s ip) s1"
  obtain c where f: "?f = ipv4_frame (router_eth_hdr peer) (out_ip_hdr 1 (my_ip peer) (my_ip s) i 40)
    (enc_icmp \<lparr>icmp_type = 0, icmp_code = 0, icmp_checksum = c, icmp_id = htons (ping_id (ping_prepare s)),
       icmp_seq = htons (ping_seq (ping_prepare s))\<rparr> @ echo_payload)" (is "_ = ipv4_frame ?e ?h (enc_icmp ?i @ _)")
    using echo_answer_frame [OF s] by blast
  have e: "valid_eth ?e" "eth_type ?e = htons 0x0800" "ihl_version ?h = 0x45"
    using p by (simp_all add: valid_router_eth out_ip_hdr_def)
  note rcv = received_ipv4 [OF e f, of s1]
  have "length ?f \<le> 4096" by (simp add: f length_ipv4_frame e icmp.length_enc)
  then have r1: "ready ?s1" using r by simp
  have d: "dec_icmp (take 8 (drop 34 (rx_pkt ?s1))) = ?i"
    using icmp.dec_enc_Nil [of ?i] icmp.length_enc [of ?i] by (simp add: rcv(4))
  have "ping_id ?s1 = ping_id s1" "ping_seq ?s1 = ping_seq s1" by (simp_all add: received_def call_def)
  then show ?thesis
    using handle_icmp_reply [OF r1, of 34 ?i E] d i
    by (simp add: dispatch_eq [OF r1] dispatch_ipv4_eq [OF r1] rcv Let_def out_ip_hdr_def ntohs_def htons_htons)
qed

lemma echo_answer_length:
  assumes "ready s" "ready peer" shows "length (echo_answer peer i s ip) = 74"
  using echo_answer_frame [OF assms(1), of peer i ip] assms(2)
  by (auto simp: length_ipv4_frame valid_router_eth icmp.length_enc)

lemma ping_answered:
  assumes s: "sane s" and n: "net_safe E" and p: "ready peer" and k: "k < unat (ms * 10)"
    and a: "\<And>tr. receptions tr = polls s + k + 1 \<Longrightarrow> fw_receive E tr = (EFI_SUCCESS, echo_answer peer i s ip)"
  shows "\<exists>s'. ping E ip ms s = Some (EFI_SUCCESS, s')"
proof -
  have r: "ready s" using s by (simp add: sane_def)
  obtain st s' where t: "ping E ip ms s = Some (st, s')" using ping_total [OF s n] by blast
  then obtain s0 where s0: "send_frame E (echo_request s ip) (snd (get_u32 (ping_prepare s))) = Some s0"
    "reply_wait E ms s0 = Some s'" "st = (if ping_reply_received s' then EFI_SUCCESS else EFI_TIMEOUT)"
    unfolding ping_eq [OF r] by (auto elim!: bind_Some_E)
  have snt: "sends (snd (get_u32 (ping_prepare s))) (echo_request s ip) s0 \<and> ready s0"
    by (rule send_frame_Some [OF s0(1)]) (use r in \<open>simp_all add: echo_request_def Let_def length_echo_frame\<close>)
  then have p0: "polls s0 = polls s" "ping_id s0 = ping_id (ping_prepare s)" "ping_seq s0 = ping_seq (ping_prepare s)"
    using sends_handled [of "snd (get_u32 (ping_prepare s))"]
    by (auto simp: handled_def get_u32_def Let_def config_of_def polls_def [of "_\<lparr>rng_seed := _\<rparr>"] simp flip: polls_def)
  have "ping_reply_received s'"
  proof (rule wait_loop_answered [OF s0(2) [unfolded reply_wait_def] _ k])
    fix s1 s2 assume s1: "ready s1" "polls s1 = polls s0 + k" "config_of s1 = config_of s0" "round_of E STALL_100US s1 = Some s2"
    have "fw_receive E (Receive 4096 # trace s1) = (EFI_SUCCESS, echo_answer peer i s ip)"
      by (rule a) (use s1(2) p0 in \<open>simp add: polls_def\<close>)
    moreover have "ping_id s1 = ping_id (ping_prepare s)" "ping_seq s1 = ping_seq (ping_prepare s)"
      using s1(3) p0 by (simp_all add: config_of_def)
    ultimately show "ping_reply_received s2"
      using s1(1,4) poll_eq [OF s1(1), of E EFI_SUCCESS] echo_answer_length [OF r p] echo_answer_received [OF s1(1) r p, where i = i and ip = ip and E = E]
      by (auto simp: round_of_def stall_def call_def split: if_splits)
  qed (use snt in \<open>auto simp: flags_kept_def\<close>)
  then show ?thesis using t s0(3) by simp
qed

subsection \<open>Segments between two stacks\<close>

text \<open>A segment that \<open>send_tcp_internal\<close> put on the wire is the segment \<open>handle_tcp\<close> reads.\<close>

definition wire_segment :: "u8 \<Rightarrow> u32 \<Rightarrow> u32 \<Rightarrow> bytes \<Rightarrow> segment" where
  "wire_segment flags seq ack d = \<lparr>g_flags = ucast flags AND 0x3F, g_seq = seq, g_ack = ack, g_data = d\<rparr>"

lemma flag_word: "(0x5000 OR ucast (flags :: u8) :: u16) AND 0x3F = ucast flags AND 0x3F"
  by (simp add: bit.conj_disj_distrib2)

lemma tcp_frame_received:
  fixes i :: u16 and flags :: u8 and seq ack :: u32
  assumes r: "ready s" and p: "ready peer" and d: "length d \<le> 1446"
  defines "s1 \<equiv> received (tcp_frame peer i flags seq ack d) s"
  shows "ready s1" "rx_type s1 = 0x0800" "ip_protocol (rx_ip s1) = 6" "rx_hlen s1 = 20"
    "seg_ok (rx_ip s1) (rx_pkt s1) 34" "seg_of (rx_ip s1) (rx_pkt s1) 34 = wire_segment flags seq ack d"
    "ntohs (tcp_dest (dec_tcp (take 20 (drop 34 (rx_pkt s1))))) = tcp_remote_port peer"
proof -
  let ?e = "router_eth_hdr peer" and ?h = "out_ip_hdr 6 (my_ip peer) (tcp_remote_ip peer) i (20 + length d)"
  let ?f = "tcp_frame peer i flags seq ack d"
  define c where "c = pseudo_checksum (my_ip peer) (tcp_remote_ip peer) 6
    (enc_tcp (tcp_hdr_of (tcp_local_port peer) (tcp_remote_port peer) seq ack flags 0) @ d) (of_nat (20 + length d))"
  define t where "t = tcp_hdr_of (tcp_local_port peer) (tcp_remote_port peer) seq ack flags c"
  have f: "?f = ipv4_frame ?e ?h (enc_tcp t @ d)"
    by (simp add: tcp_frame_def tcp_segment_def Let_def t_def c_def)
  have e: "valid_eth ?e" "eth_type ?e = htons 0x0800" "ihl_version ?h = 0x45"
    using p by (simp_all add: valid_router_eth out_ip_hdr_def)
  note rcv = received_ipv4 [OF e f, of s, folded s1_def]
  have l: "length ?f = 54 + length d" by (rule length_tcp_frame [OF p])
  show r1: "ready s1" using r d l by (simp add: s1_def)
  show "rx_type s1 = 0x0800" "rx_hlen s1 = 20" by (rule rcv)+
  show "ip_protocol (rx_ip s1) = 6" by (simp add: rcv(2) out_ip_hdr_def)
  have lt: "length (enc_tcp t) = 20" by (rule tcp.length_enc) simp
  have t1: "dec_tcp (take 20 (drop 34 (rx_pkt s1))) = t"
    using tcp.dec_enc_Nil [of t] by (simp add: rcv(4) lt)
  have d1: "take (length d) (drop 54 (rx_pkt s1)) = d"
    using arg_cong [OF rcv(4), of "drop 20"] by (simp add: lt)
  have hl: "tcp_hdr_len (rx_pkt s1) 34 = 20"
    by (simp add: tcp_hdr_len_def t1 t_def tcp_hdr_of_def ntohs_def htons_htons flag_word)
  have tot: "unat (ntohs (ip_tot_len (rx_ip s1))) = 40 + length d"
    using unat_of_nat_16 [of "40 + length d"] d by (simp add: rcv(2) out_ip_hdr_def ntohs_def htons_htons)
  have il: "ip_hdr_len (rx_ip s1) = 20" by (simp add: ip_hdr_len_def rcv(2) out_ip_hdr_def)
  have dl: "tcp_data_len (rx_ip s1) (rx_pkt s1) 34 = length d" by (simp add: tcp_data_len_def tot il hl)
  show "seg_ok (rx_ip s1) (rx_pkt s1) 34"
    using ready_fields(3) [OF r1] d by (simp add: seg_ok_def hl il tot dl)
  show "seg_of (rx_ip s1) (rx_pkt s1) 34 = wire_segment flags seq ack d"
    by (simp add: seg_of_def t1 dl hl d1 wire_segment_def)
      (simp add: t_def tcp_hdr_of_def ntohs_def ntohl_def htons_htons htonl_htonl flag_word)
  show "ntohs (tcp_dest (dec_tcp (take 20 (drop 34 (rx_pkt s1))))) = tcp_remote_port peer"
    by (simp add: t1 t_def tcp_hdr_of_def ntohs_def htons_htons)
qed

text \<open>Delivered to the port it is for, it makes the step of the abstract client.\<close>

lemma tcp_frame_dispatched:
  assumes r: "ready s" and p: "ready peer" and d: "length d \<le> 1446" and c: "tcp_rel s c"
    and port: "tcp_local_port s = tcp_remote_port peer" "tcp_local_port s \<noteq> 0"
  shows "\<exists>s' c' out. dispatch E (received (tcp_frame peer i flags seq ack d) s) = Some s' \<and> ready s' \<and>
    tcp_step c (Segment (wire_segment flags seq ack d)) out c' \<and> tcp_rel s' c' \<and>
    emits (received (tcp_frame peer i flags seq ack d) s) out s'"
proof -
  let ?s1 = "received (tcp_frame peer i flags seq ack d) s"
  note rcv = tcp_frame_received [OF r p d, of i flags seq ack]
  have l: "length (tcp_frame peer i flags seq ack d) \<le> 4096" using d by (simp add: length_tcp_frame [OF p])
  have c1: "tcp_rel ?s1 c" using c tcp_rel_view [of ?s1 s c] by simp
  have "tcp_local_port ?s1 = tcp_local_port s" by (simp add: received_def call_def)
  then have "tcp_local ?s1 34" using rcv(7) port by (simp add: tcp_local_def)
  from handle_tcp_refines [OF rcv(1) c1 rcv(5) this, of E] show ?thesis
    by (simp add: dispatch_eq [OF rcv(1)] dispatch_ipv4_eq [OF rcv(1)] rcv(2-4,6) Let_def)
qed

subsection \<open>A connection that is answered\<close>

lemma syn_prepare_effect:
  "polls (syn_prepare ip port s) = polls s" "sent (syn_prepare ip port s) = sent s"
  by (simp_all add: syn_prepare_def get_ephemeral_port_def get_u32_def Let_def polls_def sent_def)

lemma round_received:
  assumes r: "ready s" and f: "fw_receive E (Receive 4096 # trace s) = (EFI_SUCCESS, f)" "length f \<le> 4096"
    and d: "dispatch E (received f s) = Some s1" "ready s1"
  shows "round_of E us s = Some (call (Stall us) s1)"
  using poll_eq [OF r f] d stall_ready [of s1 us] by (simp add: round_of_def)

text \<open>
  The handshake: when the peer's SYN+ACK is the first frame received, \<open>tcp_connect\<close> succeeds after
  one poll, and the SYN and its acknowledgement are all that was sent.
\<close>

lemma tcp_connect_answered:
  assumes s: "ready s" "tcp_rel s c" and p: "ready peer" "tcp_remote_port peer = tcp_local_port (syn_prepare ip port s)"
    and a: "\<And>tr. receptions tr = polls s + 1 \<Longrightarrow> fw_receive E tr = (EFI_SUCCESS, tcp_frame peer i 0x12 seq ack [])"
  shows "\<exists>s' c' j1 j2. tcp_connect E ip port s = Some (EFI_SUCCESS, s') \<and> ready s' \<and> tcp_rel s' c' \<and>
    c_phase c' = Established \<and> c_seq c' = ack \<and> c_ack c' = seq + 1 \<and> polls s' = polls s + 1 \<and>
    tcp_local_port s' = tcp_remote_port peer \<and>
    sent s' = tcp_frame s' j2 0x10 ack (seq + 1) [] #
      tcp_frame s' j1 0x02 (tcp_seq (syn_prepare ip port s)) 0 [] # sent s"
proof -
  let ?s0 = "syn_prepare ip port s" and ?f = "tcp_frame peer i 0x12 seq ack []"
  let ?c0 = "c\<lparr>c_phase := Syn_Sent, c_seq := tcp_seq ?s0, c_ack := 0\<rparr>"
  have r0: "ready ?s0" using s by (simp add: syn_prepare_fields)
  have c0: "tcp_rel ?s0 ?c0" by (rule syn_prepare_rel [OF s(2)])
  obtain s1 j1 r tx tr where s1: "send_tcp_internal E 0x02 (tcp_seq ?s0) (tcp_ack ?s0) None 0 ?s0 = Some s1"
    "s1 = ?s0\<lparr>rng_seed := r, tx_pkt := tx, trace := tr\<rparr>" "ready s1"
    "sent s1 = tcp_frame ?s0 j1 0x02 (tcp_seq ?s0) (tcp_ack ?s0) [] # sent ?s0"
    by (rule send_tcp_empty [OF r0])
  have p1: "polls s1 = polls s"
    using send_tcp_handled [OF r0 s1(1)] by (simp add: handled_def syn_prepare_effect)
  have v1: "tcp_view s1 = tcp_view ?s0" "endpoint s1 = endpoint ?s0" by (simp_all add: s1(2) tcp_view_def endpoint_def)
  have c1: "tcp_rel s1 ?c0" using c0 tcp_rel_view [OF v1(1), of ?c0] by simp
  have port: "tcp_local_port s1 = tcp_remote_port peer" "tcp_local_port s1 \<noteq> 0"
    using p(2) syn_prepare_fields(4) [of ip port s] by (auto simp: s1(2))
  obtain s2 c2 out where d: "dispatch E (received ?f s1) = Some s2" and s2: "ready s2"
    "tcp_step ?c0 (Segment (wire_segment 0x12 seq ack [])) out c2" "tcp_rel s2 c2" "emits (received ?f s1) out s2"
    using tcp_frame_dispatched [OF s1(3) p(1) _ c1 port, where d = "[]" and E = E and i = i and flags = "0x12" and
        seq = seq and ack = ack] by auto
  have c2: "c2 = ?c0\<lparr>c_phase := Established, c_seq := ack, c_ack := seq + 1\<rparr>" "out = [(0x10, ack, seq + 1, [])]"
    using s2(2) by (auto elim!: tcp_step.cases simp: wire_segment_def is_rst_def is_syn_ack_def)
  have f: "fw_receive E (Receive 4096 # trace s1) = (EFI_SUCCESS, ?f)" by (rule a) (use p1 in \<open>simp add: polls_def\<close>)
  have l: "length ?f \<le> 4096" by (simp add: length_tcp_frame [OF p(1)])
  note rd = round_received [OF s1(3) f l d s2(1), of STALL_1MS]
  let ?s' = "call (Stall STALL_1MS) s2"
  have st2: "tcp_state ?s' = 2" using s2(3) by (simp add: c2 tcp_rel_def call_def)
  have "\<not> stops (\<lambda>s. tcp_state s = 2) (\<lambda>s. tcp_state s = 0) 500000 0 ?s0"
    by (simp add: stops_def syn_prepare_fields)
  then have loop: "syn_loop E ?s0 = Some ?s'"
    unfolding syn_loop_def using retry_loop_stop [of "\<lambda>s. tcp_state s = 2" "\<lambda>s. tcp_state s = 0" 500000 1 ?s'] st2
    by (simp add: retry_loop_round may_send_def s1(1) rd stops_def)
  have ep: "tcp_frame s2 = tcp_frame ?s0" "tcp_frame ?s' = tcp_frame ?s0" "tcp_frame (received ?f s1) = tcp_frame ?s0"
    by (rule tcp_frame_endpoint; use s2(4) v1(2) in \<open>simp add: emits_def endpoint_def received_def call_def\<close>)+
  obtain j2 where "sent s2 = tcp_frame ?s0 j2 0x10 ack (seq + 1) [] # sent s1"
    using s2(4) by (auto simp: emits_def c2 ep list_all2_Cons2)
  then have "sent ?s' = tcp_frame ?s' j2 0x10 ack (seq + 1) [] # tcp_frame ?s' j1 0x02 (tcp_seq ?s0) 0 [] # sent s"
    using s1(4) by (simp add: ep syn_prepare_effect syn_prepare_fields)
  moreover have "polls ?s' = polls s + 1"
    using poll_effect [OF s1(3), of E s2] poll_eq [OF s1(3) f l] d p1 by simp
  moreover have "ready ?s'" "tcp_rel ?s' c2"
    using s2(1,3) tcp_rel_view [of ?s' s2 c2] by (simp_all add: call_views)
  moreover have "tcp_local_port ?s' = tcp_remote_port peer"
    using s2(4) port(1) by (simp add: emits_def endpoint_def received_def call_def)
  ultimately show ?thesis using c2(1) st2 by (auto simp: tcp_connect_eq loop)
qed

subsection \<open>Data that arrives\<close>

text \<open>The client after the segment that ends a receive: the posted buffer filled, then withdrawn.\<close>

definition after_data :: "conn \<Rightarrow> u8 \<Rightarrow> u32 \<Rightarrow> u32 \<Rightarrow> bytes \<Rightarrow> conn" where
  "after_data c flags seq ack d =
     (if flags AND 0x01 \<noteq> 0
      then c\<lparr>c_inbox := None, c_signal := True, c_phase := Closed_Done, c_seq := ack, c_ack := seq + of_nat (length d) + 1\<rparr>
      else c\<lparr>c_inbox := None, c_signal := True, c_seq := ack, c_ack := seq + of_nat (length d)\<rparr>)"

lemma wire_segment_simps [simp]:
  "g_seq (wire_segment flags seq ack d) = seq" "g_ack (wire_segment flags seq ack d) = ack"
  "g_data (wire_segment flags seq ack d) = d"
  by (simp_all add: wire_segment_def)

lemma flag_bits:
  "is_rst (wire_segment flags seq ack d) \<longleftrightarrow> flags AND 0x04 \<noteq> 0"
  "is_fin (wire_segment flags seq ack d) \<longleftrightarrow> flags AND 0x01 \<noteq> 0"
proof -
  have z: "(ucast w :: u16) = 0 \<longleftrightarrow> w = 0" for w :: u8
    by (simp add: word_unat_eq_iff unsigned_ucast_eq take_bit_nat_eq_self_iff less_trans [OF unsigned_less])
  have "(ucast (flags AND m) :: u16) = ucast flags AND ucast m" for m :: u8 by (simp add: unsigned_and_eq)
  then show "is_rst (wire_segment flags seq ack d) \<longleftrightarrow> flags AND 0x04 \<noteq> 0"
    "is_fin (wire_segment flags seq ack d) \<longleftrightarrow> flags AND 0x01 \<noteq> 0"
    using z [of "flags AND 4"] z [of "flags AND 1"] by (simp_all add: is_rst_def is_fin_def wire_segment_def and.assoc)
qed

lemma data_step:
  assumes "tcp_step c (Segment (wire_segment flags seq ack d)) out c'" "c_phase c = Established"
    "flags AND 0x04 = 0" "d \<noteq> []" "c_inbox c = Some []" "0 < c_cap c"
  shows "c_inbox c' = Some (take (c_cap c) d) \<and> c'\<lparr>c_inbox := None\<rparr> = after_data c flags seq ack d \<and> c_signal c'"
  using assms(1)
  by (cases rule: tcp_step.cases)
    (use assms(2-) in \<open>auto simp: flag_bits transfer_def deliver_def after_data_def\<close>)

text \<open>A wait that is over after its first round.\<close>

lemma wait_loop_once:
  assumes "\<not> finished s" "\<not> give_up s" "max_loops \<noteq> 0" "round_of E us s = Some s1" "finished s1"
  shows "wait_loop E us finished give_up max_loops 0 s = Some s1"
proof -
  have "\<not> stops finished give_up max_loops 0 s" using assms(1-3) by (simp add: stops_def)
  moreover have "stops finished give_up max_loops (0 + 1) s1" using assms(5) by (simp add: stops_def)
  ultimately show ?thesis using assms(4) by (simp add: wait_loop_round wait_loop_stop)
qed

lemma tcp_receive_answered:
  assumes s: "ready s" "tcp_rel s c" "c_phase c = Established"
    and p: "ready peer" "tcp_remote_port peer = tcp_local_port s" "tcp_local_port s \<noteq> 0"
    and d: "length d \<le> 1446" "d \<noteq> []" and fl: "flags AND 0x04 = 0"
    and b: "0 < max_len" "unat max_len \<le> length buf" "ms * 10 \<noteq> 0"
    and a: "\<And>tr. receptions tr = polls s + 1 \<Longrightarrow> fw_receive E tr = (EFI_SUCCESS, tcp_frame peer i flags seq ack d)"
  shows "\<exists>buf' n s'. tcp_receive E (Some buf) max_len ms s = Some (EFI_SUCCESS, Some buf', n, s') \<and>
    take (unat n) buf' = take (unat max_len) d \<and> unat n = min (length d) (unat max_len) \<and> length buf' = length buf \<and>
    ready s' \<and> tcp_rel s' (after_data (c\<lparr>c_cap := unat max_len\<rparr>) flags seq ack d) \<and> polls s' = polls s + 1"
proof -
  let ?f = "tcp_frame peer i flags seq ack d"
  define s0 where "s0 = s\<lparr>tcp_rx_buffer := Some buf, tcp_rx_max_len := max_len, tcp_rx_current_len := 0, tcp_rx_done := False\<rparr>"
  define c0 where "c0 = c\<lparr>c_inbox := Some [], c_cap := unat max_len, c_signal := False\<rparr>"
  have r0: "ready s0" using s by (simp add: s0_def)
  have c0: "tcp_rel s0 c0" using post_rel [OF s(2) b(2)] by (simp add: s0_def c0_def)
  have p0: "polls s0 = polls s" by (simp add: s0_def polls_def)
  have l: "length ?f \<le> 4096" using d(1) by (simp add: length_tcp_frame [OF p(1)])
  obtain s2 c2 out where dp: "dispatch E (received ?f s0) = Some s2" and s2: "ready s2"
    "tcp_step c0 (Segment (wire_segment flags seq ack d)) out c2" "tcp_rel s2 c2"
    using tcp_frame_dispatched [OF r0 p(1) d(1) c0, where E = E and i = i and flags = flags and seq = seq and ack = ack]
      p(2,3) by (auto simp: s0_def)
  have "after_data c0 flags seq ack d = after_data (c\<lparr>c_cap := unat max_len\<rparr>) flags seq ack d"
    by (simp add: after_data_def c0_def)
  then have c2: "c_inbox c2 = Some (take (unat max_len) d)" "c_signal c2"
    "c2\<lparr>c_inbox := None\<rparr> = after_data (c\<lparr>c_cap := unat max_len\<rparr>) flags seq ack d"
    using data_step [OF s2(2) _ fl d(2)] s(3) b(1) by (simp_all add: c0_def word_less_nat_alt)
  have f: "fw_receive E (Receive 4096 # trace s0) = (EFI_SUCCESS, ?f)" by (rule a) (use p0 in \<open>simp add: polls_def\<close>)
  let ?s3 = "call (Stall STALL_100US) s2"
  have rd: "round_of E STALL_100US s0 = Some ?s3" by (rule round_received [OF r0 f l dp s2(1)])
  have p3: "polls s2 = polls s + 1" "config_of s2 = config_of s0"
    using poll_effect [OF r0, of E s2] poll_eq [OF r0 f l] dp p0 by simp_all
  have "tcp_rx_done ?s3" using s2(3) c2(2) by (simp add: tcp_rel_def call_def)
  then have w: "wait_loop E STALL_100US tcp_rx_done
      (\<lambda>s. tcp_state s = TCP_STATE_CLOSED \<or> tcp_state s = TCP_STATE_CLOSED_DONE) (ms * 0x0A) 0 s0 = Some ?s3"
    using rd c0 s(3) b(3)
    by (intro wait_loop_once) (auto simp: s0_def c0_def tcp_rel_def TCP_STATE_CLOSED_def TCP_STATE_CLOSED_DONE_def)
  obtain buf' where bf: "tcp_rx_buffer s2 = Some buf'" "take (unat (tcp_rx_current_len s2)) buf' = take (unat max_len) d"
    "unat (tcp_rx_current_len s2) \<le> length buf'"
    using s2(3) c2(1) by (cases "tcp_rx_buffer s2") (auto simp: tcp_rel_def inbox_rel_def)
  have "unat (tcp_rx_current_len s2) = min (length d) (unat max_len)"
    using bf(3) arg_cong [OF bf(2), of length] by simp
  moreover have "length buf' = length buf" using p3(2) bf(1) by (simp add: config_of_def s0_def)
  moreover have "tcp_rel (?s3\<lparr>tcp_rx_buffer := None\<rparr>) (after_data (c\<lparr>c_cap := unat max_len\<rparr>) flags seq ack d)"
    using withdraw_rel [of ?s3 c2] s2(3) tcp_rel_view [of ?s3 s2 c2] c2(3) by (simp add: call_views)
  ultimately show ?thesis
    using bf(1,2) s2(1) p3(1) \<open>tcp_rx_done ?s3\<close> w [unfolded s0_def]
    by (auto simp: tcp_receive_def call_def polls_def)
qed

text \<open>
  A reset ends the wait as well, whatever its sender and its sequence number: the flag that reports
  data is set, and the call succeeds with nothing received.
\<close>

lemma tcp_receive_reset:
  assumes s: "ready s" "tcp_state s = TCP_STATE_ESTABLISHED"
    and p: "ready peer" "tcp_remote_port peer = tcp_local_port s" "tcp_local_port s \<noteq> 0"
    and d: "length d \<le> 1446" and fl: "flags AND 0x04 \<noteq> 0" and ms: "ms * 10 \<noteq> 0"
    and a: "\<And>tr. receptions tr = polls s + 1 \<Longrightarrow> fw_receive E tr = (EFI_SUCCESS, tcp_frame peer i flags seq ack d)"
  shows "\<exists>s'. tcp_receive E (Some buf) max_len ms s = Some (EFI_SUCCESS, Some buf, 0, s') \<and>
    tcp_state s' = TCP_STATE_CLOSED"
proof -
  let ?f = "tcp_frame peer i flags seq ack d"
  define s0 where "s0 = s\<lparr>tcp_rx_buffer := Some buf, tcp_rx_max_len := max_len, tcp_rx_current_len := 0, tcp_rx_done := False\<rparr>"
  have r0: "ready s0" using s by (simp add: s0_def)
  have l: "length ?f \<le> 4096" using d by (simp add: length_tcp_frame [OF p(1)])
  note rc = tcp_frame_received [OF r0 p(1) d, of i flags seq ack]
  let ?s1 = "received ?f s0"
  have "tcp_local_port ?s1 = tcp_local_port s" by (simp add: received_def call_def s0_def)
  then have local: "tcp_local ?s1 34" using rc(7) p(2,3) by (simp add: tcp_local_def)
  have hd: "handle_tcp E (rx_ip ?s1) 34 dl ?s1 = Some (?s1\<lparr>tcp_state := 0, tcp_rx_done := True\<rparr>)" for dl
    by (rule handle_tcp_seg [OF rc(1,5) local rc(6) [symmetric], of E dl]) (use fl in \<open>simp add: flag_bits\<close>)
  then have dp: "dispatch E ?s1 = Some (?s1\<lparr>tcp_state := 0, tcp_rx_done := True\<rparr>)"
    using rc(2,3,4) by (simp add: dispatch_eq [OF rc(1)] dispatch_ipv4_eq [OF rc(1)] Let_def)
  have "polls s0 = polls s" by (simp add: s0_def polls_def)
  then have f: "fw_receive E (Receive 4096 # trace s0) = (EFI_SUCCESS, ?f)" by (intro a) (simp add: polls_def)
  let ?s3 = "call (Stall STALL_100US) (?s1\<lparr>tcp_state := 0, tcp_rx_done := True\<rparr>)"
  have rd: "round_of E STALL_100US s0 = Some ?s3" using rc(1) by (intro round_received [OF r0 f l dp]) simp
  then have "wait_loop E STALL_100US tcp_rx_done
      (\<lambda>s. tcp_state s = TCP_STATE_CLOSED \<or> tcp_state s = TCP_STATE_CLOSED_DONE) (ms * 0x0A) 0 s0 = Some ?s3"
    using s(2) ms by (intro wait_loop_once) (auto simp: s0_def call_def const_vals)
  then show ?thesis
    by (auto simp: tcp_receive_def call_def s0_def received_def const_vals)
qed

subsection \<open>Datagrams between two stacks\<close>

lemma udp_frame_received:
  fixes i :: u16 and da :: u32 and src dst :: u16
  assumes r: "ready s" and p: "ready peer" and d: "length d \<le> 1458"
  defines "s1 \<equiv> received (udp_frame peer i da src dst d) s"
  shows "ready s1" "rx_type s1 = 0x0800" "ip_protocol (rx_ip s1) = 17" "rx_hlen s1 = 20"
    "\<exists>c. dec_udp (take 8 (drop 34 (rx_pkt s1))) = udp_hdr_of src dst (of_nat (8 + length d)) c"
    "rx_pkt s1 = take 42 (rx_pkt s1) @ d @ drop (42 + length d) (rx_pkt s1)"
proof -
  let ?e = "router_eth_hdr peer" and ?h = "out_ip_hdr 17 (my_ip peer) da i (8 + length d)"
  let ?f = "udp_frame peer i da src dst d"
  define n :: u16 where "n = of_nat (8 + length d)"
  obtain c where f: "?f = ipv4_frame ?e ?h (enc_udp (udp_hdr_of src dst n c) @ d)"
    by (simp add: udp_frame_def udp_segment_def Let_def n_def)
  let ?t = "udp_hdr_of src dst n c"
  have e: "valid_eth ?e" "eth_type ?e = htons 0x0800" "ihl_version ?h = 0x45"
    using p by (simp_all add: valid_router_eth out_ip_hdr_def)
  note rcv = received_ipv4 [OF e f, of s, folded s1_def]
  have l: "length ?f = 42 + length d" by (rule length_udp_frame [OF p])
  show r1: "ready s1" using r d l by (simp add: s1_def)
  show "rx_type s1 = 0x0800" "rx_hlen s1 = 20" by (rule rcv)+
  show "ip_protocol (rx_ip s1) = 17" by (simp add: rcv(2) out_ip_hdr_def)
  have lt: "length (enc_udp ?t) = 8" by (rule udp.length_enc) simp
  show "\<exists>c. dec_udp (take 8 (drop 34 (rx_pkt s1))) = udp_hdr_of src dst (of_nat (8 + length d)) c"
    using udp.dec_enc_Nil [of ?t] unfolding n_def [symmetric] by (auto simp: rcv(4) lt)
  have d42: "drop 42 (rx_pkt s1) = d @ drop (length ?f) (rx_pkt s)"
    using arg_cong [OF rcv(4), of "drop 8"] by (simp add: lt)
  have "drop (42 + length d) (rx_pkt s1) = drop (length ?f) (rx_pkt s)"
    using arg_cong [OF d42, of "drop (length d)"] by (simp add: add.commute)
  then show "rx_pkt s1 = take 42 (rx_pkt s1) @ d @ drop (42 + length d) (rx_pkt s1)"
    using append_take_drop_id [of 42 "rx_pkt s1"] d42 by simp
qed

text \<open>A response of the name server to the port and the identifier of the query.\<close>

lemma dns_answer_dispatched:
  assumes r: "ready s" and p: "ready peer" and l: "length (enc_response (dns_current_id s) flags qs rs ns ar) \<le> 1458"
    and port: "dns_local_port s \<noteq> 0" "udp_local_port s \<noteq> dns_local_port s"
    and f: "flags AND 0x8000 \<noteq> 0" and q: "list_all question_ok qs" "length qs < 65536"
    and rr: "list_all rr_ok rs" "length rs < 65536"
    and s1: "s1 = received (udp_frame peer i da 53 (dns_local_port s) (enc_response (dns_current_id s) flags qs rs ns ar)) s"
  shows "dispatch E s1 = Some (resolve_with rs s1)"
proof -
  let ?d = "enc_response (dns_current_id s) flags qs rs ns ar"
  note rcv = udp_frame_received [OF r p l, of i da 53 "dns_local_port s", folded s1]
  obtain c where u: "dec_udp (take 8 (drop 34 (rx_pkt s1))) = udp_hdr_of 53 (dns_local_port s) (of_nat (8 + length ?d)) c"
    using rcv(5) by blast
  have k: "dns_local_port s1 = dns_local_port s" "udp_local_port s1 = udp_local_port s" "dns_current_id s1 = dns_current_id s"
    by (simp_all add: s1 received_def call_def)
  have "rx_pkt s1 = take 42 (rx_pkt s1) @ enc_response (dns_current_id s1) flags qs rs ns ar @ drop (42 + length ?d) (rx_pkt s1)"
    using rcv(6) by (simp add: k)
  from handle_dns_response_enc [OF this _ f q rr, of 42]
  have "handle_dns_response 42 s1 = Some (resolve_with rs s1)" using ready_fields(3) [OF rcv(1)] by simp
  then show ?thesis
    using port handle_udp_cases [OF rcv(1), of 34 _ "rx_ip s1" "ucast (ntohs (ip_tot_len (rx_ip s1))) - 20"] u
    by (simp add: dispatch_eq [OF rcv(1)] dispatch_ipv4_eq [OF rcv(1)] rcv(2-4) Let_def k udp_hdr_of_def ntohs_def htons_htons)
qed

subsection \<open>A lookup that is answered\<close>

lemma retry_loop_once:
  assumes "\<not> finished s" "\<not> give_up s" "max_loops \<noteq> 0" "transmission s = Some s1"
    "round_of E STALL_1MS s1 = Some s2" "finished s2"
  shows "retry_loop E transmission finished give_up max_loops 0 0 s = Some s2"
proof -
  have "\<not> stops finished give_up max_loops 0 s" using assms(1-3) by (simp add: stops_def)
  moreover have "stops finished give_up max_loops (0 + 1) s2" using assms(6) by (simp add: stops_def)
  ultimately show ?thesis using assms(4,5) by (simp add: retry_loop_round retry_loop_stop may_send_def)
qed

text \<open>What the query fixes depends on the generator alone.\<close>

lemma dns_prepare_seed:
  assumes "rng_seed s' = rng_seed s"
  shows "dns_local_port (dns_prepare s') = dns_local_port (dns_prepare s)"
    "dns_current_id (dns_prepare s') = dns_current_id (dns_prepare s)"
    "rng_seed (dns_prepare s') = rng_seed (dns_prepare s)"
  using assms by (simp_all add: dns_prepare_def get_u32_def get_ephemeral_port_def Let_def)

lemma dns_prepare_keeps:
  "dns_local_port (dns_prepare s) \<noteq> 0" "udp_local_port (dns_prepare s) = udp_local_port s"
  "tcp_view (dns_prepare s) = tcp_view s" "polls (dns_prepare s) = polls s"
  "dns_resolved (dns_prepare s) = dns_resolved s"
  using ephemeral_port_range [of "snd (get_u32 s)"]
  by (auto simp: dns_prepare_def get_u32_def Let_def case_prod_unfold tcp_view_def polls_def get_ephemeral_port_def)

lemma resolve_answered:
  assumes s: "ready s" "tcp_rel s c" and h: "0 \<in> set hostname" "length (cstring hostname) \<le> 540" and p: "ready peer"
    and l: "length (enc_response (dns_current_id (dns_prepare s)) flags qs rs ns ar) \<le> 1458"
    and port: "udp_local_port s \<noteq> dns_local_port (dns_prepare s)"
    and f: "flags AND 0x8000 \<noteq> 0" and q: "list_all question_ok qs" "length qs < 65536"
    and rr: "list_all rr_ok rs" "length rs < 65536" "List.find is_a rs = Some r"
    and a: "\<And>tr. receptions tr = polls s + 1 \<Longrightarrow> fw_receive E tr = (EFI_SUCCESS,
      udp_frame peer i da 53 (dns_local_port (dns_prepare s)) (enc_response (dns_current_id (dns_prepare s)) flags qs rs ns ar))"
  shows "\<exists>s'. resolve_hostname E hostname out_ip s = Some (EFI_SUCCESS, dec32 (rr_data r), s') \<and> ready s' \<and> tcp_rel s' c \<and>
    polls s' = polls s + 1 \<and> rng_seed s' = rng_seed (dns_prepare s)"
proof -
  define s0 where "s0 = s\<lparr>dns_resolved := False, dns_resolved_ip := 0\<rparr>"
  have r0: "ready s0" using s by (simp add: s0_def)
  note seed = dns_prepare_seed [of s0 s]
  have sd: "dns_local_port (dns_prepare s0) = dns_local_port (dns_prepare s)"
    "dns_current_id (dns_prepare s0) = dns_current_id (dns_prepare s)" "rng_seed (dns_prepare s0) = rng_seed (dns_prepare s)"
    by (rule seed; simp add: s0_def)+
  let ?d = "enc_response (dns_current_id (dns_prepare s)) flags qs rs ns ar"
  let ?f = "udp_frame peer i da 53 (dns_local_port (dns_prepare s)) ?d"
  obtain s1 where s1: "dns_query E hostname s0 = Some s1" "ready s1"
    "sends (dns_prepare s0) (dns_frame (dns_prepare s0) (ucast (fst (get_u32 s0) AND 0xFFFF)) (cstring hostname)) s1"
    using send_frame_ready [OF ready_dns_prepare [OF r0],
        of "dns_frame (dns_prepare s0) (ucast (fst (get_u32 s0) AND 0xFFFF)) (cstring hostname)" E]
      length_dns_frame [OF ready_dns_prepare [OF r0]] h(2) dns_query_eq [OF r0 h] by auto
  obtain tx tr where e1: "s1 = (dns_prepare s0)\<lparr>tx_pkt := tx, trace := tr\<rparr>" by (rule sends_frame [OF s1(3)])
  have k: "dns_local_port s1 = dns_local_port (dns_prepare s)" "dns_current_id s1 = dns_current_id (dns_prepare s)"
    "udp_local_port s1 = udp_local_port s" "tcp_view s1 = tcp_view s" "rng_seed s1 = rng_seed (dns_prepare s)" "polls s1 = polls s"
    using sends_handled [OF s1(3)] dns_prepare_keeps [of s0] sends_view [OF s1(3)]
    by (simp_all add: e1 sd handled_def) (simp_all add: s0_def tcp_view_def polls_def)
  define s2 where "s2 = received ?f s1"
  have len: "length ?f \<le> 4096" using l by (simp add: length_udp_frame [OF p])
  have "dispatch E s2 = Some (resolve_with rs s2)"
    by (rule dns_answer_dispatched [OF s1(2) p _ _ _ f q rr(1,2), where i = i and da = da and ns = ns and ar = ar])
      (use l port dns_prepare_keeps(1) [of s] in \<open>simp_all add: k s2_def\<close>)
  moreover have w: "resolve_with rs s2 = s2\<lparr>dns_resolved_ip := dec32 (rr_data r), dns_resolved := True\<rparr>"
    by (simp add: resolve_with_def rr(3))
  ultimately have dp: "dispatch E (received ?f s1) = Some (s2\<lparr>dns_resolved_ip := dec32 (rr_data r), dns_resolved := True\<rparr>)"
    by (simp add: s2_def)
  let ?s3 = "call (Stall STALL_1MS) (s2\<lparr>dns_resolved_ip := dec32 (rr_data r), dns_resolved := True\<rparr>)"
  have r2: "ready s2" using s1(2) len by (simp add: s2_def)
  have fr: "fw_receive E (Receive 4096 # trace s1) = (EFI_SUCCESS, ?f)" by (rule a) (use k(6) in \<open>simp add: polls_def\<close>)
  have "retry_loop E (dns_query E hostname) dns_resolved never TIMEOUT_TCP_LOOPS 0 0 s0 = Some ?s3"
  proof (rule retry_loop_once)
    show "dns_query E hostname s0 = Some s1" by (rule s1(1))
    show "round_of E STALL_1MS s1 = Some ?s3" by (rule round_received [OF s1(2) fr len dp]) (use r2 in simp)
  qed (simp_all add: s0_def call_def TIMEOUT_TCP_LOOPS_def)
  moreover have "tcp_rel ?s3 c"
    using s(2) tcp_rel_view [of ?s3 s c] k(4) received_fields(3) [of ?f s1] by (simp add: s2_def tcp_view_def call_def)
  moreover have "polls ?s3 = polls s + 1" "rng_seed ?s3 = rng_seed (dns_prepare s)"
    using k(5,6) received_fields(5) [of ?f s1] by (simp_all add: s2_def polls_def call_def received_def)
  ultimately show ?thesis using r2 by (simp add: resolve_hostname_def s0_def call_def)
qed

subsection \<open>A request that is answered\<close>

lemma syn_prepare_seed:
  "rng_seed s' = rng_seed s \<Longrightarrow> tcp_local_port (syn_prepare ip port s') = tcp_local_port (syn_prepare ip port s)"
  by (simp add: syn_prepare_def get_ephemeral_port_def get_u32_def Let_def)

lemma tcp_send_effect:
  "ready s \<Longrightarrow> tcp_send E data len s = Some (st, s') \<Longrightarrow> polls s' = polls s \<and> config_of s' = config_of s"
proof (cases "tcp_state s = TCP_STATE_ESTABLISHED")
  case True
  assume "ready s" "tcp_send E data len s = Some (st, s')"
  with True obtain s1 where s1: "send_tcp_internal E TCP_FLAG_PSH_ACK (tcp_seq s) (tcp_ack s) data len s = Some s1"
    "s' = s1\<lparr>tcp_seq := tcp_seq s1 + ucast len\<rparr>"
    by (auto simp: tcp_send_def elim!: bind_Some_E)
  then have "polls s1 = polls s \<and> config_of s1 = config_of s"
    using send_tcp_handled [OF \<open>ready s\<close> s1(1)] by (simp add: handled_def)
  then show ?thesis by (simp add: s1(2) polls_def config_of_def)
qed (simp add: tcp_send_def)

text \<open>
  The whole exchange on a network that answers: the response of the name server, the SYN+ACK and one
  segment with data and FIN are the first three frames received.  Then \<open>http_get\<close> succeeds after
  exactly these three receptions, with the data, cut off at the capacity, in the caller's buffer.
\<close>

lemma http_get_answered:
  assumes s: "ready s" "tcp_rel s c"
    and h: "0 \<in> set hostname" "length (cstring hostname) \<le> 540" "0 \<in> set path"
    and b: "0 < max_len" "unat max_len \<le> length buf"
    and dns: "ready server" "length (enc_response (dns_current_id (dns_prepare s)) flags qs rs ns ar) \<le> 1458"
      "udp_local_port s \<noteq> dns_local_port (dns_prepare s)" "flags AND 0x8000 \<noteq> 0" "list_all question_ok qs" "length qs < 65536"
      "list_all rr_ok rs" "length rs < 65536" "List.find is_a rs = Some r"
    and peer: "ready peer" "tcp_remote_port peer = tcp_local_port (syn_prepare (dec32 (rr_data r)) 0x50 (dns_prepare s))"
    and d: "length d \<le> 1446" "d \<noteq> []"
    and a1: "\<And>tr. receptions tr = polls s + 1 \<Longrightarrow> fw_receive E tr = (EFI_SUCCESS,
      udp_frame server i1 da 53 (dns_local_port (dns_prepare s)) (enc_response (dns_current_id (dns_prepare s)) flags qs rs ns ar))"
    and a2: "\<And>tr. receptions tr = polls s + 2 \<Longrightarrow> fw_receive E tr = (EFI_SUCCESS, tcp_frame peer i2 0x12 seq ack [])"
    and a3: "\<And>tr. receptions tr = polls s + 3 \<Longrightarrow> fw_receive E tr = (EFI_SUCCESS, tcp_frame peer i3 0x19 seq' ack' d)"
  shows "\<exists>buf' n s'. http_get E hostname path (Some buf) max_len k0 s = Some (EFI_SUCCESS, Some buf', n, s') \<and>
    take (unat n) buf' = take (unat max_len) d \<and> unat n = min (length d) (unat max_len) \<and> length buf' = length buf \<and>
    ready s' \<and> tcp_state s' = TCP_STATE_CLOSED \<and> polls s' = polls s + 3"
proof -
  let ?t = "request_text (cstring hostname) (cstring path)"
  obtain s1 where 1: "resolve_hostname E hostname 0 s = Some (EFI_SUCCESS, dec32 (rr_data r), s1)" "ready s1" "tcp_rel s1 c"
    "polls s1 = polls s + 1" "rng_seed s1 = rng_seed (dns_prepare s)"
    using resolve_answered [OF s h(1,2) dns a1] by blast
  have port: "tcp_remote_port peer = tcp_local_port (syn_prepare (dec32 (rr_data r)) 0x50 s1)"
    using peer(2) syn_prepare_seed [OF 1(5)] by simp
  have "fw_receive E tr = (EFI_SUCCESS, tcp_frame peer i2 0x12 seq ack [])" if "receptions tr = polls s1 + 1" for tr
    using that a2 1(4) by simp
  from tcp_connect_answered [OF 1(2,3) peer(1) port this] obtain s2 c2 where
    2: "tcp_connect E (dec32 (rr_data r)) 0x50 s1 = Some (EFI_SUCCESS, s2)" "ready s2" "tcp_rel s2 c2"
      "c_phase c2 = Established" "polls s2 = polls s + 2" "tcp_local_port s2 = tcp_remote_port peer"
    using 1(4) by auto
  have le: "length (take 511 ?t) \<le> 1446" using request_payload(3) [of ?t] by linarith
  obtain s3 c3 where 3: "tcp_send E (Some (fst (request_array ?t))) (of_nat (length (take 511 ?t))) s2 = Some (EFI_SUCCESS, s3)"
      "ready s3" "tcp_step c2 (Push (take 511 ?t)) [(0x18, c_seq c2, c_ack c2, take 511 ?t)] c3" "tcp_rel s3 c3"
    using tcp_send_run [OF 2(2,3,4) request_payload(1) le, where E = E] by blast
  have c3: "c_phase c3 = Established" using 3(3) 2(4) by (auto elim: tcp_step.cases)
  have e3: "polls s3 = polls s + 2" "tcp_local_port s3 = tcp_remote_port peer"
    using tcp_send_effect [OF 2(2) 3(1)] 2(5,6) by (simp_all add: config_of_def)
  have nz: "tcp_local_port s3 \<noteq> 0" using e3(2) port syn_prepare_fields(4) [where ip = "dec32 (rr_data r)" and port = "0x50" and s = s1] by auto
  have "fw_receive E tr = (EFI_SUCCESS, tcp_frame peer i3 0x19 seq' ack' d)" if "receptions tr = polls s3 + 1" for tr
    using that a3 e3(1) by simp
  from tcp_receive_answered [OF 3(2,4) c3 peer(1) e3(2) [symmetric] nz d _ b _ this, where ms = "0x1388"]
  obtain buf' n s4 where 4: "tcp_receive E (Some buf) max_len 0x1388 s3 = Some (EFI_SUCCESS, Some buf', n, s4)"
    "take (unat n) buf' = take (unat max_len) d" "unat n = min (length d) (unat max_len)" "length buf' = length buf"
    "ready s4" "tcp_rel s4 (after_data (c3\<lparr>c_cap := unat max_len\<rparr>) 0x19 seq' ack' d)" "polls s4 = polls s3 + 1"
    by auto
  have "tcp_state s4 = 4" using 4(6) by (simp add: tcp_rel_def after_data_def)
  then have 5: "tcp_close E s4 = Some (EFI_SUCCESS, s4\<lparr>tcp_local_port := 0, tcp_state := TCP_STATE_CLOSED\<rparr>)"
    by (simp add: tcp_close_def TCP_STATE_ESTABLISHED_def)
  have req: "build_request hostname path = Some (fst (request_array ?t), length (take 511 ?t))"
    using build_request_eq [OF h(1,3)] by (simp add: request_array_def)
  have "http_get E hostname path (Some buf) max_len k0 s =
    Some (EFI_SUCCESS, Some buf', n, s4\<lparr>tcp_local_port := 0, tcp_state := TCP_STATE_CLOSED\<rparr>)"
    using 1(1) 2(1) 3(1) 4(1) 5 req by (simp add: http_get_def)
  then show ?thesis using 4 e3(1) by (auto simp: polls_def)
qed

subsection \<open>A length that wraps\<close>

text \<open>An echo request whose total length is below its header length makes the copy run away.\<close>

lemma icmp_underflow:
  assumes r: "ready s" and p: "p + 8 \<le> 4096" and ty: "rx_pkt s ! p = 8" "rx_pkt s ! (p + 1) = 0"
    and n: "k < h" "h \<le> k + 34"
  shows "handle_icmp E ip p (of_nat k - of_nat h) s = None"
proof -
  have "icmp_type (dec_icmp (take 8 (drop p (rx_pkt s)))) = 8" "icmp_code (dec_icmp (take 8 (drop p (rx_pkt s)))) = 0"
    using ty p ready_fields(3) [OF r] by (simp_all add: dec_icmp_def)
  moreover have "icmp_reply E (replicate MAX_PKT_SIZE 0) ip p (of_nat k - of_nat h) s = None"
    by (rule icmp_reply_underflow [OF n ready_fields(3) [OF r]])
  ultimately show ?thesis
    unfolding handle_icmp_def load_hdr [OF r p] Let_def ICMP_TYPE_ECHO_REQUEST_def ICMP_CODE_ZERO_def by simp
qed

lemma icmp_underflow_dispatch:
  assumes r: "ready s" and ty: "rx_type s = 0x0800" "ip_protocol (rx_ip s) = 1"
    "rx_pkt s ! (14 + rx_hlen s) = 8" "rx_pkt s ! (15 + rx_hlen s) = 0"
    and n: "unat (ntohs (ip_tot_len (rx_ip s))) < rx_hlen s" "rx_hlen s \<le> unat (ntohs (ip_tot_len (rx_ip s))) + 34"
  shows "dispatch E s = None"
proof -
  have p: "14 + rx_hlen s + 8 \<le> 4096" using rx_hlen_le [of s] by simp
  have b: "rx_pkt s ! (14 + rx_hlen s + 1) = 0" using ty(4) by (simp add: eval_nat_numeral)
  have k: "(ucast (ntohs (ip_tot_len (rx_ip s))) :: u64) = of_nat (unat (ntohs (ip_tot_len (rx_ip s))))" by simp
  have "dispatch_ipv4 E s = None"
    unfolding dispatch_ipv4_eq [OF r] Let_def k icmp_underflow [OF r p ty(3) b n] using ty(2) by (simp only: refl if_True)
  then show ?thesis
    unfolding dispatch_eq [OF r] ty(1) by simp
qed

subsection \<open>An echo request that is answered\<close>

lemma icmp_reply_frame_parts:
  fixes i :: u16 and da :: u32
  assumes r: "ready s" and n: "8 \<le> n" "n \<le> 1466" "length req = n" and z: "req ! 1 = 0"
  defines "f \<equiv> icmp_reply_frame s i da req"
  shows "length f = 34 + n" "ipv4_wf f" "checksum (drop 34 f) n = 0" "take 2 (drop 34 f) = [0, 0]" "drop 38 f = drop 4 req"
proof -
  have d: "drop 34 f = icmp_segment 0 0 (drop 4 req)"
    using ipv4_frame_parts(3) [OF valid_router_eth [OF r]] z by (simp add: f_def icmp_reply_frame_def)
  show "length f = 34 + n" using length_icmp_reply_frame [OF r, of req] n by (simp add: f_def)
  show "ipv4_wf f" "checksum (drop 34 f) n = 0" using icmp_reply_frame_wf [OF r, of req i da] n by (simp_all add: f_def)
  show "take 2 (drop 34 f) = [0, 0]" by (simp add: d icmp_segment_def)
  have "drop 38 f = drop 4 (drop 34 f)" by simp
  also have "\<dots> = drop 4 req" unfolding d by (simp add: icmp_segment_def)
  finally show "drop 38 f = drop 4 req" .
qed

lemma icmp_echo_reply:
  assumes r: "ready s" and n: "8 \<le> n" "n \<le> 1466" "p + n \<le> 4096" and ty: "rx_pkt s ! p = 8" "rx_pkt s ! (p + 1) = 0"
  obtains s' i where "handle_icmp E ip p (of_nat n) s = Some s'" "ready s'"
    "sent s' = icmp_reply_frame s i (ip_saddr ip) (take n (drop p (rx_pkt s))) # sent s"
proof -
  let ?f = "icmp_reply_frame s (ucast (fst (get_u32 s) AND 0xFFFF)) (ip_saddr ip) (take n (drop p (rx_pkt s)))"
  have g: "ready (snd (get_u32 s))" "sent (snd (get_u32 s)) = sent s"
    using r by (simp_all add: get_u32_def Let_def sent_def)
  have "length ?f \<le> 4096" using length_icmp_reply_frame [OF r, of "take n (drop p (rx_pkt s))"] n ready_fields(3) [OF r] by simp
  then obtain s' where "send_frame E ?f (snd (get_u32 s)) = Some s'" "sends (snd (get_u32 s)) ?f s'" "ready s'"
    using send_frame_ready [OF g(1), of ?f E] by blast
  then show ?thesis using that [of s'] handle_icmp_request [OF r n ty, of E ip] sends_sent g(2) by simp
qed

end
