(* ===== verification/Net_Boot.thy ===== *)
theory Net_Boot
  imports Net_Init Net_Delivery
begin

text \<open>
  Initialisation on a network that answers: a DHCP server whose OFFER and ACK are the first two
  frames received and a gateway whose ARP reply is the third.  The answers are any messages a
  server may send: the headers may hold anything the client does not read.
\<close>

subsection \<open>A server's messages\<close>

record lease =
  l_ip :: u32
  l_server :: u32
  l_mask :: u32
  l_router :: u32
  l_dns :: u32
  l_time :: u32

definition lease_options :: "u8 \<Rightarrow> lease \<Rightarrow> dhcp_opt list" where
  "lease_options ty l =
     [Opt 53 [ty], Opt 1 (enc32 (l_mask l)), Opt 3 (enc32 (l_router l)), Opt 6 (enc32 (l_dns l)),
      Opt 51 (enc32 (htonl (l_time l)))]"

definition lease_message :: "u8 \<Rightarrow> lease \<Rightarrow> dhcp_hdr \<Rightarrow> dhcp_hdr" where
  "lease_message ty l d =
     d\<lparr>dhcp_op := 2, dhcp_yiaddr := l_ip l, dhcp_siaddr := l_server l, dhcp_magic := htonl 0x63825363,
       dhcp_options := concat (map enc_opt (lease_options ty l)) @ 255 # replicate 272 0\<rparr>"

text \<open>The parts of the frame that are the server's choice, and what they have in common.\<close>

record envelope =
  v_eth :: eth_hdr
  v_ip :: ip_hdr
  v_udp :: udp_hdr
  v_dhcp :: dhcp_hdr

definition envelope_ok :: "envelope \<Rightarrow> bool" where
  "envelope_ok v \<longleftrightarrow> valid_eth (v_eth v) \<and> eth_type (v_eth v) = htons 0x0800 \<and> ihl_version (v_ip v) = 0x45 \<and>
     ip_protocol (v_ip v) = 17 \<and> udp_dest (v_udp v) = htons 68 \<and> valid_dhcp (v_dhcp v)"

definition lease_frame :: "envelope \<Rightarrow> u8 \<Rightarrow> lease \<Rightarrow> bytes" where
  "lease_frame v ty l = ipv4_frame (v_eth v) (v_ip v) (enc_udp (v_udp v) @ enc_dhcp (lease_message ty l (v_dhcp v)))"

lemma length_lease_options: "length (concat (map enc_opt (lease_options ty l))) = 27"
  by (simp add: lease_options_def)

lemma lease_options_ok: "list_all opt_ok (lease_options ty l)"
  by (simp add: lease_options_def)

lemma lease_message_parts:
  assumes "valid_dhcp d"
  shows "valid_dhcp (lease_message ty l d)"
    "\<exists>h. length h = 240 \<and> enc_dhcp (lease_message ty l d) = h @ concat (map enc_opt (lease_options ty l)) @ 255 # replicate 272 0"
proof -
  show v: "valid_dhcp (lease_message ty l d)"
    using assms by (simp add: lease_message_def valid_dhcp_def length_lease_options)
  let ?o = "dhcp_options (lease_message ty l d)"
  have o: "?o = concat (map enc_opt (lease_options ty l)) @ 255 # replicate 272 0" by (simp add: lease_message_def)
  obtain h where h: "enc_dhcp (lease_message ty l d) = h @ ?o" by (simp add: enc_dhcp_def)
  have "length (h @ ?o) = 540" using dhcp.length_enc [OF v] h by simp
  then show "\<exists>h. length h = 240 \<and> enc_dhcp (lease_message ty l d) = h @ concat (map enc_opt (lease_options ty l)) @ 255 # replicate 272 0"
    using h o by (intro exI [of _ h]) (simp add: length_lease_options)
qed

lemma length_lease_frame: "envelope_ok v \<Longrightarrow> length (lease_frame v ty l) = 582"
  by (simp add: lease_frame_def envelope_ok_def length_ipv4_frame udp.length_enc dhcp.length_enc lease_message_parts)

subsection \<open>What the client makes of them\<close>

definition with_options :: "lease \<Rightarrow> state \<Rightarrow> state" where
  "with_options l s = s\<lparr>subnet_mask := l_mask l, router_ip := l_router l, dns_server_ip := l_dns l, dhcp_lease_time := l_time l\<rparr>"

lemma lease_options_effect: "fold opt_effect (lease_options ty l) (m, s) = (ty, with_options l s)"
  by (simp add: lease_options_def option_effect_def with_options_def ntohl_def htonl_htonl)

lemma lease_input:
  fixes ty :: u8 and l :: lease
  assumes r: "ready s" and v: "envelope_ok v"
  defines "s1 \<equiv> received (lease_frame v ty l) s"
  shows "dhcp_input d t s1 =
    Some (dhcp_transition (rx_ip s1) (lease_message ty l (v_dhcp v)) ty d t (with_options l s1))"
    "ip_saddr (rx_ip s1) = ip_saddr (v_ip v)" "ready s1"
proof -
  let ?f = "lease_frame v ty l" and ?m = "lease_message ty l (v_dhcp v)"
  have e: "valid_eth (v_eth v)" "eth_type (v_eth v) = htons 0x0800" "ihl_version (v_ip v) = 0x45"
    "ip_protocol (v_ip v) = 17" "udp_dest (v_udp v) = htons 68" "valid_dhcp (v_dhcp v)"
    using v by (simp_all add: envelope_ok_def)
  note rc = received_ipv4 [OF e(1-3) lease_frame_def, of ty l s, folded s1_def]
  have l: "length ?f = 582" by (rule length_lease_frame [OF v])
  show r1: "ready s1" unfolding s1_def using r l by simp
  show "ip_saddr (rx_ip s1) = ip_saddr (v_ip v)" by (simp add: rc(2))
  have n: "length (rx_pkt s1) = 4096" using r1 by (simp add: ready_def)
  note p = lease_message_parts [OF e(6), of ty l]
  obtain h where h: "length h = 240" "enc_dhcp ?m = h @ concat (map enc_opt (lease_options ty l)) @ 255 # replicate 272 0"
    using p(2) by blast
  have ld: "length (enc_dhcp ?m) = 540" by (rule dhcp.length_enc [OF p(1)])
  have d34: "drop 34 (rx_pkt s1) = enc_udp (v_udp v) @ enc_dhcp ?m @ drop 582 (rx_pkt s)" using rc(4) l by simp
  have d42: "drop 42 (rx_pkt s1) = enc_dhcp ?m @ drop 582 (rx_pkt s)"
    using arg_cong [OF d34, of "drop 8"] by (simp add: udp.length_enc)
  have ld_udp: "load (rx_pkt s1) 34 8 = Some (enc_udp (v_udp v))"
    by (rule udp.load_enc [OF _ d34]) (simp_all add: n)
  have ld_dhcp: "load (rx_pkt s1) 42 540 = Some (enc_dhcp ?m)"
    by (rule dhcp.load_enc [OF p(1) d42]) (simp add: n)
  have ty: "eth_type (dec_eth (take 14 (rx_pkt s1))) = htons 0x0800"
    using rc(1) by (metis htons_htons ntohs_def rx_type_def)
  have scan: "scan_options 282 282 (0, s1) = Some (ty, with_options l s1)"
  proof -
    define a where "a = take 42 (rx_pkt s1) @ h"
    have a: "length a = 282" using n h(1) by (simp add: a_def)
    have "rx_pkt s1 = take 42 (rx_pkt s1) @ drop 42 (rx_pkt s1)" by simp
    then have "rx_pkt s1 = a @ concat (map enc_opt (lease_options ty l)) @ 255 # (replicate 272 0 @ drop 582 (rx_pkt s))"
      unfolding d42 h(2) a_def by simp
    from scan_options_enc [of "(0, s1)" a "lease_options ty l" _ 282] this show ?thesis
      by (simp add: a n lease_options_ok length_lease_options lease_options_effect ready_fields(3) [OF r])
  qed
  have ip: "dec_ip (take 20 (drop 14 (rx_pkt s1))) = rx_ip s1" by (simp add: rx_ip_def)
  have hl: "ihl_version (rx_ip s1) = 0x45" "ip_protocol (rx_ip s1) = 17" using rc(2) e(3,4) by simp_all
  show "dhcp_input d t s1 = Some (dhcp_transition (rx_ip s1) ?m ty d t (with_options l s1))"
    using load_hdr [OF r1, of 0 14] load_hdr [OF r1, of 14 20] ty ip hl e(5) ld_udp ld_dhcp scan
    by (simp add: dhcp_input_def const_vals Let_def udp.dec_enc_Nil dhcp.dec_enc_Nil [OF p(1)])
      (simp add: lease_message_def)
qed

subsection \<open>The handshake\<close>

lemma with_options_fields [simp]:
  "ready (with_options l s) = ready s" "polls (with_options l s) = polls s" "sent (with_options l s) = sent s"
  "my_ip (with_options l s) = my_ip s" "router_ip (with_options l s) = l_router l" "trace (with_options l s) = trace s"
  "subnet_mask (with_options l s) = l_mask l" "dns_server_ip (with_options l s) = l_dns l"
  "dhcp_lease_time (with_options l s) = l_time l"
  by (simp_all add: with_options_def ready_def polls_def sent_def)

definition offered :: "envelope \<Rightarrow> lease \<Rightarrow> state \<Rightarrow> state" where
  "offered v l s = (with_options l s)\<lparr>my_ip := l_ip l,
     dhcp_server_ip := (if l_server l = 0 then ip_saddr (v_ip v) else l_server l)\<rparr>"

lemma offered_fields [simp]:
  "ready (offered v l s) = ready s" "polls (offered v l s) = polls s" "sent (offered v l s) = sent s"
  "my_ip (offered v l s) = l_ip l" "trace (offered v l s) = trace s"
  by (simp_all add: offered_def ready_def polls_def sent_def with_options_def)

lemma offer_received:
  assumes r: "ready s" and v: "envelope_ok v"
    and f: "fw_receive E (Receive 4096 # trace s) = (EFI_SUCCESS, lease_frame v 2 l)"
  shows "dhcp_receive E 0 t s = Some (1, 0, offered v l (received (lease_frame v 2 l) s))"
  using receive_eq [OF r f] length_lease_frame [OF v, of 2 l] lease_input(1) [OF r v, where d = 0 and t = t and ty = 2 and l = l] lease_input(2) [OF r v, of 2 l]
  by (simp add: dhcp_receive_def const_vals dhcp_transition_def lease_message_def offered_def Let_def EFI_ERROR_def)

lemma ack_received:
  assumes r: "ready s" and v: "envelope_ok v" and l: "l_router l \<noteq> 0"
    and f: "fw_receive E (Receive 4096 # trace s) = (EFI_SUCCESS, lease_frame v 5 l)"
  shows "dhcp_receive E 1 t s = Some (2, t, with_options l (received (lease_frame v 5 l) s))"
  using receive_eq [OF r f] length_lease_frame [OF v, of 5 l] lease_input(1) [OF r v, where d = 1 and t = t and ty = 5 and l = l] lease_input(2) [OF r v, of 5 l] l
  by (simp add: dhcp_receive_def const_vals dhcp_transition_def lease_message_def Let_def EFI_ERROR_def)

text \<open>
  Any other message, a DHCPNAK among them: its options are taken over, the client stays in its
  state, and the retransmission counter, which only an empty interface runs down, stands still.
\<close>

lemma refusal_input:
  fixes l :: lease
  assumes "ready s" "envelope_ok v" "ty \<noteq> 0" "d = 0 \<longrightarrow> ty \<noteq> 2" "d = 1 \<longrightarrow> ty \<noteq> 5"
  shows "dhcp_input d t (received (lease_frame v ty l) s) = Some (d, t, with_options l (received (lease_frame v ty l) s))"
  using lease_input(1) [OF assms(1,2), where d = d and t = t and ty = ty and l = l] assms(3-5)
  by (simp add: const_vals dhcp_transition_def)

lemma sends_polls: "sends s f s' \<Longrightarrow> polls s' = polls s"
  using sends_handled [of s f s'] by (simp add: handled_def)

lemma dhcp_answered:
  assumes r: "ready s" and v: "envelope_ok v1" "envelope_ok v2" and l: "l_router l2 \<noteq> 0"
    and f1: "\<And>tr. receptions tr = polls s + 1 \<Longrightarrow> fw_receive E tr = (EFI_SUCCESS, lease_frame v1 2 l1)"
    and f2: "\<And>tr. receptions tr = polls s + 2 \<Longrightarrow> fw_receive E tr = (EFI_SUCCESS, lease_frame v2 5 l2)"
  shows "\<exists>s1 s2 s3. dhcp_loop E xid 0 0 0 s = Some (2, with_options l2 s3) \<and> ready s3 \<and> polls s3 = polls s + 2 \<and>
    sent s3 = dhcp_frame (offered v1 l1 s1) 3 xid # dhcp_frame s 1 xid # sent s \<and> my_ip s3 = l_ip l1"
proof -
  obtain sa where a: "dhcp_send E xid 0 0 s = Some (5000, sa)" "ready sa" "sends s (dhcp_frame s 1 xid) sa"
    using dhcp_send_total [OF r, of 0 E xid 0] by auto
  have pa: "polls sa = polls s" "sent sa = dhcp_frame s 1 xid # sent s"
    using sends_polls [OF a(3)] sends_sent [OF a(3)] by simp_all
  let ?r1 = "received (lease_frame v1 2 l1) sa"
  let ?sb = "offered v1 l1 ?r1"
  have b: "dhcp_receive E 0 5000 sa = Some (1, 0, ?sb)"
    by (rule offer_received [OF a(2) v(1) f1]) (use pa in \<open>simp add: polls_def\<close>)
  have rb: "ready ?sb" using a(2) length_lease_frame [OF v(1), of 2 l1] by simp
  obtain sc where c: "dhcp_send E xid 1 0 ?sb = Some (5000, sc)" "ready sc" "sends ?sb (dhcp_frame ?sb 3 xid) sc"
    using dhcp_send_total [OF rb, of 1 E xid 0] by auto
  have pc: "polls sc = polls s + 1" "sent sc = dhcp_frame ?sb 3 xid # dhcp_frame s 1 xid # sent s" "my_ip sc = l_ip l1"
    using sends_polls [OF c(3)] sends_sent [OF c(3)] pa c(3) by (auto simp: sends_def)
  let ?sd = "received (lease_frame v2 5 l2) sc"
  have d: "dhcp_receive E 1 5000 sc = Some (2, 5000, with_options l2 ?sd)"
    by (rule ack_received [OF c(2) v(2) l f2]) (use pc in \<open>simp add: polls_def\<close>)
  have stop: "dhcp_loop E xid t 2 n x = Some (2, x)" for t n x
    by (subst dhcp_loop.simps) (simp add: const_vals)
  have "dhcp_loop E xid 0 1 1 ?sb = Some (2, with_options l2 ?sd)"
    by (subst dhcp_loop.simps) (simp add: const_vals word_le_nat_alt c(1) d stop)
  then have "dhcp_loop E xid 0 0 0 s = Some (2, with_options l2 ?sd)"
    by (subst dhcp_loop.simps) (simp add: const_vals word_le_nat_alt a(1) b)
  moreover have "ready ?sd" "polls ?sd = polls s + 2" "sent ?sd = sent sc"
    using c(2) pc(1) length_lease_frame [OF v(2), of 5 l2] by simp_all
  moreover have "my_ip ?sd = my_ip sc" by (simp add: received_def call_def)
  ultimately show ?thesis using pc(2,3) by metis
qed

subsection \<open>The gateway\<close>

definition arp_frame :: "eth_hdr \<Rightarrow> arp_hdr \<Rightarrow> bytes" where
  "arp_frame e a = enc_eth e @ enc_arp a"

definition arp_answer_ok :: "eth_hdr \<Rightarrow> arp_hdr \<Rightarrow> bool" where
  "arp_answer_ok e a \<longleftrightarrow> valid_eth e \<and> valid_arp a \<and> eth_type e = htons 0x0806 \<and> arp_oper a = htons 2"

lemma length_arp_frame: "arp_answer_ok e a \<Longrightarrow> length (arp_frame e a) = 42"
  by (simp add: arp_answer_ok_def arp_frame_def eth.length_enc arp.length_enc)

lemma arp_answer_dispatched:
  assumes r: "ready s" and a: "arp_answer_ok e a"
  shows "dispatch E (received (arp_frame e a) s) = Some (arp_learn a (received (arp_frame e a) s))"
    "ready (arp_learn a (received (arp_frame e a) s))"
proof -
  let ?s1 = "received (arp_frame e a) s"
  have v: "valid_eth e" "valid_arp a" "eth_type e = htons 0x0806" "arp_oper a = htons 2"
    using a by (simp_all add: arp_answer_ok_def)
  have r1: "ready ?s1" using r length_arp_frame [OF a] by simp
  have l: "length (enc_eth e) = 14" "length (enc_arp a) = 28" using eth.length_enc [OF v(1)] arp.length_enc [OF v(2)] by simp_all
  have rx: "rx_pkt ?s1 = enc_eth e @ enc_arp a @ drop 42 (rx_pkt s)"
    using length_arp_frame [OF a] by (simp add: received_def arp_frame_def)
  have ty: "rx_type ?s1 = 0x0806"
    using eth.dec_enc_Nil [OF v(1)] by (simp add: rx_type_def rx l v(3) ntohs_def htons_htons)
  have d: "a = dec_arp (take 28 (drop 14 (rx_pkt ?s1)))" using arp.dec_enc_Nil [OF v(2)] by (simp add: rx l)
  show "dispatch E ?s1 = Some (arp_learn a ?s1)"
    using handle_arp_reply [OF r1 _ d, of E] v(4) by (simp add: dispatch_eq [OF r1] ty ntohs_def htons_htons)
  show "ready (arp_learn a ?s1)" by (rule ready_arp_learn [OF r1]) (use v(2) in \<open>simp add: valid_arp_def\<close>)
qed

lemma gateway_answered:
  assumes r: "ready s" and a: "arp_answer_ok e a" "arp_spa a = router_ip s"
    and f: "\<And>tr. receptions tr = polls s + 1 \<Longrightarrow> fw_receive E tr = (EFI_SUCCESS, arp_frame e a)"
  shows "\<exists>s'. resolve_gateway E s = Some (EFI_SUCCESS, s') \<and> ready s' \<and> polls s' = polls s + 1 \<and>
    sent s' = arp_request_frame s (router_ip s) # sent s \<and> router_mac s' = arp_sha a \<and>
    lookup (cache s') (router_ip s) = Some (arp_sha a) \<and>
    my_ip s' = my_ip s \<and> router_ip s' = router_ip s \<and> subnet_mask s' = subnet_mask s \<and>
    dns_server_ip s' = dns_server_ip s \<and> dhcp_lease_time s' = dhcp_lease_time s"
proof -
  define s0 where "s0 = s\<lparr>arp_resolved := False, arp_target_ip := router_ip s\<rparr>"
  let ?q = "arp_request_frame s0 (router_ip s0)"
  have r0: "ready s0" using r by (simp add: s0_def ready_def)
  have q: "?q = arp_request_frame s (router_ip s)" by (simp add: arp_request_frame_def s0_def)
  obtain s1 where s1: "send_frame E ?q s0 = Some s1" "sends s0 ?q s1" "ready s1"
    using send_frame_ready [OF r0, of ?q E] length_arp_request_frame [OF r0] by auto
  have p1: "polls s1 = polls s" "sent s1 = ?q # sent s"
    using sends_polls [OF s1(2)] sends_sent [OF s1(2)] by (simp_all add: s0_def polls_def sent_def)
  let ?s2 = "arp_learn a (received (arp_frame e a) s1)"
  note d = arp_answer_dispatched [OF s1(3) a(1)]
  have fr: "fw_receive E (Receive 4096 # trace s1) = (EFI_SUCCESS, arp_frame e a)"
    by (rule f) (use p1 in \<open>simp add: polls_def\<close>)
  have rd: "round_of E STALL_1MS s1 = Some (call (Stall STALL_1MS) ?s2)"
    by (rule round_received [OF s1(3) fr _ d]) (simp add: length_arp_frame [OF a(1)])
  obtain tx pre post where e1: "s1 = s0\<lparr>tx_pkt := tx, trace := post @ Transmit ?q # pre @ trace s0\<rparr>"
    using s1(2) by (auto simp: sends_def)
  have k: "arp_target_ip s1 = router_ip s" "router_ip s1 = router_ip s" "my_ip s1 = my_ip s" "subnet_mask s1 = subnet_mask s"
    "dns_server_ip s1 = dns_server_ip s" "dhcp_lease_time s1 = dhcp_lease_time s" "arp_resolved s1 = False"
    by (simp_all add: e1 s0_def)
  have "retry_loop E (\<lambda>s. arp_request E (router_ip s) s) arp_resolved never TIMEOUT_ARP_LOOPS 0 0 s0 =
      Some (call (Stall STALL_1MS) ?s2)"
    by (rule retry_loop_once [OF _ _ _ _ rd])
      (use s1(1) k a(2) in \<open>simp_all add: arp_request_eq [OF r0] const_vals arp_learn_def received_def call_def\<close>,
        simp add: s0_def)
  then have "resolve_gateway E s = Some (EFI_SUCCESS, call (Stall STALL_1MS) ?s2)"
    using k a(2) by (simp add: resolve_gateway_def arp_learn_def received_def call_def flip: s0_def)
  moreover have "polls ?s2 = polls s + 1" "sent ?s2 = arp_request_frame s (router_ip s) # sent s"
    using p1 q by (simp_all add: arp_learn_def received_def polls_def sent_def call_def)
  then have "polls (call (Stall STALL_1MS) ?s2) = polls s + 1" "ready (call (Stall STALL_1MS) ?s2)"
    "sent (call (Stall STALL_1MS) ?s2) = arp_request_frame s (router_ip s) # sent s"
    using d(2) by simp_all
  moreover have "lookup (update (cache s1) (router_ip s) (arp_sha a)) (router_ip s) = Some (arp_sha a)"
    using a arp_table.get_put_same [of "cache s1" "arp_sha a" "router_ip s"] ready_fields(8) [OF s1(3)]
    by (simp add: arp_answer_ok_def valid_arp_def mac_ok_def)
  then have "router_mac (call (Stall STALL_1MS) ?s2) = arp_sha a"
    "lookup (cache (call (Stall STALL_1MS) ?s2)) (router_ip s) = Some (arp_sha a)"
    "my_ip (call (Stall STALL_1MS) ?s2) = my_ip s" "router_ip (call (Stall STALL_1MS) ?s2) = router_ip s"
    "subnet_mask (call (Stall STALL_1MS) ?s2) = subnet_mask s"
    "dns_server_ip (call (Stall STALL_1MS) ?s2) = dns_server_ip s"
    "dhcp_lease_time (call (Stall STALL_1MS) ?s2) = dhcp_lease_time s"
    using k a(2) by (simp_all add: arp_learn_def received_def call_def)
  ultimately show ?thesis by blast
qed

subsection \<open>From power-on to a configured stack\<close>

lemma init_answered:
  assumes b: "booted s" and E: "works E" and v: "envelope_ok v1" "envelope_ok v2" and l: "l_router l2 \<noteq> 0"
    and a: "arp_answer_ok e a" "arp_spa a = l_router l2"
    and f1: "\<And>tr. receptions tr = polls s + 1 \<Longrightarrow> fw_receive E tr = (EFI_SUCCESS, lease_frame v1 2 l1)"
    and f2: "\<And>tr. receptions tr = polls s + 2 \<Longrightarrow> fw_receive E tr = (EFI_SUCCESS, lease_frame v2 5 l2)"
    and f3: "\<And>tr. receptions tr = polls s + 3 \<Longrightarrow> fw_receive E tr = (EFI_SUCCESS, arp_frame e a)"
  shows "\<exists>s' s0 s1 s2 xid. init_network E s = Some (EFI_SUCCESS, s') \<and> ready s' \<and> polls s' = polls s + 3 \<and>
    my_ip s' = l_ip l1 \<and> subnet_mask s' = l_mask l2 \<and> router_ip s' = l_router l2 \<and> dns_server_ip s' = l_dns l2 \<and>
    dhcp_lease_time s' = l_time l2 \<and> router_mac s' = arp_sha a \<and> lookup (cache s') (l_router l2) = Some (arp_sha a) \<and>
    sent s' = [arp_request_frame s2 (l_router l2), dhcp_frame s1 3 xid, dhcp_frame s0 1 xid] @ sent s \<and>
    my_ip s1 = l_ip l1 \<and> dhcp_server_ip s1 = (if l_server l1 = 0 then ip_saddr (v_ip v1) else l_server l1) \<and>
    my_ip s2 = l_ip l1"
proof (rule bring_up_cases [OF b, of E])
  fix s0 assume up: "bring_up E s = Some (None, s0)" "ready s0" "users_of s0 = users_of s" "sent s0 = sent s" "polls s0 = polls s"
  obtain xid s0' where x: "get_u32 s0 = (xid, s0')" "ready s0'" "sent s0' = sent s" "polls s0' = polls s"
    using up by (simp add: get_u32_def Let_def sent_def polls_def)
  obtain s1 s3 where d: "dhcp_loop E xid 0 0 0 s0' = Some (2, with_options l2 s3)" "ready s3" "polls s3 = polls s + 2"
    "sent s3 = dhcp_frame (offered v1 l1 s1) 3 xid # dhcp_frame s0' 1 xid # sent s" "my_ip s3 = l_ip l1"
    using dhcp_answered [OF x(2) v l, of E l1 xid] f1 f2 x(3,4) by auto
  let ?s3 = "with_options l2 s3"
  obtain s' where g: "resolve_gateway E ?s3 = Some (EFI_SUCCESS, s')" "ready s'" "polls s' = polls s + 3"
    "sent s' = arp_request_frame ?s3 (l_router l2) # sent s3" "router_mac s' = arp_sha a"
    "lookup (cache s') (l_router l2) = Some (arp_sha a)" "my_ip s' = l_ip l1" "router_ip s' = l_router l2"
    "subnet_mask s' = l_mask l2" "dns_server_ip s' = l_dns l2" "dhcp_lease_time s' = l_time l2"
    using gateway_answered [of ?s3 e a E] a f3 d(2,3,5) by auto
  have "init_network E s = Some (EFI_SUCCESS, s')"
    using up(1) x(1) d(1) g(1) by (simp add: init_network_def const_vals)
  moreover have "sent s' = [arp_request_frame ?s3 (l_router l2), dhcp_frame (offered v1 l1 s1) 3 xid, dhcp_frame s0' 1 xid] @ sent s"
    using g(4) d(4) by simp
  moreover have "dhcp_server_ip (offered v1 l1 s1) = (if l_server l1 = 0 then ip_saddr (v_ip v1) else l_server l1)"
    by (simp add: offered_def)
  moreover have "my_ip (offered v1 l1 s1) = l_ip l1" "my_ip ?s3 = l_ip l1" using d(5) by simp_all
  ultimately show ?thesis using g by blast
qed (use E in simp)

end
