(* ===== verification/Net_Scenarios.thy ===== *)
theory Net_Scenarios
  imports Net_Samples Net_Examples Net_Boot
begin

text \<open>
  Concrete situations the witnesses apply the theorems to: the idle stack, the stack at the entry
  point of a program, a silent network.  Nothing here models code.
\<close>

definition idle_conn :: conn where
  "idle_conn = \<lparr>c_phase = Closed, c_seq = 0, c_ack = 0, c_inbox = None, c_cap = 0, c_signal = False\<rparr>"

lemma rel_sample [simp]: "tcp_rel sample_state idle_conn"
  by (simp add: tcp_rel_def inbox_rel_def sample_state_def initial_state_def idle_conn_def)

lemma sane_sample [simp]: "sane sample_state"
  using ready_sample rel_sample
  by (auto simp: sane_def udp_inbox_ok_def sample_state_def initial_state_def)

lemma sane_sample_conn [simp]: "sane (sample_conn_state flags)"
  using ready_sample_conn rel_sample_conn
  by (auto simp: sane_def udp_inbox_ok_def sample_conn_state_def sample_state_def initial_state_def)

lemma silent_silent_net [simp]: "silent silent_net"
  by (simp add: silent_def silent_net_def)

lemma safe_silent_net [simp]: "net_safe silent_net" "net_sound silent_net"
  by (simp_all add: silent_safe net_safe_sound)

lemma sample_conn_phase [simp]: "c_phase sample_conn = Established"
  by (simp add: sample_conn_def)

lemma fresh_initial [simp]: "fresh (enter h initial_state)"
proof -
  have "tcp_rel (enter h initial_state) idle_conn"
    by (simp add: tcp_rel_def inbox_rel_def initial_state_def idle_conn_def enter_def)
  moreover have "booted (enter h initial_state)"
    by (simp add: booted_def enter_def initial_state_def empty_cache_inv)
  ultimately show ?thesis by (auto simp: fresh_def udp_inbox_ok_def enter_def initial_state_def)
qed

lemma booted_initial [simp]: "booted (enter h initial_state)"
  using fresh_initial by (simp add: fresh_def)

subsection \<open>A network with a script\<close>

text \<open>The \<open>n\<close>-th reception brings the frame the script has for \<open>n\<close>, if any.\<close>

definition script_net :: "(nat \<times> bytes) list \<Rightarrow> firmware" where
  "script_net fs = silent_net\<lparr>fw_receive := (\<lambda>tr. case map_of fs (receptions tr) of
     Some f \<Rightarrow> (EFI_SUCCESS, f) | None \<Rightarrow> (EFI_NOT_READY, []))\<rparr>"

lemma script_net_receive:
  "receptions tr = n \<Longrightarrow> map_of fs n = Some f \<Longrightarrow> fw_receive (script_net fs) tr = (EFI_SUCCESS, f)"
  by (simp add: script_net_def)

lemma script_net_safe:
  assumes "\<And>n f s. map_of fs n = Some f \<Longrightarrow> ready s \<Longrightarrow> length f \<le> 4096 \<and> page_safe (received f s)"
  shows "net_safe (script_net fs)"
  unfolding net_safe_def
proof (intro allI impI)
  fix s st s1 assume r: "ready s" and s1: "snp_receive (script_net fs) 4096 s = Some (st, s1)" and st: "\<not> EFI_ERROR st"
  have "snp_receive (script_net fs) 4096 s =
      Some (fst (fw_receive (script_net fs) (Receive 4096 # trace s)), s1)"
    using s1 by (auto simp: snp_receive_def snp_call_def Let_def call_def case_prod_unfold split: if_splits)
  then have "\<not> EFI_ERROR (fst (fw_receive (script_net fs) (Receive 4096 # trace s)))" using s1 st by simp
  then obtain f where f: "map_of fs (receptions (Receive 4096 # trace s)) = Some f"
    by (cases "map_of fs (receptions (Receive 4096 # trace s))") (auto simp: script_net_def)
  from receive_eq [OF r script_net_receive [OF refl f]] assms [OF f r] s1 show "page_safe s1" by simp
qed

lemma polls_sample [simp]: "polls sample_state = 0"
  by (simp add: polls_def sample_state_def initial_state_def)

subsection \<open>A gateway that answers pings\<close>

definition ping_script :: "(nat \<times> bytes) list" where
  "ping_script = [(3, echo_answer sample_state 9 sample_state 0x0202000A)]"

lemma ping_script_safe: "net_safe (script_net ping_script)"
proof (rule script_net_safe)
  fix n f s assume f: "map_of ping_script n = Some f" and r: "ready s"
  then have f: "f = echo_answer sample_state 9 sample_state 0x0202000A" by (simp add: ping_script_def split: if_splits)
  have l: "length f = 74" unfolding f by (rule echo_answer_length) simp_all
  obtain c where e: "f = ipv4_frame (router_eth_hdr sample_state) (out_ip_hdr 1 (my_ip sample_state) (my_ip sample_state) 9 40)
    (enc_icmp \<lparr>icmp_type = 0, icmp_code = 0, icmp_checksum = c, icmp_id = htons (ping_id (ping_prepare sample_state)),
       icmp_seq = htons (ping_seq (ping_prepare sample_state))\<rparr> @ echo_payload)"
    unfolding f using echo_answer_frame [OF ready_sample] by blast
  have v: "valid_eth (router_eth_hdr sample_state)" by (simp add: valid_router_eth)
  note rcv = received_ipv4 [OF v eth_type_router _ e, of s]
  have h: "ihl_version (out_ip_hdr 1 (my_ip sample_state) (my_ip sample_state) 9 40) = 0x45" by (simp add: out_ip_hdr_def)
  have "rx_pkt (received f s) ! 34 = 0"
    using arg_cong [OF rcv(4) [OF h], of hd] ready_fields(3) [OF received_fields(1) [OF r, of f]] l
    by (simp add: hd_drop_conv_nth enc_icmp_segment)
  then show "length f \<le> 4096 \<and> page_safe (received f s)"
    using l by (simp add: page_safe_def tcp_sound_def icmp_safe_def rcv [OF h] out_ip_hdr_def)
qed

subsection \<open>A server that answers a request\<close>

definition sample_rr :: dns_rr where
  "sample_rr = \<lparr>rr_name = Pointer 0xC0 0x0C, rr_type = 1, rr_class = 1, rr_ttl = 60, rr_data = [93, 184, 216, 34]\<rparr>"

definition sample_question :: question where
  "sample_question = \<lparr>q_labels = [[97], [98]], q_type = 1, q_class = 1\<rparr>"

definition http_peer :: state where
  "http_peer = sample_state\<lparr>tcp_remote_port :=
     tcp_local_port (syn_prepare (dec32 [93, 184, 216, 34]) 0x50 (dns_prepare sample_state))\<rparr>"

definition connect_peer :: state where
  "connect_peer = sample_state\<lparr>tcp_remote_port := tcp_local_port (syn_prepare 0x0101A8C0 80 sample_state)\<rparr>"

definition http_script :: "(nat \<times> bytes) list" where
  "http_script =
     [(1, udp_frame sample_state 1 0x0F02000A 53 (dns_local_port (dns_prepare sample_state))
            (enc_response (dns_current_id (dns_prepare sample_state)) 0x8180 [sample_question] [sample_rr] 0 0)),
      (2, tcp_frame http_peer 2 0x12 1000 1 []), (3, tcp_frame http_peer 3 0x19 1001 2 [72, 73])]"

lemma ready_peers [simp]: "ready http_peer" "ready connect_peer"
  by (simp_all add: http_peer_def connect_peer_def)

lemma peer_ports:
  "tcp_remote_port http_peer = tcp_local_port (syn_prepare (dec32 [93, 184, 216, 34]) 0x50 (dns_prepare sample_state))"
  "tcp_remote_port connect_peer = tcp_local_port (syn_prepare 0x0101A8C0 80 sample_state)"
  by (simp_all add: http_peer_def connect_peer_def)

lemma sample_records [simp]:
  "rr_ok sample_rr" "is_a sample_rr" "rr_data sample_rr = [93, 184, 216, 34]" "question_ok sample_question"
  "length (enc_response i fl [sample_question] [sample_rr] 0 0) \<le> 1458"
  by (simp_all add: sample_rr_def sample_question_def rr_ok_def is_a_def question_ok_def label_ok_def enc_response_def
      enc_question_def enc_rr_def enc_labels_def dns.length_enc)

subsection \<open>A datagram for a posted buffer\<close>

definition sample_udp_state :: "bytes \<Rightarrow> state" where
  "sample_udp_state d = sample_state\<lparr>rx_pkt := page_of (enc_udp (udp_hdr_of 53 4000 (of_nat (8 + length d)) 0) @ d),
     udp_local_port := 4000, udp_rx_buffer := Some [0, 0], udp_rx_max_len := 2\<rparr>"

lemma ready_sample_udp [simp]: "length d \<le> 4000 \<Longrightarrow> ready (sample_udp_state d)"
  by (simp add: ready_def sample_udp_state_def sample_state_def initial_state_def empty_cache_inv udp.length_enc)

lemma sample_udp_fields:
  "take 8 (rx_pkt (sample_udp_state d)) = enc_udp (udp_hdr_of 53 4000 (of_nat (8 + length d)) 0)"
  "drop 8 (rx_pkt (sample_udp_state d)) = d @ replicate (4088 - length d) 0"
  "udp_local_port (sample_udp_state d) = 4000" "dns_local_port (sample_udp_state d) = 0"
  "udp_rx_buffer (sample_udp_state d) = Some [0, 0]" "udp_rx_max_len (sample_udp_state d) = 2"
  by (simp_all add: sample_udp_state_def page_of_def udp.length_enc) (simp_all add: sample_state_def initial_state_def)

subsection \<open>A machine that is not the peer\<close>

definition stranger_at :: "u16 \<Rightarrow> state" where
  "stranger_at port = sample_state\<lparr>my_ip := 0x01010101, tcp_local_port := 9, tcp_remote_port := port\<rparr>"

lemma ready_stranger [simp]: "ready (stranger_at port)" "tcp_remote_port (stranger_at port) = port"
  using ready_sample by (simp_all add: ready_def stranger_at_def)

subsection \<open>A server and a gateway for the first minute\<close>

definition sample_lease :: lease where
  "sample_lease = \<lparr>l_ip = 0x0F02000A, l_server = 0, l_mask = 0x00FFFFFF, l_router = 0x0202000A,
     l_dns = 0x0302000A, l_time = 86400\<rparr>"

definition sample_envelope :: envelope where
  "sample_envelope = \<lparr>v_eth = sample_eth, v_ip = sample_ip\<lparr>ip_protocol := 17\<rparr>,
     v_udp = \<lparr>udp_source = htons 67, udp_dest = htons 68, udp_len = htons 548, udp_check = 0\<rparr>,
     v_dhcp = zero_dhcp\<rparr>"

definition sample_answer :: arp_hdr where
  "sample_answer = \<lparr>arp_htype = htons 1, arp_ptype = htons 0x0800, arp_hlen = 6, arp_plen = 4, arp_oper = htons 2,
     arp_sha = replicate 6 9, arp_spa = 0x0202000A, arp_tha = replicate 6 0, arp_tpa = 0x0F02000A\<rparr>"

definition boot_script :: "(nat \<times> bytes) list" where
  "boot_script = [(1, lease_frame sample_envelope 2 sample_lease), (2, lease_frame sample_envelope 5 sample_lease),
     (3, arp_frame (sample_eth\<lparr>eth_type := htons 0x0806\<rparr>) sample_answer)]"

lemma sample_envelope_ok [simp]: "envelope_ok sample_envelope"
  by (simp add: envelope_ok_def sample_envelope_def sample_eth_def sample_ip_def valid_eth_def valid_dhcp_def)

lemma sample_answer_ok [simp]: "arp_answer_ok (sample_eth\<lparr>eth_type := htons 0x0806\<rparr>) sample_answer"
  by (simp add: arp_answer_ok_def sample_answer_def sample_eth_def valid_eth_def valid_arp_def)

end
