(* ===== verification/Spec2Isabelle.thy ===== *)
theory Spec2Isabelle
  imports Net_Scenarios
begin

text \<open>
  A verification development of \<^bold>\<open>uefi-netstack\<close>, a freestanding IPv4 client stack for UEFI: DHCP, ARP,
  DNS, ICMP echo, UDP, a TCP client and an HTTP GET, over the firmware's simple network protocol.
  The program is single-threaded and keeps its state in global variables; every blocking call of
  the API polls the interface and lets the handlers change the globals.

  \<^bold>\<open>How the program is modelled.\<close>  Every function of the sources is a definition of the same name
  (\<open>rng::init\<close> is \<open>rng_init\<close>, an \<open>EfiMain\<close> is \<open>efi_main\<close> or \<open>example_\<dots>\<close>) that takes and returns the
  globals explicitly; loops and long branches are definitions of their own, next to their function.  A result of type \<open>option\<close> is \<open>None\<close> where the C++
  code has undefined behaviour: an access outside the object a pointer points into, or a call
  through a null service pointer.  Errors the code reports are \<open>EFI_STATUS\<close> values.  Integers are
  words of the declared width, so lengths wrap as on the 64-bit little-endian target, counters as in
  32 bits.  A pointer into a buffer is the buffer with a position; structures laid over a buffer are
  records read and written through their byte images.  A local array is a list of the declared
  length.  A buffer that the caller hands to a receive call is the list of its bytes, separate from
  the packet pages.
  The firmware is not code of the program.  It is the parameter \<open>E\<close> (record \<open>firmware\<close>) of the
  operations that call it: functions that answer a call from the whole history of calls.  Any
  behaviour over time is such a record; the model fixes only that \<open>Receive\<close> writes at most the
  offered size, that \<open>AllocatePages\<close> yields 4096 bytes and that \<open>OpenProtocol\<close> yields an interface
  when it succeeds.  The calls made are recorded in the field \<open>trace\<close> of the state, from which
  \<open>sent\<close> (frames transmitted, newest first), \<open>polls\<close> (receptions) and \<open>console\<close> (text printed) are read.

  \<^bold>\<open>Theories and the files they model.\<close>
  \<^item> \<open>Net_Prelude\<close>: vocabulary, rewrite collections, lemmas on lists and words.
  \<^item> \<open>Net_Memory\<close>, \<open>Net_Utils\<close>, \<open>Net_Constants\<close>, \<open>Net_Types\<close>, \<open>Net_Math\<close>, \<open>Net_Rng\<close>: \<^verbatim>\<open>memory.hpp\<close>,
    \<^verbatim>\<open>utils.hpp\<close>, \<^verbatim>\<open>constants.hpp\<close>, \<^verbatim>\<open>types.hpp\<close>, \<^verbatim>\<open>net_math.hpp\<close>, \<^verbatim>\<open>rng.hpp\<close>.
  \<^item> \<open>Net_Arp_Cache\<close>: \<^verbatim>\<open>arp_cache.hpp\<close>.  \<open>Net_Globals\<close>: \<^verbatim>\<open>globals.hpp\<close>, the firmware, the invariant \<open>ready\<close>.
  \<^item> \<open>Net_Transmit\<close> (\<open>send_raw\<close>), \<open>Net_Handle_Arp\<close>, \<open>Net_Icmp\<close>, \<open>Net_Udp\<close> (with the DNS response
    parser), \<open>Net_Tcp\<close>, \<open>Net_Poll\<close>: \<^verbatim>\<open>core.hpp\<close>.  \<open>Net_Frames\<close> holds what the packet builders share.
  \<^item> \<open>Net_Protocols\<close>: \<^verbatim>\<open>protocols.hpp\<close> (DHCP, ARP and DNS packets).
  \<^item> \<open>Net_Wait\<close> (the two forms of wait loop), \<open>Net_Api_Tcp\<close>, \<open>Net_Api\<close> (DNS, UDP, ping), \<open>Net_Http\<close>,
    \<open>Net_Dhcp\<close>, \<open>Net_Init\<close>: \<^verbatim>\<open>api.hpp\<close>.
  \<^item> \<open>Net_Console\<close>: \<^verbatim>\<open>io.hpp\<close>.  \<open>Net_Main\<close>: \<^verbatim>\<open>main.cpp\<close>.  \<open>Net_Examples\<close>: \<^verbatim>\<open>examples/\<close>.
  \<^item> Specifications and meta-theory: \<open>Net_Tcp_Spec\<close> (the abstract TCP client), \<open>Net_Tcp_Refine\<close>,
    \<open>Net_Effects\<close> (what a reception can change), \<open>Net_Safe\<close> (when a reception is defined),
    \<open>Net_Delivery\<close> (what a given received frame does), \<open>Net_Boot\<close> (a whole initialisation).
  \<^item> \<open>Net_Samples\<close>, \<open>Net_Scenarios\<close>: concrete states, frames and networks for the witnesses.

  \<^bold>\<open>Interfaces.\<close>  Each contract between components is a locale, interpreted on the code's model:
  \<open>byte_order\<close> (\<open>net16\<close>, \<open>net32\<close>); \<open>packed\<close>, the laws of a structure laid over memory (nine
  interpretations); \<open>fifo_cache\<close>, a bounded queue of bindings (\<open>arp_table\<close>); \<open>digit_loop\<close> (\<open>dec\<close>, \<open>hex\<close>);
  \<open>keeps_ready\<close>, operations that keep the invariant (all handlers and \<open>poll\<close>), with its extensions
  \<open>keeps_tcp\<close>, operations the connection does not notice, and \<open>handles\<close>, operations with at most a
  handler's effect; \<open>poll_inv\<close>, a property every poll keeps and therefore every wait loop
  (\<open>ready_inv\<close>, \<open>sane_inv\<close>, \<open>tcp_wait\<close>, \<open>silent_wait\<close>).

  \<^bold>\<open>What the properties show.\<close>  C1 to C7: the TCP handler and the API calls implement an abstract
  client (\<open>tcp_step\<close>, \<open>tcp_run\<close>), down to the frames sent.  C8, C9: \<open>http_get\<close> is one run of that
  client with the request's text.  C10, C11: the programs return.  C12 to C15: initialisation
  establishes the invariant, the DHCP loop is total on every network and requests what it binds, a
  DHCP message changes only what it may, options are read correctly.  C16 to C19: when the answers
  arrive the calls succeed, from power-on to a configured stack, an HTTP exchange, a connection and
  a ping; the answers are any a DHCP server or gateway may send, or those the same code builds at the
  peer.  C20 to C22: the calls poll at most as often as their timeouts allow.  C23: a segment built
  by one stack is read as the same segment by another.  C24 to C27: what a poll keeps, changes and
  dispatches, and that sending is exactly one transmission.  C28 to C32: the ARP table against a
  queue, the ARP and ICMP handlers.  C33 to C36: DNS and UDP.  C37 to C39: checksums against RFC
  1071, layouts, printed numbers.  C32, C36 and C40 show misbehaviour
  the code has, and so do parts of C14 (a DHCPNAK), C33 (a host name too long for the query), C34 (a
  response without a zero byte) and C35 (a datagram whose length field is too small), and the lemma
  \<open>tcp_length_underflow\<close> of \<open>Net_Tcp_Refine\<close>.

  \<^bold>\<open>Phases.\<close>  The phases of the abstract client are a linear order, that of the numbers \<open>TCP_STATE_*\<close>
  of the code (\<open>phase_word_mono\<close>).  Received segments move a connection forward in it only, or
  close it, and it then stays closed until the user opens it again (\<open>segments_forward\<close>, C24).

  \<^bold>\<open>Hypotheses.\<close>  \<open>ready s\<close> is the invariant of an initialised stack; \<open>init_network\<close> establishes it
  (C12) and every operation keeps it.  \<open>tcp_rel s c\<close> relates the globals to an abstract connection.
  \<open>sane s\<close> is both, with a posted datagram buffer of the posted size.  \<open>fresh s\<close> is the state at the
  entry of a program, \<open>booted s\<close> its part on the service tables; \<open>works E\<close> says that the firmware has
  memory and an interface that opens.  The code trusts the length fields of received frames, so whether a poll is
  defined depends on the frame: \<open>net_sound E\<close> says that segments for the local port have consistent
  lengths, \<open>net_safe E\<close> that also echo requests, datagrams and DNS messages have.  They are
  hypotheses about the network only, and witnesses apply the theorems to a silent network and to
  scripted ones.  The DHCP loop needs neither.

  \<^bold>\<open>Loops.\<close>  No loop needs fuel.  The wait loops count a 32-bit word up to a bound that is tested
  first, the transmit loop counts down, the DNS, HTTP and DHCP scanners advance a position in a
  finite buffer; each is a \<open>function\<close> with a proved measure, the other loops are structural.  So
  every operation of the model is total as a function; when its result is not \<open>None\<close> is a theorem.

  \<^bold>\<open>Not modelled.\<close>  The two forward declarations of \<^verbatim>\<open>icmp.hpp\<close>, which nothing defines; the stack
  probe \<open>__chkstk\<close>, an empty function for the compiler; the project files; the firmware and the
  headers of EDK2, as said above.  Time is not modelled: a \<open>Stall\<close> is an event without duration, so
  bounds are in polls.  The address ranges of buffers are not modelled, so neither is the request
  for pages below 4 GB.
\<close>

subsection \<open>The TCP client\<close>

text \<open>
  C1.  On a received segment for the local port whose lengths are consistent, \<open>handle_tcp\<close> is defined,
  makes a step of the abstract TCP client for that segment, keeps the relation between the globals
  and the abstract connection (phase, numbers, delivered bytes within the posted buffer), and hands
  the interface exactly the frames of the step's outgoing segments, in order.
\<close>

theorem tcp_handler_simulation:
  assumes "ready s" "tcp_rel s c" "seg_ok ip (rx_pkt s) p" "tcp_local s p"
  shows "\<exists>s' c' out. handle_tcp E ip p dl s = Some s' \<and> ready s' \<and> tcp_rel s' c' \<and>
    tcp_step c (Segment (seg_of ip (rx_pkt s) p)) out c' \<and> emits s out s'"
  using handle_tcp_refines [OF assms, of E dl] by blast

theorem tcp_handler_simulation_witness:
  "\<exists>s' c' out. handle_tcp silent_net sample_ip 34 23 (sample_conn_state 0x18) = Some s' \<and> ready s' \<and>
    tcp_rel s' c' \<and>
    tcp_step sample_conn (Segment (seg_of sample_ip (rx_pkt (sample_conn_state 0x18)) 34)) out c' \<and>
    emits (sample_conn_state 0x18) out s'"
  by (rule tcp_handler_simulation) simp_all

text \<open>
  C2.  \<open>send_tcp_internal\<close> with a payload that fits hands exactly one frame to the interface, the frame
  \<open>tcp_frame\<close> with the given flags, numbers and payload; its IPv4 header describes it, and the header
  checksum and the TCP checksum verify.
\<close>

theorem tcp_segments_sent:
  assumes "ready s" "length d \<le> 1446" "payload_arg data d"
  shows "\<exists>s' i. send_tcp_internal E flags seq ack data (of_nat (length d)) s = Some s' \<and> ready s' \<and>
    sent s' = tcp_frame s i flags seq ack d # sent s \<and>
    ipv4_wf (tcp_frame s i flags seq ack d) \<and> transport_wf (tcp_frame s i flags seq ack d)"
proof -
  let ?s = "snd (get_u32 s)" and ?i = "ucast (fst (get_u32 s) AND 0xFFFF) :: u16"
  have r: "ready ?s" "sent ?s = sent s" using assms(1) by (simp_all add: get_u32_def Let_def sent_def)
  obtain s' where "send_frame E (tcp_frame s ?i flags seq ack d) ?s = Some s'"
    "sends ?s (tcp_frame s ?i flags seq ack d) s'" "ready s'"
    using send_frame_ready [OF r(1), of "tcp_frame s ?i flags seq ack d" E] assms(1,2)
    by (auto simp: length_tcp_frame)
  then show ?thesis
    using send_tcp_eq [OF assms] sends_sent r(2) tcp_frame_wf [OF assms(1,2)] by metis
qed

theorem tcp_segments_sent_witness:
  "\<exists>s' i. send_tcp_internal silent_net 0x18 7 9 (Some [1, 2, 3, 4]) (of_nat (length [1, 2, 3 :: u8])) sample_state = Some s' \<and>
    ready s' \<and> sent s' = tcp_frame sample_state i 0x18 7 9 [1, 2, 3] # sent sample_state \<and>
    ipv4_wf (tcp_frame sample_state i 0x18 7 9 [1, 2, 3]) \<and> transport_wf (tcp_frame sample_state i 0x18 7 9 [1, 2, 3])"
  by (rule tcp_segments_sent) (simp_all add: payload_arg_def)





text \<open>
  C5.  On an established connection \<open>tcp_send\<close> with a payload of at most 1446 bytes succeeds: exactly one
  segment is sent, PSH+ACK with the current numbers and the whole payload, and the connection makes
  the \<open>Push\<close> step of the abstract client, which advances the sequence number by the length.
\<close>

theorem tcp_send_pushes:
  assumes "ready s" "tcp_rel s c" "c_phase c = Established" "payload_arg data d" "length d \<le> 1446"
  shows "\<exists>s' c'. tcp_send E data (of_nat (length d)) s = Some (EFI_SUCCESS, s') \<and> ready s' \<and>
    tcp_step c (Push d) [(0x18, c_seq c, c_ack c, d)] c' \<and> tcp_rel s' c' \<and>
    c_seq c' = c_seq c + of_nat (length d) \<and> emits s [(0x18, c_seq c, c_ack c, d)] s'"
proof -
  obtain s' c' where "tcp_send E data (of_nat (length d)) s = Some (EFI_SUCCESS, s')" "ready s'"
    "tcp_step c (Push d) [(0x18, c_seq c, c_ack c, d)] c'" "tcp_rel s' c'" "emits s [(0x18, c_seq c, c_ack c, d)] s'"
    using tcp_send_run [OF assms] by blast
  moreover from this(3) have "c_seq c' = c_seq c + of_nat (length d)" by (cases rule: tcp_step.cases) auto
  ultimately show ?thesis by blast
qed

theorem tcp_send_pushes_witness:
  "\<exists>s' c'. tcp_send silent_net (Some [1, 2, 3, 4]) (of_nat (length [1, 2, 3 :: u8])) (sample_conn_state 0x18) = Some (EFI_SUCCESS, s') \<and>
    ready s' \<and> tcp_step sample_conn (Push [1, 2, 3]) [(0x18, c_seq sample_conn, c_ack sample_conn, [1, 2, 3])] c' \<and>
    tcp_rel s' c' \<and> c_seq c' = c_seq sample_conn + of_nat (length [1, 2, 3 :: u8]) \<and>
    emits (sample_conn_state 0x18) [(0x18, c_seq sample_conn, c_ack sample_conn, [1, 2, 3])] s'"
  by (rule tcp_send_pushes) (simp_all add: payload_arg_def)

text \<open>
  C6.  \<open>tcp_send\<close> on a connection that is not established returns \<open>EFI_NOT_READY\<close>, sends nothing and
  changes nothing.  On an established one a payload of more than 1446 bytes leaves the 1500 byte
  array of \<open>send_tcp_internal\<close>: the model has no result, the code overruns its stack frame.
\<close>

theorem tcp_send_refused:
  "(tcp_state s \<noteq> TCP_STATE_ESTABLISHED \<longrightarrow> tcp_send E data len s = Some (EFI_NOT_READY, s)) \<and>
   (tcp_state s = TCP_STATE_ESTABLISHED \<and> 1446 < unat len \<longrightarrow> tcp_send E (Some d) len s = None)"
  using tcp_send_closed [of s E data len] tcp_send_overflow [of s len E d] by (simp add: TCP_STATE_ESTABLISHED_def)

theorem tcp_send_refused_witness:
  "tcp_send silent_net (Some [1]) 1 sample_state = Some (EFI_NOT_READY, sample_state) \<and>
   tcp_send silent_net (Some (replicate 2000 0)) 1447 (sample_conn_state 0x18) = None"
  using tcp_send_refused [of sample_state silent_net "Some [1]" 1 "[]"]
    tcp_send_refused [of "sample_conn_state 0x18" silent_net None 1447 "replicate 2000 0"]
  by (simp add: sample_state_def initial_state_def sample_conn_state_def TCP_STATE_ESTABLISHED_def)



subsection \<open>HTTP\<close>



text \<open>
  C9.  The request array of \<open>http_get\<close> holds the text of the GET request for the path and the host, cut off
  at 511 bytes and zero filled to 512, whatever the lengths of the two strings; the offset it
  returns is the number of bytes copied.
\<close>

theorem http_request_text:
  assumes "0 \<in> set hostname" "0 \<in> set path"
  shows "\<exists>req n. build_request hostname path = Some (req, n) \<and> length req = 512 \<and> n \<le> 511 \<and>
    take n req = take 511 (request_text (cstring hostname) (cstring path)) \<and> (\<forall>i. n \<le> i \<and> i < 512 \<longrightarrow> req ! i = 0)"
proof -
  let ?r = "request_array (request_text (cstring hostname) (cstring path))"
  have "build_request hostname path = Some (fst ?r, snd ?r)" using build_request_eq [OF assms] by simp
  moreover have "length (fst ?r) = 512" "snd ?r \<le> 511" "\<forall>i. snd ?r \<le> i \<and> i < 512 \<longrightarrow> fst ?r ! i = 0"
    "take (snd ?r) (fst ?r) = take 511 (request_text (cstring hostname) (cstring path))"
    by (auto simp: request_array_def nth_append min_def)
  ultimately show ?thesis by blast
qed

theorem http_request_text_witness:
  "\<exists>req n. build_request (ascii_z ''a.b'') (ascii_z ''/'') = Some (req, n) \<and> length req = 512 \<and> n \<le> 511 \<and>
    take n req = take 511 (request_text (cstring (ascii_z ''a.b'')) (cstring (ascii_z ''/''))) \<and> (\<forall>i. n \<le> i \<and> i < 512 \<longrightarrow> req ! i = 0)"
  by (rule http_request_text) simp_all

subsection \<open>Programs\<close>



text \<open>
  C11.  On a safe network each of the six example programs returns, with an error or with success and the
  stack in a sane state: every buffer, message and name they pass is within the bounds the API needs.
\<close>

theorem examples_return:
  assumes "fresh (enter h s)" "net_safe E"
    "program \<in> {example_dns_lookup, example_http_get, example_ping, example_static_ip, example_tcp_client, example_udp_echo}"
  shows "\<exists>st s'. program E h s = Some (st, s') \<and> (EFI_ERROR st \<or> st = EFI_SUCCESS \<and> sane s')"
proof -
  have "returns ends (program E h s)"
    using assms dns_lookup_ends http_get_ends ping_ends static_ip_ends tcp_client_ends udp_echo_ends by blast
  then show ?thesis by (auto simp: returns_def ends_def)
qed

theorem examples_return_witness:
  "\<exists>st s'. example_udp_echo silent_net 7 initial_state = Some (st, s') \<and> (EFI_ERROR st \<or> st = EFI_SUCCESS \<and> sane s')"
  by (rule examples_return) simp_all

subsection \<open>Initialisation and DHCP\<close>



text \<open>
  C13.  The DHCP loop returns on every network, whatever frames arrive: no option list and no length makes it
  leave the receive page.  It keeps the stack initialised and does not touch the connection or the
  posted buffers, and when it ends bound, the REQUEST for the held address, with this transaction
  number, is among the frames sent.
\<close>

theorem dhcp_loop_safe:
  assumes "ready s"
  shows "\<exists>d s'. dhcp_loop E xid 0 0 0 s = Some (d, s') \<and> d \<le> 2 \<and> ready s' \<and> users_of s' = users_of s \<and>
    (d = DHCP_STATE_BOUND \<longrightarrow> dhcp_frame s' DHCP_MSG_REQUEST xid \<in> set (sent s'))"
  using dhcp_loop_total [OF dhcp_start_inv [OF assms], of E xid 0]
  by (auto simp: dhcp_inv_def requested_def const_vals)

theorem dhcp_loop_safe_witness:
  "\<exists>d s'. dhcp_loop silent_net 5 0 0 0 sample_state = Some (d, s') \<and> d \<le> 2 \<and> ready s' \<and> users_of s' = users_of sample_state \<and>
    (d = DHCP_STATE_BOUND \<longrightarrow> dhcp_frame s' DHCP_MSG_REQUEST 5 \<in> set (sent s'))"
  by (rule dhcp_loop_safe) simp



text \<open>
  C15.  On a page holding an encoded option list followed by the end mark, within the scan limit, the parser
  applies every option in order: message type, router, DNS server, subnet mask and lease time are
  taken from their first bytes, pads and other options have no effect.
\<close>

theorem dhcp_options_read:
  assumes "rx_pkt s = a @ concat (map enc_opt os) @ 255 # r" "list_all opt_ok os" "base \<le> length a"
    "length a + length (concat (map enc_opt os)) \<le> base + 250" "base + 507 \<le> length (rx_pkt s)"
  shows "scan_options base (length a) (m, s) = Some (fold opt_effect os (m, s))"
  using scan_options_enc [of "(m, s)" a os r base] assms by simp

theorem dhcp_options_read_witness:
  "scan_options 4 (length [9, 9, 9, 9 :: u8]) (0, sample_state\<lparr>rx_pkt := page_of ([9, 9, 9, 9] @ [53, 1, 2, 0, 3, 4, 10, 0, 2, 2, 255])\<rparr>) =
     Some (2, sample_state\<lparr>rx_pkt := page_of ([9, 9, 9, 9] @ [53, 1, 2, 0, 3, 4, 10, 0, 2, 2, 255]), router_ip := 0x0202000A\<rparr>)"
  using dhcp_options_read [of "sample_state\<lparr>rx_pkt := page_of ([9, 9, 9, 9] @ [53, 1, 2, 0, 3, 4, 10, 0, 2, 2, 255])\<rparr>"
      "[9, 9, 9, 9]" "[Opt 53 [2], Pad, Opt 3 [10, 0, 2, 2]]" "replicate 4081 0" 4 0]
  by (simp add: page_of_def option_effect_def dec32_Cons)

subsection \<open>Answers that arrive\<close>

text \<open>
  C16.  From power-on to a configured stack: on firmware with memory and an interface that opens, when a
  server's OFFER and ACK and the gateway's ARP reply are the first three frames received, \<open>init_network\<close>
  succeeds after exactly these receptions, whatever the messages hold that the client does not read.
  The address is that of the OFFER, mask, router, name server and lease time are those of the ACK,
  the gateway's hardware address is in place and in the ARP table, and what was sent is a DISCOVER, a
  REQUEST for the offered address to the offering server, and the ARP request, in this order.
\<close>

theorem init_network_succeeds:
  assumes "booted s" "works E" "envelope_ok v1" "envelope_ok v2" "l_router l2 \<noteq> 0" "arp_answer_ok e a" "arp_spa a = l_router l2"
    and "\<And>tr. receptions tr = polls s + 1 \<Longrightarrow> fw_receive E tr = (EFI_SUCCESS, lease_frame v1 DHCP_MSG_OFFER l1)"
    and "\<And>tr. receptions tr = polls s + 2 \<Longrightarrow> fw_receive E tr = (EFI_SUCCESS, lease_frame v2 DHCP_MSG_ACK l2)"
    and "\<And>tr. receptions tr = polls s + 3 \<Longrightarrow> fw_receive E tr = (EFI_SUCCESS, arp_frame e a)"
  shows "\<exists>s' s0 s1 s2 xid. init_network E s = Some (EFI_SUCCESS, s') \<and> ready s' \<and> polls s' = polls s + 3 \<and>
    my_ip s' = l_ip l1 \<and> subnet_mask s' = l_mask l2 \<and> router_ip s' = l_router l2 \<and> dns_server_ip s' = l_dns l2 \<and>
    dhcp_lease_time s' = l_time l2 \<and> router_mac s' = arp_sha a \<and> lookup (cache s') (l_router l2) = Some (arp_sha a) \<and>
    sent s' = [arp_request_frame s2 (l_router l2), dhcp_frame s1 DHCP_MSG_REQUEST xid, dhcp_frame s0 DHCP_MSG_DISCOVER xid] @ sent s \<and>
    my_ip s1 = l_ip l1 \<and> dhcp_server_ip s1 = (if l_server l1 = 0 then ip_saddr (v_ip v1) else l_server l1) \<and>
    my_ip s2 = l_ip l1"
  using init_answered [OF assms(1-7), of l1] assms(8-10) by (simp add: DHCP_MSG_OFFER_def DHCP_MSG_ACK_def DHCP_MSG_REQUEST_def DHCP_MSG_DISCOVER_def)

theorem init_network_succeeds_witness:
  "\<exists>s'. init_network (script_net boot_script) (enter 0 initial_state) = Some (EFI_SUCCESS, s') \<and>
    my_ip s' = 0x0F02000A \<and> router_ip s' = 0x0202000A \<and> router_mac s' = replicate 6 9"
proof -
  have E: "works (script_net boot_script)" by (simp add: works_def script_net_def silent_net_def)
  have p: "polls (enter 0 initial_state) = 0" by (simp add: polls_def enter_def initial_state_def)
  have l: "l_router sample_lease \<noteq> 0" "arp_spa sample_answer = l_router sample_lease"
    by (simp_all add: sample_lease_def sample_answer_def)
  have f1: "fw_receive (script_net boot_script) tr = (EFI_SUCCESS, lease_frame sample_envelope DHCP_MSG_OFFER sample_lease)"
    if "receptions tr = polls (enter 0 initial_state) + 1" for tr
    by (rule script_net_receive [OF that]) (simp add: p boot_script_def DHCP_MSG_OFFER_def)
  have f2: "fw_receive (script_net boot_script) tr = (EFI_SUCCESS, lease_frame sample_envelope DHCP_MSG_ACK sample_lease)"
    if "receptions tr = polls (enter 0 initial_state) + 2" for tr
    by (rule script_net_receive [OF that]) (simp add: p boot_script_def DHCP_MSG_ACK_def)
  have f3: "fw_receive (script_net boot_script) tr = (EFI_SUCCESS, arp_frame (sample_eth\<lparr>eth_type := htons 0x0806\<rparr>) sample_answer)"
    if "receptions tr = polls (enter 0 initial_state) + 3" for tr
    by (rule script_net_receive [OF that]) (simp add: p boot_script_def)
  have "l_ip sample_lease = 0x0F02000A" "l_router sample_lease = 0x0202000A" "arp_sha sample_answer = replicate 6 9"
    by (simp_all add: sample_lease_def sample_answer_def)
  then show ?thesis
    using init_network_succeeds [OF booted_initial [of 0] E sample_envelope_ok sample_envelope_ok l(1) sample_answer_ok l(2) f1 f2 f3]
    by metis
qed

text \<open>
  C17.  On a network that answers, \<open>http_get\<close> succeeds: when the name server's response to the query, the
  SYN+ACK for the connection and one segment with data and FIN are the first three frames received,
  it returns success after exactly these receptions, with the data, cut off at the capacity, in the
  caller's buffer and the connection closed.  The frames are those the same code builds at the peers.
\<close>

theorem http_get_succeeds:
  assumes "ready s" "tcp_rel s c"
    and "0 \<in> set hostname" "length (cstring hostname) \<le> 540" "0 \<in> set path"
    and "0 < max_len" "unat max_len \<le> length buf"
    and "ready server" "length (enc_response (dns_current_id (dns_prepare s)) flags qs rs ns ar) \<le> 1458"
      "udp_local_port s \<noteq> dns_local_port (dns_prepare s)" "flags AND 0x8000 \<noteq> 0" "list_all question_ok qs" "length qs < 65536"
      "list_all rr_ok rs" "length rs < 65536" "List.find is_a rs = Some r"
    and "ready peer" "tcp_remote_port peer = tcp_local_port (syn_prepare (dec32 (rr_data r)) 0x50 (dns_prepare s))"
    and "length d \<le> 1446" "d \<noteq> []"
    and "\<And>tr. receptions tr = polls s + 1 \<Longrightarrow> fw_receive E tr = (EFI_SUCCESS,
      udp_frame server i1 da 53 (dns_local_port (dns_prepare s)) (enc_response (dns_current_id (dns_prepare s)) flags qs rs ns ar))"
    and "\<And>tr. receptions tr = polls s + 2 \<Longrightarrow> fw_receive E tr = (EFI_SUCCESS, tcp_frame peer i2 0x12 seq ack [])"
    and "\<And>tr. receptions tr = polls s + 3 \<Longrightarrow> fw_receive E tr = (EFI_SUCCESS, tcp_frame peer i3 0x19 seq' ack' d)"
  shows "\<exists>buf' n s'. http_get E hostname path (Some buf) max_len k0 s = Some (EFI_SUCCESS, Some buf', n, s') \<and>
    take (unat n) buf' = take (unat max_len) d \<and> unat n = min (length d) (unat max_len) \<and> length buf' = length buf \<and>
    ready s' \<and> tcp_state s' = TCP_STATE_CLOSED \<and> polls s' = polls s + 3"
  by (rule http_get_answered [OF assms])

theorem http_get_succeeds_witness:
  "\<exists>buf' n s'. http_get (script_net http_script) (ascii_z ''a.b'') (ascii_z ''/'') (Some (replicate 64 0)) 63 0 sample_state =
      Some (EFI_SUCCESS, Some buf', n, s') \<and>
    take (unat n) buf' = take (unat (63 :: u64)) [72, 73] \<and> unat n = min (length [72, 73 :: u8]) (unat (63 :: u64)) \<and>
    length buf' = length (replicate 64 (0 :: u8)) \<and> ready s' \<and> tcp_state s' = TCP_STATE_CLOSED \<and> polls s' = polls sample_state + 3"
proof (rule http_get_succeeds)
  show "fw_receive (script_net http_script) tr = (EFI_SUCCESS, udp_frame sample_state 1 0x0F02000A 53 (dns_local_port (dns_prepare sample_state))
      (enc_response (dns_current_id (dns_prepare sample_state)) 0x8180 [sample_question] [sample_rr] 0 0))"
    if "receptions tr = polls sample_state + 1" for tr
    by (rule script_net_receive [OF that]) (simp add: http_script_def)
  show "fw_receive (script_net http_script) tr = (EFI_SUCCESS, tcp_frame http_peer 2 0x12 1000 1 [])"
    if "receptions tr = polls sample_state + 2" for tr
    by (rule script_net_receive [OF that]) (simp add: http_script_def)
  show "fw_receive (script_net http_script) tr = (EFI_SUCCESS, tcp_frame http_peer 3 0x19 1001 2 [72, 73])"
    if "receptions tr = polls sample_state + 3" for tr
    by (rule script_net_receive [OF that]) (simp add: http_script_def)
  show "udp_local_port sample_state \<noteq> dns_local_port (dns_prepare sample_state)"
    using dns_prepare_keeps(1) [of sample_state] by (simp add: sample_state_def initial_state_def)
  show "tcp_rel sample_state idle_conn" by simp
  show "tcp_remote_port http_peer = tcp_local_port (syn_prepare (dec32 (rr_data sample_rr)) 0x50 (dns_prepare sample_state))"
    by (simp add: peer_ports)
qed (simp_all add: order_trans [OF length_cstring_ascii])

text \<open>
  C18.  The three-way handshake: when the peer's SYN+ACK, with its numbers, is the first frame received,
  \<open>tcp_connect\<close> succeeds after one poll.  The connection then has the peer's numbers, and exactly two
  frames were sent: the SYN with the initial number, and the ACK of the peer's number plus one.
\<close>

theorem tcp_connect_succeeds:
  assumes "ready s" "tcp_rel s c" "ready peer" "tcp_remote_port peer = tcp_local_port (syn_prepare ip port s)"
    and "\<And>tr. receptions tr = polls s + 1 \<Longrightarrow> fw_receive E tr = (EFI_SUCCESS, tcp_frame peer i 0x12 seq ack [])"
  shows "\<exists>s' c' j1 j2. tcp_connect E ip port s = Some (EFI_SUCCESS, s') \<and> ready s' \<and> tcp_rel s' c' \<and>
    c_phase c' = Established \<and> c_seq c' = ack \<and> c_ack c' = seq + 1 \<and> polls s' = polls s + 1 \<and>
    sent s' = tcp_frame s' j2 0x10 ack (seq + 1) [] #
      tcp_frame s' j1 0x02 (tcp_seq (syn_prepare ip port s)) 0 [] # sent s"
  using tcp_connect_answered [OF assms] by blast

theorem tcp_connect_succeeds_witness:
  "\<exists>s' c' j1 j2. tcp_connect (script_net [(1, tcp_frame connect_peer 2 0x12 1000 1 [])]) 0x0101A8C0 80 sample_state = Some (EFI_SUCCESS, s') \<and>
    ready s' \<and> tcp_rel s' c' \<and> c_phase c' = Established \<and> c_seq c' = 1 \<and> c_ack c' = 1000 + 1 \<and> polls s' = polls sample_state + 1 \<and>
    sent s' = tcp_frame s' j2 0x10 1 (1000 + 1) [] #
      tcp_frame s' j1 0x02 (tcp_seq (syn_prepare 0x0101A8C0 80 sample_state)) 0 [] # sent sample_state"
proof (rule tcp_connect_succeeds [OF ready_sample rel_sample ready_peers(2) peer_ports(2)])
  show "fw_receive (script_net [(1, tcp_frame connect_peer 2 0x12 1000 1 [])]) tr = (EFI_SUCCESS, tcp_frame connect_peer 2 0x12 1000 1 [])"
    if "receptions tr = polls sample_state + 1" for tr
    by (rule script_net_receive [OF that]) simp
qed

text \<open>
  C19.  A ping whose answer comes in time succeeds: if the frame received at some reception before the
  timeout is the reply that a peer running this code makes to the request, \<open>ping\<close> returns success,
  whatever the other receptions bring, as long as the network is safe.
\<close>

theorem ping_succeeds:
  assumes "sane s" "net_safe E" "ready peer" "k < unat (ms * 10)"
    and "\<And>tr. receptions tr = polls s + k + 1 \<Longrightarrow>
      fw_receive E tr = (EFI_SUCCESS, icmp_reply_frame peer i (my_ip s) (drop 34 (echo_request s ip)))"
  shows "\<exists>s'. ping E ip ms s = Some (EFI_SUCCESS, s')"
  using ping_answered [OF assms(1-4), of i ip] assms(5) by (simp add: echo_answer_def)

theorem ping_succeeds_witness:
  "\<exists>s'. ping (script_net ping_script) 0x0202000A 3000 sample_state = Some (EFI_SUCCESS, s')"
proof (rule ping_succeeds [OF sane_sample ping_script_safe ready_sample, of 2])
  show "fw_receive (script_net ping_script) tr =
      (EFI_SUCCESS, icmp_reply_frame sample_state 9 (my_ip sample_state) (drop 34 (echo_request sample_state 0x0202000A)))"
    if "receptions tr = polls sample_state + 2 + 1" for tr
    unfolding echo_answer_def [symmetric] by (rule script_net_receive [OF that]) (simp add: ping_script_def)
qed simp

text \<open>
  C20.  On a safe network \<open>ping\<close> returns, with success exactly when a matching reply was seen.  It polls at
  most \<open>ms * 10\<close> times, the product taken in 32 bits, and exactly that often when it times out, which
  on a silent network it always does.
\<close>

theorem ping_bounded:
  assumes "sane s" "net_safe E"
  shows "\<exists>st s'. ping E ip ms s = Some (st, s') \<and> sane s' \<and> (st = EFI_SUCCESS \<or> st = EFI_TIMEOUT) \<and>
    (st = EFI_SUCCESS \<longleftrightarrow> ping_reply_received s') \<and> polls s' \<le> polls s + unat (ms * 10) \<and>
    (st = EFI_TIMEOUT \<longrightarrow> polls s' = polls s + unat (ms * 10)) \<and> (silent E \<longrightarrow> st = EFI_TIMEOUT)"
proof -
  obtain st s' where p: "ping E ip ms s = Some (st, s')" "sane s'" using ping_total [OF assms] by blast
  have "ready s" using assms(1) by (simp add: sane_def)
  from ping_result [OF this p(1)] p ping_silent [OF assms(1), of E ip ms] show ?thesis by fastforce
qed

theorem ping_bounded_witness:
  "\<exists>s'. ping silent_net 0x0202000A 3000 sample_state = Some (EFI_TIMEOUT, s') \<and> polls s' = polls sample_state + 30000"
  using ping_bounded [OF sane_sample safe_silent_net(1), of "0x0202000A" 3000] by auto



text \<open>
  C22.  On a safe network \<open>udp_receive\<close> returns.  The caller's buffer comes back with its length and is no
  longer posted, the reported length lies within it, success is reported exactly when a datagram was
  delivered, and a timeout comes after exactly \<open>ms * 10\<close> polls.
\<close>

theorem udp_receive_bounded:
  assumes "sane s" "net_safe E" "unat max_len \<le> length buf"
  shows "\<exists>st buf' n s'. udp_receive E (Some buf) max_len ms s = Some (st, Some buf', n, s') \<and> sane s' \<and>
    udp_rx_buffer s' = None \<and> length buf' = length buf \<and> unat n \<le> length buf' \<and>
    (st = EFI_SUCCESS \<or> st = EFI_TIMEOUT) \<and> (st = EFI_SUCCESS \<longleftrightarrow> udp_rx_done s') \<and>
    polls s' \<le> polls s + unat (ms * 10) \<and> (st = EFI_TIMEOUT \<longrightarrow> polls s' = polls s + unat (ms * 10))"
proof -
  obtain st buf' n s' where u: "udp_receive E (Some buf) max_len ms s = Some (st, Some buf', n, s')" "sane s'"
    "unat n \<le> length buf'" "length buf' = length buf" using udp_receive_total [OF assms, of ms] by blast
  have "ready s" using assms(1) by (simp add: sane_def)
  from udp_receive_result [OF this u(1)] u show ?thesis by auto
qed

theorem udp_receive_bounded_witness:
  "\<exists>st buf' n s'. udp_receive silent_net (Some (replicate 512 0)) 511 5000 sample_state = Some (st, Some buf', n, s') \<and> sane s' \<and>
    udp_rx_buffer s' = None \<and> length buf' = length (replicate 512 (0 :: u8)) \<and> unat n \<le> length buf' \<and>
    (st = EFI_SUCCESS \<or> st = EFI_TIMEOUT) \<and> (st = EFI_SUCCESS \<longleftrightarrow> udp_rx_done s') \<and>
    polls s' \<le> polls sample_state + unat (5000 * 10 :: u32) \<and>
    (st = EFI_TIMEOUT \<longrightarrow> polls s' = polls sample_state + unat (5000 * 10 :: u32))"
  by (rule udp_receive_bounded) simp_all



subsection \<open>Receiving\<close>



text \<open>
  C25.  On every network a \<open>poll\<close> that returns made exactly one reception, keeps the stack initialised and
  leaves its configuration alone: own addresses, gateway, ports, identifiers of the pending requests
  and the sizes of the posted buffers.  No completion flag is taken back.
\<close>

theorem poll_effects:
  assumes "ready s" "poll E s = Some s'"
  shows "ready s' \<and> polls s' = polls s + 1 \<and> config_of s' = config_of s \<and>
    (arp_resolved s \<longrightarrow> arp_resolved s') \<and> (dns_resolved s \<longrightarrow> dns_resolved s') \<and>
    (ping_reply_received s \<longrightarrow> ping_reply_received s') \<and> (udp_rx_done s \<longrightarrow> udp_rx_done s') \<and>
    (tcp_rx_done s \<longrightarrow> tcp_rx_done s')"
  using poll_effect [OF assms] poll_op.op_ready [OF assms] by (simp add: flags_kept_def)

theorem poll_effects_witness:
  "polls (received [] sample_state) = polls sample_state + 1 \<and> config_of (received [] sample_state) = config_of sample_state"
proof -
  have "poll silent_net sample_state = Some (received [] sample_state)"
    using poll_eq [OF ready_sample, of silent_net EFI_NOT_READY "[]"] by (simp add: silent_net_def)
  from poll_effects [OF ready_sample this] show ?thesis by blast
qed



subsection \<open>Sending\<close>

text \<open>
  C27.  Whatever statuses the firmware reports, \<open>send_raw\<close> hands exactly one frame to the interface, the first
  \<open>len\<close> bytes of the data, between polls and stalls only, and changes nothing but the transmit page.
  It returns even when the transmission never completes.  A length beyond the page leaves it.
\<close>

theorem send_raw_one_frame:
  assumes "ready s"
  shows "(len \<le> length data \<and> len \<le> 4096 \<longrightarrow>
      (\<exists>status s'. send_raw E data len s = Some (status, s') \<and> ready s' \<and> sent s' = take len data # sent s \<and>
        s' = s\<lparr>tx_pkt := tx_pkt s', trace := trace s'\<rparr>)) \<and>
    (4096 < len \<longrightarrow> send_raw E data len s = None)"
proof (intro conjI impI)
  assume "len \<le> length data \<and> len \<le> 4096"
  then obtain status s' where r: "send_raw E data len s = Some (status, s')" and snd: "sends s (take len data) s'"
    using send_raw_ready [OF assms] by blast
  then show "\<exists>status s'. send_raw E data len s = Some (status, s') \<and> ready s' \<and> sent s' = take len data # sent s \<and>
      s' = s\<lparr>tx_pkt := tx_pkt s', trace := trace s'\<rparr>"
    using sends_sent [OF snd] sends_ready [OF snd assms] by (auto simp: sends_def)
qed (use send_raw_overrun ready_fields(4) [OF assms] in simp)

theorem send_raw_one_frame_witness:
  "\<exists>status s'. send_raw silent_net [1, 2, 3, 4] 3 sample_state = Some (status, s') \<and> sent s' = [1, 2, 3] # sent sample_state"
  using send_raw_one_frame [OF ready_sample, of 3 "[1, 2, 3, 4]" silent_net] by auto

subsection \<open>The ARP table\<close>

text \<open>
  C28.  The ARP table implements a queue of at most eight bindings, oldest first: \<open>lookup\<close> reads the queue,
  \<open>update\<close> changes a present binding in place and otherwise appends, dropping the oldest of a full
  queue, \<open>flush\<close> empties it, and all three keep the invariant of the table.
\<close>

theorem arp_table_refines_queue:
  assumes "cache_inv c" "length mac = 6"
  shows "lookup c ip = map_of (cache_queue c) ip \<and> length (cache_queue c) \<le> 8 \<and>
    distinct (map fst (cache_queue c)) \<and>
    cache_inv (update c ip mac) \<and> cache_queue (update c ip mac) = queue_update 8 ip mac (cache_queue c) \<and>
    cache_inv (flush c) \<and> cache_queue (flush c) = []"
  using assms arp_table.get_queue arp_table.queue_cap arp_table.queue_distinct arp_table.put_inv
    arp_table.put_queue arp_table.clear_inv arp_table.clear_queue
  by (simp add: mac_ok_def)

theorem arp_table_refines_queue_witness:
  "cache_queue (update empty_cache 0x0202000A [1, 2, 3, 4, 5, 6]) = [(0x0202000A, [1, 2, 3, 4, 5, 6])]"
  using arp_table_refines_queue [OF empty_cache_inv(1), of "[1, 2, 3, 4, 5, 6]" "0x0202000A"]
  by (simp add: empty_cache_inv(2) queue_update_def)

text \<open>
  C29.  A binding entered for an address that was not in the table is found there through any sequence of at
  most seven updates of other addresses: the table forgets only its oldest binding.
\<close>

theorem arp_binding_survives:
  assumes "cache_inv c" "lookup c ip = None" "length mac = 6" "\<forall>(ip', mac') \<in> set others. ip' \<noteq> ip \<and> length mac' = 6"
    "length others \<le> 7"
  shows "lookup (fold (\<lambda>(ip, mac) c. update c ip mac) others (update c ip mac)) ip = Some mac"
  using arp_table.survives [of c ip mac others] assms by (simp add: arp_table.puts_def mac_ok_def)

theorem arp_binding_survives_witness:
  "lookup (fold (\<lambda>(ip, mac) c. update c ip mac) [(1, replicate 6 1), (2, replicate 6 2), (3, replicate 6 3)]
     (update empty_cache 9 (replicate 6 9))) 9 = Some (replicate 6 9)"
  by (rule arp_binding_survives) (simp_all add: empty_cache_inv arp_table.get_queue)

subsection \<open>The handlers\<close>

text \<open>
  C30.  What \<open>handle_arp\<close> does with a packet: a reply enters its sender in the table, resolves the awaited
  address and sets the gateway's MAC when it is the gateway's; a request for the own, non-zero
  address is answered by exactly one ARP reply to the sender; every other packet has no effect.
\<close>

theorem arp_frame_handled:
  assumes "ready s" "p + 28 \<le> 4096"
  defines "a \<equiv> dec_arp (take 28 (drop p (rx_pkt s)))"
  shows "\<exists>s'. handle_arp E p s = Some s' \<and> ready s' \<and>
    (if ntohs (arp_oper a) = ARP_OPER_REPLY
     then s' = s\<lparr>cache := update (cache s) (arp_spa a) (arp_sha a),
       arp_target_mac := (if arp_spa a = arp_target_ip s then arp_sha a else arp_target_mac s),
       arp_resolved := (arp_resolved s \<or> arp_spa a = arp_target_ip s),
       router_mac := (if arp_spa a = router_ip s then arp_sha a else router_mac s)\<rparr>
     else if ntohs (arp_oper a) = ARP_OPER_REQUEST \<and> arp_tpa a = my_ip s \<and> my_ip s \<noteq> 0
     then sends s (arp_reply_frame s a) s'
     else s' = s)"
proof -
  have a: "a = dec_arp (take 28 (drop p (rx_pkt s)))" by (simp add: a_def)
  obtain s' where h: "handle_arp E p s = Some s'" "ready s'" using handle_arp_total [OF assms(1,2)] by blast
  show ?thesis
    by (rule handle_arp_cases [OF assms(1,2) a, of E]; use h in \<open>simp add: arp_learn_def const_vals; blast?\<close>)
qed

theorem arp_frame_handled_witness:
  "\<exists>s'. handle_arp silent_net 14 (sample_state\<lparr>rx_pkt := page_of (replicate 20 1)\<rparr>) = Some s' \<and> ready s'"
  using arp_frame_handled [OF ready_sample_page, of "replicate 20 1" 14 silent_net] by auto

text \<open>
  C31.  An echo request of \<open>n\<close> bytes, \<open>8 \<le> n \<le> 1466\<close>, is answered by exactly one frame to the sender of the
  packet: type and code zero, identifier, sequence number and data those of the request, total length
  and IP header checksum right, ICMP checksum over the whole message verifying.
\<close>

theorem icmp_echo_answered:
  assumes "ready s" "8 \<le> n" "n \<le> 1466" "p + n \<le> 4096" "rx_pkt s ! p = ICMP_TYPE_ECHO_REQUEST" "rx_pkt s ! (p + 1) = 0"
  shows "\<exists>s' f i. handle_icmp E ip p (of_nat n) s = Some s' \<and> ready s' \<and> sent s' = f # sent s \<and>
    f = icmp_reply_frame s i (ip_saddr ip) (take n (drop p (rx_pkt s))) \<and> ipv4_wf f \<and> checksum (drop 34 f) n = 0 \<and>
    length f = 34 + n \<and> take 2 (drop 34 f) = [0, 0] \<and> drop 38 f = take (n - 4) (drop (p + 4) (rx_pkt s))"
proof -
  obtain s' i where s': "handle_icmp E ip p (of_nat n) s = Some s'" "ready s'"
    "sent s' = icmp_reply_frame s i (ip_saddr ip) (take n (drop p (rx_pkt s))) # sent s"
    by (rule icmp_echo_reply [OF assms(1-4)]) (use assms(5,6) in \<open>simp_all add: ICMP_TYPE_ECHO_REQUEST_def\<close>)
  have "length (take n (drop p (rx_pkt s))) = n" "take n (drop p (rx_pkt s)) ! 1 = 0"
    "drop 4 (take n (drop p (rx_pkt s))) = take (n - 4) (drop (p + 4) (rx_pkt s))"
    using assms(1,2,4,6) by (simp_all add: ready_def drop_take add.commute)
  with icmp_reply_frame_parts [OF assms(1-3) this(1,2), of i "ip_saddr ip"] s' show ?thesis by metis
qed

theorem icmp_echo_answered_witness:
  "\<exists>s'. handle_icmp silent_net sample_ip 34 (of_nat 8) (sample_state\<lparr>rx_pkt := page_of (replicate 34 0 @ [8, 0])\<rparr>) = Some s' \<and> ready s'"
  using icmp_echo_answered [OF ready_sample_page, of "replicate 34 0 @ [8, 0]" 8 34 silent_net sample_ip]
  by (auto simp: page_of_def nth_append ICMP_TYPE_ECHO_REQUEST_def)

text \<open>
  C32.  An echo request whose IP total length is smaller than its header length, by at most 34, passes the
  size check, because the wrapped length wraps back when the header sizes are added; the copy then
  runs over both buffers.  The model has no result for such a frame, the code writes out of bounds.
\<close>

theorem icmp_length_underflow:
  assumes "ready s" "rx_type s = ETHERTYPE_IPV4" "ip_protocol (rx_ip s) = IP_PROTO_ICMP"
    "rx_pkt s ! (14 + rx_hlen s) = ICMP_TYPE_ECHO_REQUEST" "rx_pkt s ! (15 + rx_hlen s) = 0"
    "unat (ntohs (ip_tot_len (rx_ip s))) < rx_hlen s" "rx_hlen s \<le> unat (ntohs (ip_tot_len (rx_ip s))) + 34"
  shows "dispatch E s = None"
  using icmp_underflow_dispatch [of s E] assms by (simp add: const_vals)

theorem icmp_length_underflow_witness:
  "dispatch silent_net (sample_state\<lparr>rx_pkt := page_of (enc_eth sample_eth @ enc_ip (sample_ip\<lparr>ip_tot_len := 0, ip_protocol := 1\<rparr>) @ [8, 0])\<rparr>) = None"
proof (rule icmp_length_underflow)
  let ?s = "sample_state\<lparr>rx_pkt := page_of (enc_eth sample_eth @ enc_ip (sample_ip\<lparr>ip_tot_len := 0, ip_protocol := 1\<rparr>) @ [8, 0])\<rparr>"
  let ?h = "sample_ip\<lparr>ip_tot_len := 0, ip_protocol := 1\<rparr>"
  have v: "valid_eth sample_eth" by (simp add: valid_eth_def sample_eth_def)
  have l: "length (enc_eth sample_eth) = 14" "length (enc_ip ?h) = 20" using eth.length_enc [OF v] ip.length_enc [of ?h] by simp_all
  show "ready ?s" using l by (intro ready_sample_page) simp
  have ty: "rx_type ?s = ETHERTYPE_IPV4"
    using eth.dec_enc_Nil [OF v] by (simp add: rx_type_def page_of_def l) (simp add: sample_eth_def ntohs_def htons_htons const_vals)
  have ip: "rx_ip ?s = ?h" using ip.dec_enc_Nil [of ?h] by (simp add: rx_ip_def page_of_def l)
  have hl: "rx_hlen ?s = 20" by (simp add: rx_hlen_def ip ip_hdr_len_def) (simp add: sample_ip_def)
  show "rx_type ?s = ETHERTYPE_IPV4" by (rule ty)
  show "ip_protocol (rx_ip ?s) = IP_PROTO_ICMP" by (simp add: ip const_vals)
  show "rx_pkt ?s ! (14 + rx_hlen ?s) = ICMP_TYPE_ECHO_REQUEST" "rx_pkt ?s ! (15 + rx_hlen ?s) = 0"
    unfolding hl by (simp_all add: page_of_def nth_append l const_vals)
  show "unat (ntohs (ip_tot_len (rx_ip ?s))) < rx_hlen ?s" "rx_hlen ?s \<le> unat (ntohs (ip_tot_len (rx_ip ?s))) + 34"
    unfolding hl ip by (simp_all add: ntohs_def htons_def)
qed

subsection \<open>DNS and UDP\<close>

text \<open>
  C33.  A query for a terminated host name of at most 540 characters sends exactly one frame: to port 53 of
  the configured server, or of 8.8.8.8, from an ephemeral port that is recorded together with the
  identifier; the message asks for the A record of the labels between the dots; the lengths and both
  checksums are right.  A longer name is written past the end of the array, for which the model has no
  result.
\<close>

theorem dns_query_sends:
  assumes "ready s" "0 \<in> set hostname"
  shows "(length (cstring hostname) \<le> 540 \<longrightarrow> (\<exists>s' f. dns_query E hostname s = Some s' \<and> ready s' \<and> sent s' = f # sent s \<and>
    length f = 60 + length (cstring hostname) \<and> ipv4_wf f \<and> transport_wf f \<and>
    ip_daddr (dec_ip (drop 14 f)) = (if dns_server_ip s \<noteq> 0 then dns_server_ip s else htonl 0x08080808) \<and>
    udp_source (dec_udp (drop 34 f)) = htons (dns_local_port s') \<and> udp_dest (dec_udp (drop 34 f)) = htons 53 \<and>
    0xC000 \<le> dns_local_port s' \<and>
    drop 42 f = enc_dns \<lparr>dns_id = htons (dns_current_id s'), dns_flags = htons 0x0100, dns_qdcount = htons 1,
      dns_ancount = 0, dns_nscount = 0, dns_arcount = 0\<rparr> @ enc_labels (labels_of (cstring hostname)) @ [0, 0, 1, 0, 1])) \<and>
    (540 < length (cstring hostname) \<longrightarrow> dns_query E hostname s = None)"
proof (intro conjI impI dns_query_overflow)
  assume n: "length (cstring hostname) \<le> 540"
  let ?f = "dns_frame (dns_prepare s) (ucast (fst (get_u32 s) AND 0xFFFF)) (cstring hostname)"
  have r: "ready (dns_prepare s)" by (rule ready_dns_prepare [OF assms(1)])
  have "length ?f \<le> 4096" using length_dns_frame [OF r] n by simp
  then obtain s' where s': "send_frame E ?f (dns_prepare s) = Some s'" "sends (dns_prepare s) ?f s'" "ready s'"
    using send_frame_ready [OF r] by blast
  then have port: "dns_local_port s' = dns_local_port (dns_prepare s)" "dns_current_id s' = dns_current_id (dns_prepare s)"
    by (auto simp: sends_def)
  show "\<exists>s' f. dns_query E hostname s = Some s' \<and> ready s' \<and> sent s' = f # sent s \<and>
    length f = 60 + length (cstring hostname) \<and> ipv4_wf f \<and> transport_wf f \<and>
    ip_daddr (dec_ip (drop 14 f)) = (if dns_server_ip s \<noteq> 0 then dns_server_ip s else htonl 0x08080808) \<and>
    udp_source (dec_udp (drop 34 f)) = htons (dns_local_port s') \<and> udp_dest (dec_udp (drop 34 f)) = htons 53 \<and>
    0xC000 \<le> dns_local_port s' \<and>
    drop 42 f = enc_dns \<lparr>dns_id = htons (dns_current_id s'), dns_flags = htons 0x0100, dns_qdcount = htons 1,
      dns_ancount = 0, dns_nscount = 0, dns_arcount = 0\<rparr> @ enc_labels (labels_of (cstring hostname)) @ [0, 0, 1, 0, 1]"
    using s' dns_query_eq [OF assms n, of E] length_dns_frame [OF r] dns_frame_wf [OF r n] sends_sent [OF s'(2)]
      dns_frame_fields [OF r] dns_prepare_fields [of s]
    by (auto simp: port dns_message_def)
qed

theorem dns_query_sends_witness:
  "\<exists>s' f. dns_query silent_net [0x61, 0x2E, 0x62, 0] sample_state = Some s' \<and> sent s' = f # sent sample_state \<and>
    drop 54 f = [1, 0x61, 1, 0x62, 0, 0, 1, 0, 1]"
proof -
  have c: "cstring [0x61, 0x2E, 0x62, 0] = [0x61, 0x2E, 0x62]" by (simp add: cstring_def)
  obtain s' f where f: "dns_query silent_net [0x61, 0x2E, 0x62, 0] sample_state = Some s'" "sent s' = f # sent sample_state"
    "drop 42 f = enc_dns \<lparr>dns_id = htons (dns_current_id s'), dns_flags = htons 0x0100, dns_qdcount = htons 1,
      dns_ancount = 0, dns_nscount = 0, dns_arcount = 0\<rparr> @ [1, 0x61, 1, 0x62] @ [0, 0, 1, 0, 1]"
    using dns_query_sends [OF ready_sample, of "[0x61, 0x2E, 0x62, 0]" silent_net] by (auto simp: c enc_labels_def)
  have "drop 54 f = drop 12 (drop 42 f)" by simp
  then have "drop 54 f = [1, 0x61, 1, 0x62, 0, 0, 1, 0, 1]" unfolding f(3) by (simp add: dns.length_enc)
  with f show ?thesis by blast
qed

text \<open>
  C34.  The encoded response to the current query, with any questions and records whose names are label lists
  or compression pointers, resolves to the address of the first A record and leaves the state alone
  when there is none; a message with another identifier, without the response bit or without answers
  is ignored.  A response with questions and answers that has no zero byte up to the end of the receive
  page makes the label loop leave it, for which the model has no result.
\<close>

theorem dns_answer_parsed:
  shows "(rx_pkt s = a @ enc_response ident flags qs rs ns ar @ b \<and> list_all question_ok qs \<and> length qs < 65536 \<and>
      list_all rr_ok rs \<and> length rs < 65536 \<longrightarrow>
      handle_dns_response (length a) s = Some
        (if ident = dns_current_id s \<and> flags AND 0x8000 \<noteq> 0
         then (case List.find is_a rs of
             Some r \<Rightarrow> s\<lparr>dns_resolved_ip := dec32 (rr_data r), dns_resolved := True\<rparr> | None \<Rightarrow> s)
         else s)) \<and>
    (load (rx_pkt s) p 12 = Some m \<and> dns_id (dec_dns m) = htons (dns_current_id s) \<and>
      ntohs (dns_flags (dec_dns m)) AND 0x8000 \<noteq> 0 \<and> ntohs (dns_ancount (dec_dns m)) \<noteq> 0 \<and>
      ntohs (dns_qdcount (dec_dns m)) \<noteq> 0 \<and> 0 \<notin> set (drop (p + 12) (rx_pkt s)) \<longrightarrow>
      handle_dns_response p s = None)"
proof -
  have "handle_dns_response (length a) s = Some
      (if ident = dns_current_id s \<and> flags AND 0x8000 \<noteq> 0 then resolve_with rs s else s)"
    if "rx_pkt s = a @ enc_response ident flags qs rs ns ar @ b" "list_all question_ok qs" "length qs < 65536"
      "list_all rr_ok rs" "length rs < 65536"
  proof (cases "ident = dns_current_id s \<and> flags AND 0x8000 \<noteq> 0")
    case True
    then show ?thesis using handle_dns_response_enc [of s a flags qs rs ns ar b "length a"] that by simp
  next
    case False
    then show ?thesis using handle_dns_response_other [OF that(1)] by (subst if_not_P) simp_all
  qed
  with dns_response_runs_away [of s p m] show ?thesis by (auto simp: resolve_with_def cong: option.case_cong)
qed

theorem dns_answer_parsed_witness:
  "handle_dns_response 42 (sample_state\<lparr>dns_current_id := 7,
      rx_pkt := replicate 42 0 @ enc_response 7 0x8180 [sample_question] [sample_rr] 0 0 @ replicate 3 0\<rparr>) =
    Some (sample_state\<lparr>dns_current_id := 7,
      rx_pkt := replicate 42 0 @ enc_response 7 0x8180 [sample_question] [sample_rr] 0 0 @ replicate 3 0,
      dns_resolved_ip := dec32 (rr_data sample_rr), dns_resolved := True\<rparr>)"
  using dns_answer_parsed [of "sample_state\<lparr>dns_current_id := 7,
      rx_pkt := replicate 42 0 @ enc_response 7 0x8180 [sample_question] [sample_rr] 0 0 @ replicate 3 0\<rparr>"
      "replicate 42 0" 7 "0x8180" "[sample_question]" "[sample_rr]" 0 0 "replicate 3 0"]
  by simp

text \<open>
  C35.  A datagram of \<open>n\<close> payload bytes for the user's port is copied into the posted buffer, truncated to its
  size, with the length and the flag set and nothing else changed; a datagram for neither the user's
  nor the resolver's port has no effect.  A datagram whose length field is below the header size
  fills the whole posted buffer with the bytes the page holds behind the header, or, when the buffer
  is larger than those, makes the copy leave the page, for which the model has no result.
\<close>

theorem udp_delivery:
  assumes "ready s" "p + 8 + n \<le> 4096"
  defines "u \<equiv> dec_udp (take 8 (drop p (rx_pkt s)))"
  shows "(ntohs (udp_dest u) = udp_local_port s \<and> udp_local_port s \<noteq> 0 \<and> udp_local_port s \<noteq> dns_local_port s \<and>
      unat (ntohs (udp_len u)) = 8 + n \<and> 0 < n \<and> udp_rx_buffer s = Some buf \<and> unat (udp_rx_max_len s) \<le> length buf \<longrightarrow>
      handle_udp ip p data_len s = Some (s\<lparr>
        udp_rx_buffer := Some (take (min n (unat (udp_rx_max_len s))) (drop (p + 8) (rx_pkt s)) @
          drop (min n (unat (udp_rx_max_len s))) buf),
        udp_rx_current_len := of_nat (min n (unat (udp_rx_max_len s))), udp_rx_done := True\<rparr>)) \<and>
    ((ntohs (udp_dest u) \<noteq> udp_local_port s \<or> udp_local_port s = 0) \<and>
      (ntohs (udp_dest u) \<noteq> dns_local_port s \<or> dns_local_port s = 0) \<longrightarrow>
      handle_udp ip p data_len s = Some s) \<and>
    (ntohs (udp_dest u) = udp_local_port s \<and> udp_local_port s \<noteq> 0 \<and> udp_local_port s \<noteq> dns_local_port s \<and>
      unat (ntohs (udp_len u)) < 8 \<and> udp_rx_buffer s = Some buf \<and> 0 < udp_rx_max_len s \<and>
      unat (udp_rx_max_len s) \<le> length buf \<and> unat (udp_rx_max_len s) < 2 ^ 63 \<longrightarrow>
      handle_udp ip p data_len s =
        (if p + 8 + unat (udp_rx_max_len s) \<le> 4096
         then Some (s\<lparr>
           udp_rx_buffer := Some (take (unat (udp_rx_max_len s)) (drop (p + 8) (rx_pkt s)) @
             drop (unat (udp_rx_max_len s)) buf),
           udp_rx_current_len := udp_rx_max_len s, udp_rx_done := True\<rparr>)
         else None))"
proof -
  have p: "p + 8 \<le> 4096" using assms(2) by simp
  note c = handle_udp_cases [OF assms(1) p refl, of ip data_len, folded u_def]
  have "unat (ntohs (udp_len u)) = 8 + n \<Longrightarrow> 0 < n \<Longrightarrow> udp_rx_buffer s = Some buf \<Longrightarrow>
      unat (udp_rx_max_len s) \<le> length buf \<Longrightarrow> handle_user_datagram p u s = Some (s\<lparr>
        udp_rx_buffer := Some (take (min n (unat (udp_rx_max_len s))) (drop (p + 8) (rx_pkt s)) @
          drop (min n (unat (udp_rx_max_len s))) buf),
        udp_rx_current_len := of_nat (min n (unat (udp_rx_max_len s))), udp_rx_done := True\<rparr>)"
    using handle_user_datagram_eq [OF assms(1) _ _ assms(2) _ _ refl, of u buf] by blast
  moreover have "unat (ntohs (udp_len u)) < 8 \<Longrightarrow> udp_rx_buffer s = Some buf \<Longrightarrow> 0 < udp_rx_max_len s \<Longrightarrow>
      unat (udp_rx_max_len s) \<le> length buf \<Longrightarrow> unat (udp_rx_max_len s) < 2 ^ 63 \<Longrightarrow>
      handle_user_datagram p u s = (if p + 8 + unat (udp_rx_max_len s) \<le> 4096
         then Some (s\<lparr>
           udp_rx_buffer := Some (take (unat (udp_rx_max_len s)) (drop (p + 8) (rx_pkt s)) @
             drop (unat (udp_rx_max_len s)) buf),
           udp_rx_current_len := udp_rx_max_len s, udp_rx_done := True\<rparr>)
         else None)"
    using handle_user_datagram_underflow [OF assms(1) _ _ _ _ refl, of u buf p]
    by (simp add: word_less_nat_alt)
  ultimately show ?thesis using c by auto
qed

theorem udp_delivery_witness:
  "\<exists>s'. handle_udp sample_ip 0 0 (sample_udp_state [7, 8, 9]) = Some s' \<and> udp_rx_buffer s' = Some [7, 8] \<and> udp_rx_done s'"
  using udp_delivery [OF ready_sample_udp [of "[7, 8, 9]"], of 0 3 "[0, 0]" sample_ip 0]
  by (simp add: sample_udp_fields udp.dec_enc_Nil) (simp add: udp_hdr_of_def ntohs_def htons_htons)

text \<open>
  C36.  A payload of at most 1458 bytes leaves in exactly one frame with the given ports and address, correct
  lengths and verifying checksums; a longer one runs over the frame array, for which the model has no
  result.
\<close>

theorem udp_datagram_sent:
  assumes "ready s"
  shows "(unat n \<le> 1458 \<and> unat n \<le> length buf \<longrightarrow>
      (\<exists>s' f. send_udp E da dst src (Some buf) n s = Some s' \<and> ready s' \<and> sent s' = f # sent s \<and>
        length f = 42 + unat n \<and> ipv4_wf f \<and> transport_wf f \<and> drop 42 f = take (unat n) buf \<and>
        ip_saddr (dec_ip (drop 14 f)) = my_ip s \<and> ip_daddr (dec_ip (drop 14 f)) = da \<and>
        udp_source (dec_udp (drop 34 f)) = htons src \<and> udp_dest (dec_udp (drop 34 f)) = htons dst)) \<and>
    (1458 < unat n \<longrightarrow> send_udp E da dst src (Some buf) n s = None)"
proof (intro conjI impI send_udp_overflow)
  assume n: "unat n \<le> 1458 \<and> unat n \<le> length buf"
  let ?d = "take (unat n) buf" and ?i = "ucast (fst (get_u32 s) AND 0xFFFF) :: u16"
  have d: "length ?d = unat n" using n by simp
  have l: "length ?d \<le> 1458" "length ?d \<le> length buf" "?d = take (length ?d) buf" using n by simp_all
  have g: "ready (snd (get_u32 s))" "sent (snd (get_u32 s)) = sent s"
    using assms by (simp_all add: get_u32_def Let_def sent_def)
  have "length (udp_frame s ?i da src dst ?d) \<le> 4096" using length_udp_frame [OF assms] l by simp
  then obtain s' where "send_frame E (udp_frame s ?i da src dst ?d) (snd (get_u32 s)) = Some s'" "ready s'"
    "sends (snd (get_u32 s)) (udp_frame s ?i da src dst ?d) s'"
    using send_frame_ready [OF g(1)] by blast
  then show "\<exists>s' f. send_udp E da dst src (Some buf) n s = Some s' \<and> ready s' \<and> sent s' = f # sent s \<and>
      length f = 42 + unat n \<and> ipv4_wf f \<and> transport_wf f \<and> drop 42 f = ?d \<and>
      ip_saddr (dec_ip (drop 14 f)) = my_ip s \<and> ip_daddr (dec_ip (drop 14 f)) = da \<and>
      udp_source (dec_udp (drop 34 f)) = htons src \<and> udp_dest (dec_udp (drop 34 f)) = htons dst"
    using send_udp_eq [OF assms l, of E da dst src] length_udp_frame [OF assms] udp_frame_wf [OF assms l(1)]
      udp_frame_fields [OF assms] sends_sent g(2) d by (intro exI [of _ s']) auto
qed

theorem udp_datagram_sent_witness:
  "\<exists>s' f. send_udp silent_net 9 53 50000 (Some [1, 2, 3]) 3 sample_state = Some s' \<and> sent s' = f # sent sample_state \<and>
    drop 42 f = [1, 2, 3]"
  using udp_datagram_sent [OF ready_sample, of 3 "[1, 2, 3]" silent_net 9 53 50000] by fastforce

subsection \<open>Checksums, headers, texts\<close>

text \<open>
  C37.  The two checksum loops equal the specification of RFC 1071: the one's complement of the sum of the
  16-bit words (a last odd byte counting as a word) with end-around carry; for \<open>pseudo_checksum\<close> with
  the words of the pseudo-header added.  Up to 128 KiB the 32-bit accumulator cannot overflow.  A
  message that carries, in an aligned field, the checksum computed while the field was zero verifies
  to zero.
\<close>

theorem checksum_rfc1071:
  assumes "len \<le> 131072"
  shows "unat (checksum data len) = 65535 - ones_fold (word_sum (take len data)) \<and>
    unat (pseudo_checksum sa da proto data n) =
      65535 - ones_fold (pseudo_sum sa da proto n + word_sum (take (unat n) data)) \<and>
    (\<forall>a b r. even (length a) \<and> len = length a + 2 + length b \<longrightarrow>
      checksum (a @ enc16 (checksum (a @ enc16 0 @ b @ r) len) @ b @ r) len = 0)"
  using assms by (auto simp: unat_checksum unat_pseudo_checksum intro: checksum_stored)

theorem checksum_rfc1071_witness:
  "unat (checksum [0xFF, 0xFF, 1] 3) = 65534 \<and>
   checksum ([1, 2] @ enc16 (checksum ([1, 2] @ enc16 0 @ [3] @ [9]) 5) @ [3] @ [9]) 5 = 0"
proof
  have "word_sum [0xFF, 0xFF, 1] = 65536" by (simp add: dec16_Cons)
  moreover have "ones_fold 65536 = 1" by (simp add: ones_fold_def)
  moreover have "take 3 [0xFF, 0xFF, 1 :: u8] = [0xFF, 0xFF, 1]" by simp
  ultimately show "unat (checksum [0xFF, 0xFF, 1] 3) = 65534"
    using checksum_rfc1071 [of 3 "[0xFF, 0xFF, 1]"] by (simp del: word_sum.simps)
  show "checksum ([1, 2] @ enc16 (checksum ([1, 2] @ enc16 0 @ [3] @ [9]) 5) @ [3] @ [9]) 5 = 0"
    using conjunct2 [OF conjunct2 [OF checksum_rfc1071 [of 5]], rule_format, of "[1, 2]" "[3]"] by simp
qed



text \<open>
  C39.  The number printers are defined for every 64-bit value, so their fixed arrays suffice, and what reaches
  the console reads back as the value; \<open>print_ip\<close> writes the octets in network order with dots between.
\<close>

theorem numbers_printed:
  "(\<exists>s' t. print_dec E v s = Some s' \<and> shows_text E t s s' \<and> digits_value 10 (rev (map dec_num t)) = unat v) \<and>
   (\<exists>s' t. print_hex E v s = Some s' \<and> shows_text E ([0x30, 0x78] @ t) s s' \<and>
     digits_value 16 (rev (map hex_num t)) = unat v) \<and>
   (\<exists>s'. print_ip E ip s = Some s' \<and>
     shows_text E (dotted (ucast ip) (ucast (drop_bit 8 ip)) (ucast (drop_bit 16 ip)) (ucast (drop_bit 24 ip))) s s')"
  using print_dec_shows [of E v s] decimal_value [of "unat v"] print_hex_eq [of E v s]
    print_str_shows [of E "hexadecimal (unat v)" s] hexadecimal_value [of "unat v"] print_ip_shows [of E ip s]
    hexadecimal_prefix [of "unat v"]
  by metis

subsection \<open>Answers that arrive\<close>

text \<open>
  C40.  A segment with the RST flag for the local port, built by any machine, whatever its address, its port
  and the numbers it carries, ends a waiting \<open>tcp_receive\<close>: the connection is closed, and the call
  returns success with zero bytes and the buffer as it was.
\<close>

theorem reset_from_anyone:
  assumes "ready s" "tcp_state s = TCP_STATE_ESTABLISHED"
    and "ready stranger" "tcp_remote_port stranger = tcp_local_port s" "tcp_local_port s \<noteq> 0"
    and "length d \<le> 1446" "flags AND 0x04 \<noteq> 0" "ms * 10 \<noteq> 0"
    and "\<And>tr. receptions tr = polls s + 1 \<Longrightarrow> fw_receive E tr = (EFI_SUCCESS, tcp_frame stranger i flags seq ack d)"
  shows "\<exists>s'. tcp_receive E (Some buf) max_len ms s = Some (EFI_SUCCESS, Some buf, 0, s') \<and>
    tcp_state s' = TCP_STATE_CLOSED"
  by (rule tcp_receive_reset [OF assms])

theorem reset_from_anyone_witness:
  "\<exists>s'. tcp_receive (script_net [(1, tcp_frame (stranger_at 50000) 2 0x04 77 78 [])]) (Some [1, 2, 3]) 3 1000
      (sample_state\<lparr>tcp_state := 2, tcp_local_port := 50000, tcp_remote_port := 80, tcp_remote_ip := 0x0101A8C0\<rparr>) =
    Some (EFI_SUCCESS, Some [1, 2, 3], 0, s') \<and> tcp_state s' = TCP_STATE_CLOSED"
proof (rule reset_from_anyone)
  let ?s = "sample_state\<lparr>tcp_state := 2, tcp_local_port := 50000, tcp_remote_port := 80, tcp_remote_ip := 0x0101A8C0\<rparr>"
  show "ready ?s" using ready_sample by (simp add: ready_def)
  show "fw_receive (script_net [(1, tcp_frame (stranger_at 50000) 2 0x04 77 78 [])]) tr =
      (EFI_SUCCESS, tcp_frame (stranger_at 50000) 2 0x04 77 78 [])" if "receptions tr = polls ?s + 1" for tr
    by (rule script_net_receive [OF that]) (simp add: polls_def sample_state_def initial_state_def)
qed (simp_all add: const_vals)

end
